(* ===== verification/Prelude.thy ===== *)
theory Prelude
  imports Main "HOL-Library.Word" "HOL-Library.Signed_Division" "HOL-Library.Monad_Syntax"
begin

text \<open>
  Shared vocabulary of the development: the machine integers of the crate, its byte and
  string types, the two result shapes of the Rust code (a nullable pointer is an option,
  \<open>Result\<close> is a sum with the error on the left), the outcome of a call that may
  panic, and the generic lemmas the component theories use.
\<close>

subsection \<open>Machine integers\<close>

type_synonym u8 = "8 word"
type_synonym u16 = "16 word"
type_synonym u32 = "32 word"
type_synonym u64 = "64 word"
type_synonym i64 = "64 word"  \<comment> \<open>read through \<open>sint\<close>\<close>
type_synonym u128 = "128 word"
type_synonym usize = "64 word"  \<comment> \<open>both shipped ABIs (arm64-v8a, x86_64) are 64-bit\<close>

type_synonym bytes = "u8 list"

text \<open>
  A Rust \<open>str\<close> is the list of its UTF-8 bytes (HOL characters are bytes); a
  \<open>*const c_char\<close> is \<open>None\<close> for null and otherwise the bytes before the terminating NUL.
\<close>

type_synonym cptr = "string option"

definition sat_add :: "'a::len word \<Rightarrow> 'a word \<Rightarrow> 'a word" where
  "sat_add a b = (if unat a + unat b < 2 ^ LENGTH('a) then a + b else - 1)"

definition sat_sub :: "'a::len word \<Rightarrow> 'a word \<Rightarrow> 'a word" where
  "sat_sub a b = (if b \<le> a then a - b else 0)"

definition sat_mul :: "'a::len word \<Rightarrow> 'a word \<Rightarrow> 'a word" where
  "sat_mul a b = (if unat a * unat b < 2 ^ LENGTH('a) then a * b else - 1)"

definition checked_add :: "'a::len word \<Rightarrow> 'a word \<Rightarrow> 'a word option" where
  "checked_add a b = (if unat a + unat b < 2 ^ LENGTH('a) then Some (a + b) else None)"

text \<open>\<open>(t / 1000) as u64\<close> for a signed \<open>t\<close>: division truncates, the cast reinterprets.\<close>

definition millis_to_secs :: "i64 \<Rightarrow> u64" where
  "millis_to_secs t = word_of_int (sint t sdiv 1000)"

lemma unat_bound: "unat w < 2 ^ LENGTH('a)" for w :: "'a::len word"
  by (rule unsigned_less)

lemma unat_minus_one_max: "unat (- 1 :: 'a::len word) = 2 ^ LENGTH('a) - 1"
  by (simp add: unsigned_minus_1_eq_mask mask_eq_exp_minus_1)

lemma unat_sat_add: "unat (sat_add a b) = min (unat a + unat b) (2 ^ LENGTH('a) - 1)"
  for a b :: "'a::len word"
proof (cases "unat a + unat b < 2 ^ LENGTH('a)")
  case True
  then show ?thesis by (simp add: sat_add_def unat_add_lem [THEN iffD1])
next
  case False
  then show ?thesis by (simp add: sat_add_def unat_minus_one_max)
qed

lemma unat_sat_mul: "unat (sat_mul a b) = min (unat a * unat b) (2 ^ LENGTH('a) - 1)"
  for a b :: "'a::len word"
proof (cases "unat a * unat b < 2 ^ LENGTH('a)")
  case True
  then show ?thesis by (simp add: sat_mul_def unat_mult_lem [THEN iffD1])
next
  case False
  then show ?thesis by (simp add: sat_mul_def unat_minus_one_max)
qed

text \<open>Evaluation without large natural numbers.\<close>

lemma sat_add_code [code]: "sat_add a b = (if a + b < a then - 1 else a + b)" for a b :: "'a::len word"
proof (cases "unat a + unat b < 2 ^ LENGTH('a)")
  case True
  then have "unat (a + b) = unat a + unat b" by (simp add: unat_add_lem [THEN iffD1])
  then show ?thesis using True by (simp add: sat_add_def word_less_nat_alt)
next
  case False
  then have "unat (a + b) = unat a + unat b - 2 ^ LENGTH('a)" by (simp add: unat_plus_if')
  moreover have "unat a + unat b - 2 ^ LENGTH('a) < unat a"
    using False unat_bound [of b] by linarith
  ultimately show ?thesis using False by (simp add: sat_add_def word_less_nat_alt)
qed

lemma unat_sat_sub: "unat (sat_sub a b) = unat a - unat b"
  by (auto simp: sat_sub_def unat_sub word_le_nat_alt)

lemma checked_add_Some: "checked_add a b = Some c \<Longrightarrow> unat c = unat a + unat b"
  by (auto simp: checked_add_def unat_add_lem [THEN iffD1] split: if_splits)

subsection \<open>Results\<close>

definition bindE :: "'e + 'a \<Rightarrow> ('a \<Rightarrow> 'e + 'b) \<Rightarrow> 'e + 'b" where
  "bindE m f = (case m of Inl e \<Rightarrow> Inl e | Inr x \<Rightarrow> f x)"

definition ok_or :: "'e \<Rightarrow> 'a option \<Rightarrow> 'e + 'a" where
  "ok_or e x = (case x of None \<Rightarrow> Inl e | Some v \<Rightarrow> Inr v)"

definition guardE :: "bool \<Rightarrow> 'e \<Rightarrow> 'e + unit" where
  "guardE b e = (if b then Inr () else Inl e)"

definition res_ok :: "'e + 'a \<Rightarrow> 'a option" where
  "res_ok m = (case m of Inl e \<Rightarrow> None | Inr x \<Rightarrow> Some x)"

definition assertO :: "bool \<Rightarrow> unit option" where
  "assertO b = (if b then Some () else None)"

text \<open>Traversals that stop at the first failure, as \<open>collect::<Result<_, _>>()\<close> does.\<close>

fun mapE :: "('a \<Rightarrow> 'e + 'b) \<Rightarrow> 'a list \<Rightarrow> 'e + 'b list" where
  "mapE f [] = Inr []"
| "mapE f (x # xs) =
     (case f x of Inl e \<Rightarrow> Inl e
      | Inr y \<Rightarrow> (case mapE f xs of Inl e \<Rightarrow> Inl e | Inr ys \<Rightarrow> Inr (y # ys)))"

fun mapO :: "('a \<Rightarrow> 'b option) \<Rightarrow> 'a list \<Rightarrow> 'b list option" where
  "mapO f [] = Some []"
| "mapO f (x # xs) =
     (case f x of None \<Rightarrow> None
      | Some y \<Rightarrow> (case mapO f xs of None \<Rightarrow> None | Some ys \<Rightarrow> Some (y # ys)))"

datatype 'a outcome = Ret 'a | Panics

text \<open>The facts that open a successful or failing chain of checks.\<close>

named_theorems resE \<open>when a chain of results succeeds, when it fails\<close>

lemma bindE_Inl [simp]: "bindE (Inl e) f = Inl e"
  and bindE_Inr [simp]: "bindE (Inr x) f = f x"
  by (simp_all add: bindE_def)

lemma bindE_eq_Inr [resE]: "bindE m f = Inr y \<longleftrightarrow> (\<exists>x. m = Inr x \<and> f x = Inr y)"
  by (cases m) auto

lemma bindE_eq_Inl [resE]: "bindE m f = Inl e \<longleftrightarrow> m = Inl e \<or> (\<exists>x. m = Inr x \<and> f x = Inl e)"
  by (cases m) auto

lemma ok_or_simps [simp]: "ok_or e None = Inl e" "ok_or e (Some x) = Inr x"
  by (simp_all add: ok_or_def)

lemma ok_or_eq_Inr [resE]: "ok_or e m = Inr x \<longleftrightarrow> m = Some x"
  by (cases m) auto

lemma ok_or_eq_Inl [resE]: "ok_or e m = Inl e' \<longleftrightarrow> m = None \<and> e' = e"
  by (cases m) auto

lemma guardE_simps [simp]: "guardE True e = Inr ()" "guardE False e = Inl e"
  by (simp_all add: guardE_def)

lemma guardE_eq_Inr [resE]: "guardE b e = Inr u \<longleftrightarrow> b"
  by (simp add: guardE_def)

lemma guardE_eq_Inl [resE]: "guardE b e = Inl e' \<longleftrightarrow> \<not> b \<and> e' = e"
  by (auto simp: guardE_def)

lemma map_sum_Inr [resE]: "map_sum h id m = Inr x \<longleftrightarrow> m = Inr x"
  by (cases m) auto

lemma map_sum_Inl [resE]: "map_sum h id m = Inl x \<longleftrightarrow> (\<exists>e. m = Inl e \<and> x = h e)"
  by (cases m) auto

lemma res_ok_simps [simp]: "res_ok (Inl e) = None" "res_ok (Inr x) = Some x"
  by (simp_all add: res_ok_def)

lemma res_ok_eq_Some: "res_ok m = Some x \<longleftrightarrow> m = Inr x"
  by (cases m) auto

lemma assertO_simps [simp]: "assertO True = Some ()" "assertO False = None"
  by (simp_all add: assertO_def)

lemma assertO_eq_Some: "assertO b = Some u \<longleftrightarrow> b"
  by (simp add: assertO_def)

lemma mapO_eq_Some: "mapO f xs = Some ys \<longleftrightarrow> map f xs = map Some ys"
proof (induction xs arbitrary: ys)
  case (Cons x xs)
  note IH = Cons.IH
  show ?case
  proof (cases ys)
    case (Cons z zs)
    then show ?thesis using IH [of zs] by (auto split: option.splits)
  qed (auto split: option.splits)
qed auto

lemma mapO_length: "mapO f xs = Some ys \<Longrightarrow> length ys = length xs"
  by (metis mapO_eq_Some length_map)

lemma mapO_None: "mapO f xs = None \<longleftrightarrow> (\<exists>x \<in> set xs. f x = None)"
  by (induction xs) (auto split: option.splits)

lemma mapO_append:
  "mapO f (xs @ ys) =
     (case mapO f xs of None \<Rightarrow> None
      | Some as \<Rightarrow> (case mapO f ys of None \<Rightarrow> None | Some bs \<Rightarrow> Some (as @ bs)))"
  by (induction xs) (auto split: option.splits)

lemma mapO_map: "mapO f (map g xs) = mapO (\<lambda>x. f (g x)) xs"
  by (induction xs) (auto split: option.splits)

lemma mapO_Some_id: "(\<And>x. x \<in> set xs \<Longrightarrow> f x = Some (g x)) \<Longrightarrow> mapO f xs = Some (map g xs)"
  by (induction xs) auto

lemma mapE_eq_Inr: "mapE f xs = Inr ys \<longleftrightarrow> map f xs = map Inr ys"
proof (induction xs arbitrary: ys)
  case (Cons x xs)
  note IH = Cons.IH
  show ?case
  proof (cases ys)
    case (Cons z zs)
    then show ?thesis using IH [of zs] by (auto split: sum.splits)
  qed (auto split: sum.splits)
qed auto

lemma mapE_length: "mapE f xs = Inr ys \<Longrightarrow> length ys = length xs"
  by (metis mapE_eq_Inr length_map)

lemma mapE_nth:
  assumes "mapE f xs = Inr ys" and "i < length xs"
  shows "f (xs ! i) = Inr (ys ! i)"
proof -
  have "map f xs ! i = map Inr ys ! i"
    using assms(1) by (simp only: mapE_eq_Inr)
  then show ?thesis using assms mapE_length [OF assms(1)] by simp
qed

lemma mapE_set:
  assumes "mapE f xs = Inr ys" and "y \<in> set ys"
  shows "\<exists>x \<in> set xs. f x = Inr y"
  using assms by (induction xs arbitrary: ys) (auto split: sum.splits)

lemma mapE_Inl_iff: "(\<exists>e. mapE f xs = Inl e) \<longleftrightarrow> (\<exists>x \<in> set xs. \<exists>e. f x = Inl e)"
  by (induction xs) (auto split: sum.splits)

lemma mapE_cong_ok: "(\<And>x. x \<in> set xs \<Longrightarrow> f x = Inr (g x)) \<Longrightarrow> mapE f xs = Inr (map g xs)"
  by (induction xs) auto

lemma in_map_filter: "y \<in> set (List.map_filter f xs) \<longleftrightarrow> (\<exists>x \<in> set xs. f x = Some y)"
  by (induction xs) (auto simp: map_filter_simps split: option.split)

subsection \<open>Left folds that may fail\<close>

fun foldO :: "('s \<Rightarrow> 'a \<Rightarrow> 's option) \<Rightarrow> 's \<Rightarrow> 'a list \<Rightarrow> 's option" where
  "foldO f s [] = Some s"
| "foldO f s (x # xs) = (case f s x of None \<Rightarrow> None | Some s' \<Rightarrow> foldO f s' xs)"

lemma foldO_append:
  "foldO f s (xs @ ys) = (case foldO f s xs of None \<Rightarrow> None | Some s' \<Rightarrow> foldO f s' ys)"
  by (induction xs arbitrary: s) (auto split: option.splits)

text \<open>\<open>slice::from_raw_parts(p, n)\<close> on memory the caller guarantees to hold \<open>n\<close> elements.\<close>

definition slice_from :: "'a list \<Rightarrow> usize \<Rightarrow> 'a list" where
  "slice_from p n = take (unat n) p"

subsection \<open>Sorting by an order given as a function\<close>

text \<open>\<open>slice::sort\<close> is stable; insertion sort is the executable specification of it.\<close>

fun insert_by :: "('a \<Rightarrow> 'a \<Rightarrow> bool) \<Rightarrow> 'a \<Rightarrow> 'a list \<Rightarrow> 'a list" where
  "insert_by le x [] = [x]"
| "insert_by le x (y # ys) = (if le x y then x # y # ys else y # insert_by le x ys)"

fun sort_by :: "('a \<Rightarrow> 'a \<Rightarrow> bool) \<Rightarrow> 'a list \<Rightarrow> 'a list" where
  "sort_by le [] = []"
| "sort_by le (x # xs) = insert_by le x (sort_by le xs)"

definition total_order :: "('a \<Rightarrow> 'a \<Rightarrow> bool) \<Rightarrow> bool" where
  "total_order le \<longleftrightarrow> (\<forall>x y. le x y \<or> le y x) \<and> (\<forall>x y z. le x y \<longrightarrow> le y z \<longrightarrow> le x z)"

lemma set_insert_by [simp]: "set (insert_by le x ys) = insert x (set ys)"
  by (induction ys) auto

lemma set_sort_by [simp]: "set (sort_by le xs) = set xs"
  by (induction xs) auto

lemma length_insert_by [simp]: "length (insert_by le x ys) = Suc (length ys)"
  by (induction ys) auto

lemma length_sort_by [simp]: "length (sort_by le xs) = length xs"
  by (induction xs) auto

lemma count_insert_by: "count_list (insert_by le x ys) a = count_list (x # ys) a"
  by (induction ys) auto

lemma count_sort_by: "count_list (sort_by le xs) a = count_list xs a"
  by (induction xs) (auto simp: count_insert_by)

lemma sorted_insert_by:
  assumes "total_order le"
  shows "sorted_wrt le ys \<Longrightarrow> sorted_wrt le (insert_by le x ys)"
  using assms by (induction ys) (auto simp: total_order_def)

lemma sorted_sort_by: "total_order le \<Longrightarrow> sorted_wrt le (sort_by le xs)"
  by (induction xs) (auto simp: sorted_insert_by)

end
