(* ===== verification/RustStd.thy ===== *)
theory RustStd
  imports Prelude "HOL-Library.Sublist"
begin

text \<open>
  The pieces of the Rust standard library the crate relies on: UTF-8 validation of C strings
  (\<open>CStr::to_str\<close>), the NUL check of \<open>CString::new\<close>, \<open>str::trim\<close>, \<open>str::split\<close>,
  \<open>[T]::join\<close>, decimal parsing and printing of unsigned integers, and little-endian
  byte conversion. Strings are lists of UTF-8 bytes.
\<close>

subsection \<open>Bytes of a string literal\<close>

definition ascii :: "string \<Rightarrow> bytes" where
  "ascii s = map of_char s"

lemma length_ascii [simp]: "length (ascii s) = length s"
  by (simp add: ascii_def)

lemma ascii_append: "ascii (s @ t) = ascii s @ ascii t"
  by (simp add: ascii_def)

subsection \<open>UTF-8 validation\<close>

definition is_cont :: "nat \<Rightarrow> bool" where
  "is_cont b \<longleftrightarrow> 128 \<le> b \<and> b \<le> 191"

text \<open>
  Well-formed byte sequences as \<open>core::str::from_utf8\<close> accepts them: no overlong forms,
  no surrogates, nothing above U+10FFFF.
\<close>

fun utf8_ok :: "nat list \<Rightarrow> bool" where
  "utf8_ok [] = True"
| "utf8_ok (a # r) =
     (if a < 128 then utf8_ok r
      else if 194 \<le> a \<and> a \<le> 223 then
        (case r of b # r' \<Rightarrow> is_cont b \<and> utf8_ok r' | [] \<Rightarrow> False)
      else if 224 \<le> a \<and> a \<le> 239 then
        (case r of b # c # r' \<Rightarrow>
           is_cont b \<and> is_cont c \<and> (a = 224 \<longrightarrow> 160 \<le> b) \<and> (a = 237 \<longrightarrow> b \<le> 159) \<and> utf8_ok r'
         | _ \<Rightarrow> False)
      else if 240 \<le> a \<and> a \<le> 244 then
        (case r of b # c # d # r' \<Rightarrow>
           is_cont b \<and> is_cont c \<and> is_cont d \<and> (a = 240 \<longrightarrow> 144 \<le> b) \<and>
           (a = 244 \<longrightarrow> b \<le> 143) \<and> utf8_ok r'
         | _ \<Rightarrow> False)
      else False)"

definition cstr_to_str :: "string \<Rightarrow> string option" where
  "cstr_to_str s = (if utf8_ok (map of_char s) then Some s else None)"

text \<open>A UTF-8 character boundary: the end of the string or a byte that is no continuation byte.\<close>

definition is_char_boundary :: "string \<Rightarrow> nat \<Rightarrow> bool" where
  "is_char_boundary s i \<longleftrightarrow>
     i = 0 \<or> i = length s \<or> (i < length s \<and> \<not> is_cont (of_char (s ! i)))"

definition is_ascii :: "string \<Rightarrow> bool" where
  "is_ascii s \<longleftrightarrow> (\<forall>c \<in> set s. (of_char c :: nat) < 128)"

lemma utf8_ok_ascii: "\<forall>a \<in> set as. a < 128 \<Longrightarrow> utf8_ok as"
  by (induction as) auto

lemma cstr_to_str_ascii: "is_ascii s \<Longrightarrow> cstr_to_str s = Some s"
  by (auto simp: is_ascii_def cstr_to_str_def intro!: utf8_ok_ascii)

lemma cstr_to_str_Some: "cstr_to_str s = Some t \<Longrightarrow> t = s"
  by (auto simp: cstr_to_str_def split: if_splits)

subsection \<open>Owned C strings\<close>

definition cstring_new :: "string \<Rightarrow> string option" where
  "cstring_new s = (if CHR 0x00 \<in> set s then None else Some s)"

lemma cstring_new_eq_Some: "cstring_new s = Some t \<longleftrightarrow> t = s \<and> CHR 0x00 \<notin> set s"
  by (auto simp: cstring_new_def)

subsection \<open>Splitting, joining and trimming\<close>

text \<open>
  \<open>s.split(pat)\<close> for a non-empty pattern: leftmost, non-overlapping matches. The first
  argument accumulates the current piece in reverse.
\<close>

function split_on :: "string \<Rightarrow> string \<Rightarrow> string \<Rightarrow> string list" where
  "split_on pat cur s =
     (if pat \<noteq> [] \<and> s \<noteq> [] \<and> take (length pat) s = pat
      then rev cur # split_on pat [] (drop (length pat) s)
      else case s of [] \<Rightarrow> [rev cur] | c # cs \<Rightarrow> split_on pat (c # cur) cs)"
  by pat_completeness auto
termination
  by (relation "measure (\<lambda>(pat, cur, s). length s)") auto

declare split_on.simps [simp del]

definition str_split :: "string \<Rightarrow> string \<Rightarrow> string list" where
  "str_split pat s = split_on pat [] s"

fun str_join :: "string \<Rightarrow> string list \<Rightarrow> string" where
  "str_join sep [] = []"
| "str_join sep [x] = x"
| "str_join sep (x # y # ys) = x @ sep @ str_join sep (y # ys)"

text \<open>
  The length of a leading white-space character (Unicode \<open>White_Space\<close>, as UTF-8 bytes);
  0 if there is none. Trimming the end uses the same table on reversed bytes.
\<close>

fun ws_len :: "nat list \<Rightarrow> nat" where
  "ws_len (a # r) =
     (if a = 32 \<or> (9 \<le> a \<and> a \<le> 13) then 1
      else case r of [] \<Rightarrow> 0
        | b # r' \<Rightarrow>
          (if a = 194 \<and> (b = 133 \<or> b = 160) then 2
           else case r' of [] \<Rightarrow> 0
             | c # _ \<Rightarrow>
               (if (a = 225 \<and> b = 154 \<and> c = 128) \<or>
                   (a = 226 \<and> b = 128 \<and> ((128 \<le> c \<and> c \<le> 138) \<or> c = 168 \<or> c = 169 \<or> c = 175)) \<or>
                   (a = 226 \<and> b = 129 \<and> c = 159) \<or> (a = 227 \<and> b = 128 \<and> c = 128)
                then 3 else 0)))"
| "ws_len [] = 0"

definition ws_len_rev :: "nat list \<Rightarrow> nat" where
  "ws_len_rev r =
     (if ws_len (rev (take 1 r)) = 1 then 1
      else if ws_len (rev (take 2 r)) = 2 then 2
      else if ws_len (rev (take 3 r)) = 3 then 3 else 0)"

function trim_with :: "(nat list \<Rightarrow> nat) \<Rightarrow> string \<Rightarrow> string" where
  "trim_with w s =
     (if s = [] \<or> w (map of_char s) = 0 then s else trim_with w (drop (w (map of_char s)) s))"
  by pat_completeness auto
termination
  by (relation "measure (\<lambda>(w, s). length s)") auto

declare trim_with.simps [simp del]

definition str_trim :: "string \<Rightarrow> string" where
  "str_trim s = rev (trim_with ws_len_rev (rev (trim_with ws_len s)))"

subsection \<open>Decimal numbers\<close>

definition is_dec :: "char \<Rightarrow> bool" where
  "is_dec c \<longleftrightarrow> 48 \<le> (of_char c :: nat) \<and> (of_char c :: nat) \<le> 57"

definition dec_val :: "char \<Rightarrow> nat" where
  "dec_val c = of_char c - 48"

text \<open>Every step is checked against the bound of the type, as \<open>checked_mul\<close>/\<open>checked_add\<close> do.\<close>

fun dec_loop :: "nat \<Rightarrow> nat \<Rightarrow> string \<Rightarrow> nat option" where
  "dec_loop bound acc [] = Some acc"
| "dec_loop bound acc (c # cs) =
     (if is_dec c \<and> acc * 10 + dec_val c < bound
      then dec_loop bound (acc * 10 + dec_val c) cs else None)"

definition parse_uint :: "nat \<Rightarrow> string \<Rightarrow> nat option" where
  "parse_uint bound s =
     (case s of [] \<Rightarrow> None
      | c # cs \<Rightarrow> (if c = CHR ''+'' then (if cs = [] then None else dec_loop bound 0 cs)
                   else dec_loop bound 0 s))"

definition parse_u128 :: "string \<Rightarrow> u128 option" where
  "parse_u128 s = map_option of_nat (parse_uint (2 ^ 128) s)"

definition parse_u32 :: "string \<Rightarrow> u32 option" where
  "parse_u32 s = map_option of_nat (parse_uint (2 ^ 32) s)"

definition dec_char :: "nat \<Rightarrow> char" where
  "dec_char d = char_of (48 + d)"

fun show_nat :: "nat \<Rightarrow> string" where
  "show_nat n = (if n < 10 then [dec_char n] else show_nat (n div 10) @ [dec_char (n mod 10)])"

declare show_nat.simps [simp del]

definition show_word :: "'a::len word \<Rightarrow> string" where
  "show_word w = show_nat (unat w)"

subsection \<open>Little-endian bytes\<close>

fun le_val :: "bytes \<Rightarrow> nat" where
  "le_val [] = 0"
| "le_val (b # bs) = unat b + 256 * le_val bs"

definition u64_to_le_bytes :: "u64 \<Rightarrow> bytes" where
  "u64_to_le_bytes w = map (\<lambda>i. ucast (drop_bit (8 * i) w)) [0..<8]"

definition u64_from_le_bytes :: "bytes \<Rightarrow> u64" where
  "u64_from_le_bytes bs = of_nat (le_val bs)"

subsection \<open>Facts about the decimal format\<close>

lemma of_char_dec_char: "d < 10 \<Longrightarrow> (of_char (dec_char d) :: nat) = 48 + d"
  by (simp add: dec_char_def)

lemma is_dec_dec_char: "d < 10 \<Longrightarrow> is_dec (dec_char d)"
  by (simp add: is_dec_def of_char_dec_char)

lemma dec_val_dec_char: "d < 10 \<Longrightarrow> dec_val (dec_char d) = d"
  by (simp add: dec_val_def of_char_dec_char)

lemma show_nat_not_Nil [simp]: "show_nat n \<noteq> []"
  by (subst show_nat.simps) simp

lemma show_nat_digits: "\<forall>c \<in> set (show_nat n). is_dec c"
proof (induction n rule: show_nat.induct)
  case (1 n)
  then show ?case by (subst show_nat.simps) (auto simp: is_dec_dec_char)
qed

lemma dec_loop_append:
  "dec_loop b acc (xs @ ys) =
     (case dec_loop b acc xs of None \<Rightarrow> None | Some a \<Rightarrow> dec_loop b a ys)"
  by (induction xs arbitrary: acc) auto

lemma dec_loop_show_nat: "n < b \<Longrightarrow> dec_loop b 0 (show_nat n) = Some n"
proof (induction n rule: show_nat.induct)
  case (1 n)
  show ?case
  proof (cases "n < 10")
    case True
    with "1.prems" show ?thesis
      by (subst show_nat.simps) (simp add: is_dec_dec_char dec_val_dec_char)
  next
    case False
    with 1 have IH: "dec_loop b 0 (show_nat (n div 10)) = Some (n div 10)" by simp
    from False "1.prems" show ?thesis
      by (subst show_nat.simps)
        (simp add: dec_loop_append IH is_dec_dec_char dec_val_dec_char div_mult_mod_eq)
  qed
qed

lemma is_dec_not_plus: "is_dec c \<Longrightarrow> c \<noteq> CHR ''+''"
  by (auto simp: is_dec_def)

lemma parse_show_nat: "n < b \<Longrightarrow> parse_uint b (show_nat n) = Some n"
proof -
  assume n: "n < b"
  obtain c cs where s: "show_nat n = c # cs" by (cases "show_nat n") auto
  have "is_dec c" using show_nat_digits [of n] s by simp
  then have "c \<noteq> CHR ''+''" by (rule is_dec_not_plus)
  with dec_loop_show_nat [OF n] s show ?thesis by (simp add: parse_uint_def)
qed

lemma parse_u128_show [simp]: "parse_u128 (show_word w) = Some w"
proof -
  have "unat w < 2 ^ 128" using unat_bound [of w] by simp
  then show ?thesis by (simp only: parse_u128_def show_word_def parse_show_nat) simp
qed

lemma dec_loop_bound: "dec_loop b acc s = Some n \<Longrightarrow> acc < b \<Longrightarrow> n < b"
  by (induction s arbitrary: acc) (auto split: if_splits)

lemma digits_plain:
  assumes "\<forall>c \<in> set s. is_dec c"
  shows "CHR 0x00 \<notin> set s" and "is_ascii s" and "CHR '','' \<notin> set s"
  using assms by (auto simp: is_dec_def is_ascii_def)

lemma cstring_new_show [simp]: "cstring_new (show_word w) = Some (show_word w)"
  using digits_plain(1) [OF show_nat_digits [of "unat w"]]
  by (simp add: cstring_new_eq_Some show_word_def)

subsection \<open>Facts about splitting\<close>

definition occurs_at :: "string \<Rightarrow> string \<Rightarrow> nat \<Rightarrow> bool" where
  "occurs_at pat s k \<longleftrightarrow> take (length pat) (drop k s) = pat"

text \<open>No match of the pattern starts inside the piece, not even one that runs into the next separator.\<close>

definition clean_piece :: "string \<Rightarrow> string \<Rightarrow> bool" where
  "clean_piece pat b \<longleftrightarrow> (\<forall>k < length b. \<not> occurs_at pat (b @ pat) k)"

lemma occurs_at_Suc: "occurs_at pat (c # s) (Suc k) = occurs_at pat s k"
  by (simp add: occurs_at_def)

lemma clean_piece_Cons:
  "clean_piece pat (c # b) \<Longrightarrow> take (length pat) (c # b @ pat) \<noteq> pat \<and> clean_piece pat b"
  by (auto simp: clean_piece_def occurs_at_def dest: spec [of _ 0] intro: Suc_less_eq [THEN iffD2])

lemma split_on_end:
  assumes "clean_piece pat b" and "pat \<noteq> []"
  shows "split_on pat cur b = [rev cur @ b]"
  using assms(1)
proof (induction b arbitrary: cur)
  case Nil
  show ?case by (subst split_on.simps) simp
next
  case (Cons c b)
  have nomatch: "take (length pat) (c # b) \<noteq> pat"
  proof
    assume t: "take (length pat) (c # b) = pat"
    then have "length pat \<le> length (c # b)" by (metis length_take min.absorb_iff2)
    then have "take (length pat) (c # b @ pat) = pat" using t by (cases pat) auto
    with Cons.prems show False using clean_piece_Cons by blast
  qed
  with Cons.prems Cons.IH [of "c # cur"] show ?case
    by (subst split_on.simps) (simp add: clean_piece_Cons)
qed

lemma split_on_piece:
  assumes "clean_piece pat b" and "pat \<noteq> []"
  shows "split_on pat cur (b @ pat @ rest) = (rev cur @ b) # split_on pat [] rest"
  using assms(1)
proof (induction b arbitrary: cur)
  case Nil
  show ?case using assms(2) by (subst split_on.simps) simp
next
  case (Cons c b)
  have "take (length pat) ((c # b @ pat) @ rest) = take (length pat) (c # b @ pat)"
    by (simp only: take_append) simp
  then have "take (length pat) (c # b @ pat @ rest) = take (length pat) (c # b @ pat)"
    by simp
  with Cons.prems Cons.IH [of "c # cur"] show ?case
    by (subst split_on.simps) (simp add: clean_piece_Cons)
qed

text \<open>Splitting what was glued together with the separator gives the pieces back.\<close>

lemma split_join:
  assumes "\<forall>b \<in> set bs. clean_piece pat b" and "pat \<noteq> []" and "bs \<noteq> []"
  shows "str_split pat (str_join pat bs) = bs"
  using assms(1,3) unfolding str_split_def
proof (induction bs rule: induct_list012)
  case (3 x y ys)
  with assms(2) show ?case by (simp add: split_on_piece)
qed (use assms(2) in \<open>auto simp: split_on_end\<close>)

lemma clean_piece_char: "clean_piece [c] b \<longleftrightarrow> c \<notin> set b"
proof -
  have "occurs_at [c] (b @ [c]) k \<longleftrightarrow> b ! k = c" if "k < length b" for k
    using that by (simp add: occurs_at_def take_Suc hd_drop_conv_nth nth_append)
  then show ?thesis by (auto simp: clean_piece_def in_set_conv_nth)
qed

lemma split_join_char:
  "\<forall>b \<in> set bs. c \<notin> set b \<Longrightarrow> bs \<noteq> [] \<Longrightarrow> str_split [c] (str_join [c] bs) = bs"
  by (simp add: split_join clean_piece_char)

lemma str_split_Nil [simp]: "str_split pat [] = [[]]"
  unfolding str_split_def by (subst split_on.simps) simp

lemma set_str_join: "set (str_join sep bs) \<subseteq> set sep \<union> \<Union> (set ` set bs)"
  by (induction sep bs rule: str_join.induct) auto

subsection \<open>Facts about trimming\<close>

definition no_ws :: "string \<Rightarrow> bool" where
  "no_ws s \<longleftrightarrow> (\<forall>c \<in> set s. 33 \<le> (of_char c :: nat) \<and> (of_char c :: nat) < 128)"

lemma ws_len_plain:
  assumes "33 \<le> a" and "a < 128"
  shows "ws_len (a # r) = 0"
proof -
  have no: "a \<noteq> 32" "\<not> (9 \<le> a \<and> a \<le> 13)" "a \<noteq> 194" "a \<noteq> 225" "a \<noteq> 226" "a \<noteq> 227"
    using assms by simp_all
  show ?thesis
  proof (cases r)
    case Nil
    then show ?thesis by (simp only: ws_len.simps no list.case simp_thms if_False)
  next
    case (Cons b r')
    then show ?thesis
      by (cases r') (simp_all only: ws_len.simps no list.case simp_thms if_False)
  qed
qed

declare ws_len.simps(1) [simp del]

lemma ws_len_rev_plain:
  assumes "\<forall>a \<in> set r. 33 \<le> a \<and> a < 128"
  shows "ws_len_rev r = 0"
proof -
  have "ws_len (rev (take k r)) = 0" for k
  proof (cases "rev (take k r)")
    case (Cons a as)
    then have "a \<in> set (take k r)" by (metis list.set_intros(1) set_rev)
    then have "a \<in> set r" by (rule in_set_takeD)
    with assms have "33 \<le> a" and "a < 128" by auto
    then show ?thesis unfolding Cons by (rule ws_len_plain)
  next
    case Nil
    then show ?thesis by (simp only: ws_len.simps)
  qed
  then show ?thesis by (simp add: ws_len_rev_def)
qed

lemma str_trim_plain:
  assumes "no_ws s"
  shows "str_trim s = s"
proof -
  have l: "trim_with ws_len s = s"
  proof (cases s)
    case (Cons c cs)
    with assms have "ws_len (map of_char s) = 0" by (simp add: no_ws_def ws_len_plain)
    then show ?thesis by (subst trim_with.simps) simp
  qed (simp add: trim_with.simps)
  have "ws_len_rev (map of_char (rev s)) = 0"
    using assms by (intro ws_len_rev_plain) (auto simp: no_ws_def)
  then have "trim_with ws_len_rev (rev s) = rev s" by (subst trim_with.simps) simp
  with l show ?thesis by (simp add: str_trim_def)
qed

subsection \<open>Facts about byte order\<close>

lemma le_val_bound: "le_val bs < 256 ^ length bs"
proof (induction bs)
  case (Cons b bs)
  have b: "unat b < 256" using unat_bound [of b] by simp
  from Cons have "le_val bs + 1 \<le> 256 ^ length bs" by simp
  then have "256 * (le_val bs + 1) \<le> 256 * 256 ^ length bs" by (rule mult_le_mono2)
  with b show ?case by simp
qed simp

lemma length_u64_to_le_bytes [simp]: "length (u64_to_le_bytes w) = 8"
  by (simp add: u64_to_le_bytes_def)

lemma le_val_append: "le_val (xs @ ys) = le_val xs + 256 ^ length xs * le_val ys"
  by (induction xs) (simp_all add: algebra_simps)

lemma le_val_u64_upto:
  "le_val (map (\<lambda>i. ucast (drop_bit (8 * i) (w::u64)) :: u8) [0..<n]) = unat w mod 256 ^ n"
proof (induction n)
  case (Suc n)
  have "unat (ucast (drop_bit (8 * n) w) :: u8) = unat w div 256 ^ n mod 256"
  proof -
    have "unat (ucast (drop_bit (8 * n) w) :: u8) = take_bit 8 (unat (drop_bit (8 * n) w))"
      by (simp add: unsigned_ucast_eq)
    also have "\<dots> = take_bit 8 (drop_bit (8 * n) (unat w))"
      by (simp add: unsigned_drop_bit_eq take_bit_nat_eq_self [OF unat_bound [of w], simplified])
    also have "\<dots> = unat w div 256 ^ n mod 256"
      by (simp add: take_bit_eq_mod drop_bit_eq_div power_mult)
    finally show ?thesis .
  qed
  with Suc show ?case
    by (simp add: le_val_append mod_mult2_eq power_Suc2 del: power_Suc)
qed simp

lemma u64_le_bytes_roundtrip [simp]: "u64_from_le_bytes (u64_to_le_bytes w) = w"
proof -
  have "unat w < 2 ^ 64" using unat_bound [of w] by simp
  then have "le_val (u64_to_le_bytes w) = unat w"
    unfolding u64_to_le_bytes_def le_val_u64_upto by simp
  then show ?thesis by (simp add: u64_from_le_bytes_def)
qed

end
