(* ===== verification/LedgerTypes.thy ===== *)
theory LedgerTypes
  imports RustStd
begin

text \<open>
  What the components share of the outside world: the \<open>hex\<close> crate (a parameter with its
  documented laws, and a reference codec that keeps them), and the ledger structures the
  source itself builds field by field (\<open>Intent\<close>, \<open>UnshieldedOffer\<close>, \<open>UtxoSpend\<close>,
  \<open>UtxoOutput\<close>, \<open>DustActions\<close>, \<open>DustRegistration\<close>). Everything the source only
  passes around (keys, signatures, proofs, transactions) is a type parameter.
\<close>

subsection \<open>The hex crate\<close>

record hexlib =
  hx_enc :: "bytes \<Rightarrow> string"
  hx_dec :: "string \<Rightarrow> bytes option"

definition hex_digits :: string where
  "hex_digits = ''0123456789abcdef''"

text \<open>
  Documented behaviour: encoding is lowercase, two digits a byte; decoding accepts digits of
  either case, an even number of them, and undoes encoding.
\<close>

definition hex_ok :: "hexlib \<Rightarrow> bool" where
  "hex_ok hx \<longleftrightarrow>
     (\<forall>b. hx_dec hx (hx_enc hx b) = Some b) \<and>
     (\<forall>b. set (hx_enc hx b) \<subseteq> set hex_digits) \<and>
     (\<forall>b. length (hx_enc hx b) = 2 * length b) \<and>
     (\<forall>s b. hx_dec hx s = Some b \<longrightarrow> length s = 2 * length b \<and> is_ascii s)"

lemma hex_dec_enc: "hex_ok hx \<Longrightarrow> hx_dec hx (hx_enc hx b) = Some b"
  and hex_enc_set: "hex_ok hx \<Longrightarrow> set (hx_enc hx b) \<subseteq> set hex_digits"
  and hex_enc_length: "hex_ok hx \<Longrightarrow> length (hx_enc hx b) = 2 * length b"
  and hex_dec_length: "hex_ok hx \<Longrightarrow> hx_dec hx s = Some b \<Longrightarrow> length s = 2 * length b"
  by (auto simp: hex_ok_def)

lemma hex_enc_inj: "hex_ok hx \<Longrightarrow> hx_enc hx a = hx_enc hx b \<longleftrightarrow> a = b"
  by (metis hex_dec_enc option.inject)

lemma hex_digit_range: "c \<in> set hex_digits \<Longrightarrow> 33 \<le> (of_char c :: nat) \<and> (of_char c :: nat) < 128"
  by (auto simp: hex_digits_def)

lemma hex_digits_exclude:
  "CHR 0x00 \<notin> set hex_digits" "CHR '','' \<notin> set hex_digits" "CHR '';'' \<notin> set hex_digits"
  "CHR 0x22 \<notin> set hex_digits"
  by (simp_all add: hex_digits_def)

lemma hex_enc_plain:
  assumes "hex_ok hx"
  shows "CHR 0x00 \<notin> set (hx_enc hx b)" and "CHR '','' \<notin> set (hx_enc hx b)"
    and "CHR '';'' \<notin> set (hx_enc hx b)" and "no_ws (hx_enc hx b)" and "is_ascii (hx_enc hx b)"
  using hex_enc_set [OF assms, of b] hex_digits_exclude hex_digit_range
  by (auto simp: no_ws_def is_ascii_def)

lemma hex_enc_cstring: "hex_ok hx \<Longrightarrow> cstring_new (hx_enc hx b) = Some (hx_enc hx b)"
  by (simp add: cstring_new_eq_Some hex_enc_plain)

subsection \<open>A reference codec\<close>

definition hex_char :: "nat \<Rightarrow> char" where
  "hex_char n = hex_digits ! n"

definition hex_val :: "char \<Rightarrow> nat option" where
  "hex_val c =
     (let n = of_char c :: nat in
      if 48 \<le> n \<and> n \<le> 57 then Some (n - 48)
      else if 97 \<le> n \<and> n \<le> 102 then Some (n - 87)
      else if 65 \<le> n \<and> n \<le> 70 then Some (n - 55) else None)"

fun ref_enc :: "bytes \<Rightarrow> string" where
  "ref_enc [] = []"
| "ref_enc (b # bs) = hex_char (unat b div 16) # hex_char (unat b mod 16) # ref_enc bs"

fun ref_dec :: "string \<Rightarrow> bytes option" where
  "ref_dec [] = Some []"
| "ref_dec [c] = None"
| "ref_dec (c # d # s) =
     (case (hex_val c, hex_val d, ref_dec s) of
        (Some h, Some l, Some bs) \<Rightarrow> Some (of_nat (16 * h + l) # bs)
      | _ \<Rightarrow> None)"

definition ref_hex :: hexlib where
  "ref_hex = \<lparr>hx_enc = ref_enc, hx_dec = ref_dec\<rparr>"

lemma less_16_cases: "n < 16 \<Longrightarrow> n \<in> set [0..<16]"
  by simp

lemma hex_val_char: "n < 16 \<Longrightarrow> hex_val (hex_char n) = Some n"
  by (drule less_16_cases)
    (auto simp: upt_rec hex_val_def hex_char_def hex_digits_def Let_def)

lemma hex_char_in: "n < 16 \<Longrightarrow> hex_char n \<in> set hex_digits"
  unfolding hex_char_def by (rule nth_mem) (simp add: hex_digits_def)

lemma unat_u8: "unat (b::u8) < 256"
  using unat_bound [of b] by simp

lemma ref_dec_enc: "ref_dec (ref_enc bs) = Some bs"
proof (induction bs)
  case (Cons b bs)
  have "unat b div 16 < 16" "unat b mod 16 < 16" using unat_u8 [of b] by auto
  moreover have "16 * (unat b div 16) + unat b mod 16 = unat b" by simp
  ultimately show ?case using Cons by (simp add: hex_val_char del: of_nat_add of_nat_mult)
qed simp

lemma ref_enc_set: "set (ref_enc bs) \<subseteq> set hex_digits"
proof (induction bs)
  case (Cons b bs)
  have "unat b div 16 < 16" "unat b mod 16 < 16" using unat_u8 [of b] by auto
  with Cons show ?case by (simp add: hex_char_in)
qed simp

lemma length_ref_enc: "length (ref_enc bs) = 2 * length bs"
  by (induction bs) simp_all

lemma hex_val_ascii: "hex_val c = Some n \<Longrightarrow> (of_char c :: nat) < 128"
  by (auto simp: hex_val_def Let_def split: if_splits)

lemma ref_dec_length: "ref_dec s = Some b \<Longrightarrow> length s = 2 * length b \<and> is_ascii s"
  by (induction s arbitrary: b rule: ref_dec.induct)
    (auto simp: is_ascii_def split: option.splits dest: hex_val_ascii)

lemma ref_hex_ok: "hex_ok ref_hex"
  by (simp add: hex_ok_def ref_hex_def ref_dec_enc ref_enc_set length_ref_enc ref_dec_length)

subsection \<open>Ledger structures built by the source\<close>

record ('owner, 'tok, 'hash) utxo_spend =
  us_value :: u128
  us_owner :: 'owner
  us_type :: 'tok
  us_intent_hash :: 'hash
  us_output_no :: u32

record ('addr, 'tok) utxo_output =
  uo_value :: u128
  uo_owner :: 'addr
  uo_type :: 'tok

record ('inp, 'out, 'sig) unshielded_offer =
  uf_inputs :: "'inp list"
  uf_outputs :: "'out list"
  uf_signatures :: "'sig list"

record ('spend, 'reg) dust_actions =
  da_spends :: "'spend list"
  da_registrations :: "'reg list"
  da_ctime :: u64

record ('vk, 'dpk, 'sig) dust_registration =
  dr_night_key :: 'vk
  dr_dust_address :: "'dpk option"
  dr_allow_fee_payment :: u128
  dr_signature :: "'sig option"

record ('offer, 'action, 'dust, 'bind) intent =
  in_guaranteed_offer :: "'offer option"
  in_fallible_offer :: "'offer option"
  in_actions :: "'action list"
  in_dust_actions :: "'dust option"
  in_ttl :: u64
  in_binding :: 'bind

end
