(* ===== verification/DustSelect.thy ===== *)
theory DustSelect
  imports LedgerTypes
begin

text \<open>
  Choosing the dust UTXO that pays a fee. Two loops of the crate do it:
  \<open>select_dust_spends\<close> in \<open>balance_ffi.rs\<close> and the loop inside
  \<open>serialize_unshielded_transaction_with_dust\<close> in \<open>serialize.rs\<close>. The ledger's dust
  wallet (\<open>DustLocalState\<close>) is a parameter; the loops are translated, and the contract they
  share (first UTXO that is accepted pays everything) is a locale interpreted on both.
\<close>

subsection \<open>The dust wallet the ledger provides\<close>

record ('st, 'sk, 'utxo, 'spend, 'nul) dust_lib =
  dl_utxos :: "'st \<Rightarrow> 'utxo list"
  dl_spend :: "'st \<Rightarrow> 'sk \<Rightarrow> 'utxo \<Rightarrow> u128 \<Rightarrow> u64 \<Rightarrow> ('st \<times> 'spend) option"
  dl_old_nullifier :: "'spend \<Rightarrow> 'nul"
  dl_ser_nullifier :: "'nul \<Rightarrow> bytes option"
  dl_nullifier :: "'utxo \<Rightarrow> 'sk \<Rightarrow> 'nul"
  dl_derive :: "bytes \<Rightarrow> 'sk"

datatype bal_error =
    ProvenHex | ProvenDeser | ParamsHex | ParamsDeser | FeeCalc | SealedSer
  | NegativeTime | NullifierSer | InsufficientDust u128 nat | DraftFee
  | RuntimeBuild | Proving | Merging | BalancedSer

definition nullifier_to_hex ::
    "hexlib \<Rightarrow> ('st, 'sk, 'utxo, 'spend, 'nul) dust_lib \<Rightarrow> 'nul \<Rightarrow> bal_error + string" where
  "nullifier_to_hex hx dl nullifier =
     bindE (ok_or NullifierSer (dl_ser_nullifier dl nullifier)) (\<lambda>bytes. Inr (hx_enc hx bytes))"

definition current_nullifiers ::
    "hexlib \<Rightarrow> ('st, 'sk, 'utxo, 'spend, 'nul) dust_lib \<Rightarrow> 'st \<Rightarrow> 'sk \<Rightarrow> bal_error + string list" where
  "current_nullifiers hx dl state sk =
     mapE (\<lambda>utxo. nullifier_to_hex hx dl (dl_nullifier dl utxo sk)) (dl_utxos dl state)"

subsection \<open>The loop of the balancer\<close>

record ('st, 'spend) selection =
  sl_state :: 'st
  sl_spends :: "'spend list"
  sl_nullifiers :: "string list"
  sl_remaining :: u128

fun select_loop ::
    "hexlib \<Rightarrow> ('st, 'sk, 'utxo, 'spend, 'nul) dust_lib \<Rightarrow> 'sk \<Rightarrow> u64 \<Rightarrow> string set \<Rightarrow>
     'utxo list \<Rightarrow> ('st, 'spend) selection \<Rightarrow> bal_error + ('st, 'spend) selection" where
  "select_loop hx dl sk ts excl [] s = Inr s"
| "select_loop hx dl sk ts excl (utxo # utxos) s =
     (if sl_remaining s = 0 then Inr s
      else case dl_spend dl (sl_state s) sk utxo (sl_remaining s) ts of
        Some (new_state, spend) \<Rightarrow>
          (case nullifier_to_hex hx dl (dl_old_nullifier dl spend) of
             Inl e \<Rightarrow> Inl e
           | Inr nullifier_hex \<Rightarrow>
               if nullifier_hex \<in> excl then select_loop hx dl sk ts excl utxos s
               else select_loop hx dl sk ts excl utxos
                 \<lparr>sl_state = new_state, sl_spends = sl_spends s @ [spend],
                  sl_nullifiers = sl_nullifiers s @ [nullifier_hex], sl_remaining = 0\<rparr>)
      | None \<Rightarrow> select_loop hx dl sk ts excl utxos s)"

definition select_start :: "'st \<Rightarrow> u128 \<Rightarrow> ('st, 'spend) selection" where
  "select_start st fee = \<lparr>sl_state = st, sl_spends = [], sl_nullifiers = [], sl_remaining = fee\<rparr>"

definition select_dust_spends ::
    "hexlib \<Rightarrow> ('st, 'sk, 'utxo, 'spend, 'nul) dust_lib \<Rightarrow> 'st \<Rightarrow> 'sk \<Rightarrow> u128 \<Rightarrow> u64 \<Rightarrow> string set \<Rightarrow>
     bal_error + ('st \<times> 'spend list \<times> string list)" where
  "select_dust_spends hx dl dust_state sk total_fee ts excl =
     bindE (select_loop hx dl sk ts excl (dl_utxos dl dust_state) (select_start dust_state total_fee))
       (\<lambda>s. if sl_remaining s > 0 then Inl (InsufficientDust total_fee (card excl))
            else Inr (sl_state s, sl_spends s, sl_nullifiers s))"

subsection \<open>The loop of the unshielded serialiser\<close>

fun fee_loop ::
    "('st, 'sk, 'utxo, 'spend, 'nul) dust_lib \<Rightarrow> 'sk \<Rightarrow> u64 \<Rightarrow> 'utxo list \<Rightarrow>
     'st \<times> 'spend list \<times> u128 \<Rightarrow> 'st \<times> 'spend list \<times> u128" where
  "fee_loop dl sk ts [] s = s"
| "fee_loop dl sk ts (utxo # utxos) (current, spends, remaining) =
     (if remaining = 0 then (current, spends, remaining)
      else case dl_spend dl current sk utxo remaining ts of
        Some (new_state, spend) \<Rightarrow> fee_loop dl sk ts utxos (new_state, spends @ [spend], 0)
      | None \<Rightarrow> fee_loop dl sk ts utxos (current, spends, remaining))"

subsection \<open>The contract: the first accepted UTXO pays\<close>

text \<open>
  \<open>attempt u\<close> is what one UTXO does to the loop: skipped (\<open>None\<close>), aborting it with an
  error, or accepted with a result; \<open>run\<close> is the loop.
\<close>

locale first_fit =
  fixes attempt :: "'utxo \<Rightarrow> ('e + 'r) option"
    and run :: "'utxo list \<Rightarrow> 'e + 'r option"
  assumes run_Nil: "run [] = Inr None"
    and run_skip: "attempt u = None \<Longrightarrow> run (u # us) = run us"
    and run_abort: "attempt u = Some (Inl e) \<Longrightarrow> run (u # us) = Inl e"
    and run_accept: "attempt u = Some (Inr r) \<Longrightarrow> run (u # us) = Inr (Some r)"
begin

lemma run_skips: "\<forall>x \<in> set pre. attempt x = None \<Longrightarrow> run (pre @ us) = run us"
  by (induction pre) (simp_all add: run_skip)

lemma run_none_iff: "run us = Inr None \<longleftrightarrow> (\<forall>u \<in> set us. attempt u = None)"
proof (induction us)
  case (Cons u us)
  show ?case
  proof (cases "attempt u")
    case (Some x)
    then show ?thesis by (cases x) (simp_all add: run_abort run_accept)
  qed (simp add: run_skip Cons.IH)
qed (simp add: run_Nil)

lemma run_first:
  "run us = v \<Longrightarrow> v \<noteq> Inr None \<Longrightarrow>
   \<exists>pre u post x. us = pre @ u # post \<and> (\<forall>y \<in> set pre. attempt y = None) \<and> attempt u = Some x \<and>
     v = (case x of Inl e \<Rightarrow> Inl e | Inr r \<Rightarrow> Inr (Some r))"
proof (induction us)
  case (Cons u us)
  show ?case
  proof (cases "attempt u")
    case None
    with Cons obtain pre w post x where "us = pre @ w # post" "\<forall>y \<in> set pre. attempt y = None"
      "attempt w = Some x" "v = (case x of Inl e \<Rightarrow> Inl e | Inr r \<Rightarrow> Inr (Some r))"
      by (auto simp: run_skip)
    with None show ?thesis by (intro exI [of _ "u # pre"] exI [of _ w] exI [of _ post] exI [of _ x]) auto
  next
    case (Some x)
    with Cons.prems have "v = (case x of Inl e \<Rightarrow> Inl e | Inr r \<Rightarrow> Inr (Some r))"
      by (cases x) (auto simp: run_abort run_accept)
    with Some show ?thesis by (intro exI [of _ "[]"] exI [of _ u] exI [of _ us] exI [of _ x]) auto
  qed
qed (simp add: run_Nil)

lemma run_some_iff:
  "run us = Inr (Some r) \<longleftrightarrow>
   (\<exists>pre u post. us = pre @ u # post \<and> (\<forall>y \<in> set pre. attempt y = None) \<and> attempt u = Some (Inr r))"
proof
  assume "run us = Inr (Some r)"
  then obtain pre u post x where "us = pre @ u # post" "\<forall>y \<in> set pre. attempt y = None"
    "attempt u = Some x" "Inr (Some r) = (case x of Inl e \<Rightarrow> Inl e | Inr r \<Rightarrow> Inr (Some r))"
    using run_first [of us "Inr (Some r)"] by blast
  then show "\<exists>pre u post. us = pre @ u # post \<and> (\<forall>y \<in> set pre. attempt y = None) \<and> attempt u = Some (Inr r)"
    by (cases x) auto
qed (auto simp: run_skips run_accept)

lemma run_error_iff:
  "run us = Inl e \<longleftrightarrow>
   (\<exists>pre u post. us = pre @ u # post \<and> (\<forall>y \<in> set pre. attempt y = None) \<and> attempt u = Some (Inl e))"
proof
  assume "run us = Inl e"
  then obtain pre u post x where "us = pre @ u # post" "\<forall>y \<in> set pre. attempt y = None"
    "attempt u = Some x" "Inl e = (case x of Inl e \<Rightarrow> Inl e | Inr r \<Rightarrow> Inr (Some r))"
    using run_first [of us "Inl e"] by blast
  then show "\<exists>pre u post. us = pre @ u # post \<and> (\<forall>y \<in> set pre. attempt y = None) \<and> attempt u = Some (Inl e)"
    by (cases x) auto
qed (auto simp: run_skips run_abort)

end

subsection \<open>The balancer's loop keeps the contract\<close>

definition select_attempt ::
    "hexlib \<Rightarrow> ('st, 'sk, 'utxo, 'spend, 'nul) dust_lib \<Rightarrow> 'sk \<Rightarrow> u64 \<Rightarrow> string set \<Rightarrow> 'st \<Rightarrow> u128 \<Rightarrow>
     'utxo \<Rightarrow> (bal_error + ('st \<times> 'spend \<times> string)) option" where
  "select_attempt hx dl sk ts excl st fee u =
     (if fee = 0 then None
      else case dl_spend dl st sk u fee ts of
        None \<Rightarrow> None
      | Some (st', sp) \<Rightarrow>
          (case nullifier_to_hex hx dl (dl_old_nullifier dl sp) of
             Inl e \<Rightarrow> Some (Inl e)
           | Inr n \<Rightarrow> if n \<in> excl then None else Some (Inr (st', sp, n))))"

definition select_run ::
    "hexlib \<Rightarrow> ('st, 'sk, 'utxo, 'spend, 'nul) dust_lib \<Rightarrow> 'sk \<Rightarrow> u64 \<Rightarrow> string set \<Rightarrow> 'st \<Rightarrow> u128 \<Rightarrow>
     'utxo list \<Rightarrow> bal_error + ('st \<times> 'spend \<times> string) option" where
  "select_run hx dl sk ts excl st fee us =
     bindE (select_loop hx dl sk ts excl us (select_start st fee))
       (\<lambda>s. Inr (case (sl_spends s, sl_nullifiers s) of
                    (sp # _, n # _) \<Rightarrow> Some (sl_state s, sp, n) | _ \<Rightarrow> None))"

lemma select_loop_done: "sl_remaining s = 0 \<Longrightarrow> select_loop hx dl sk ts excl us s = Inr s"
  by (cases us) simp_all

interpretation balance_pick:
  first_fit "select_attempt hx dl sk ts excl st fee" "select_run hx dl sk ts excl st fee"
  for hx dl sk ts excl st fee
proof
  show "select_run hx dl sk ts excl st fee [] = Inr None"
    by (simp add: select_run_def select_start_def)
  show "select_run hx dl sk ts excl st fee (u # us) = select_run hx dl sk ts excl st fee us"
    if "select_attempt hx dl sk ts excl st fee u = None" for u us
    using that
    by (auto simp: select_run_def select_start_def select_attempt_def select_loop_done
        split: option.splits sum.splits if_splits prod.splits)
  show "select_run hx dl sk ts excl st fee (u # us) = Inl e"
    if "select_attempt hx dl sk ts excl st fee u = Some (Inl e)" for u us e
    using that
    by (auto simp: select_run_def select_start_def select_attempt_def
        split: option.splits sum.splits if_splits prod.splits)
  show "select_run hx dl sk ts excl st fee (u # us) = Inr (Some r)"
    if "select_attempt hx dl sk ts excl st fee u = Some (Inr r)" for u us r
    using that
    by (auto simp: select_run_def select_start_def select_attempt_def select_loop_done
        split: option.splits sum.splits if_splits prod.splits)
qed

text \<open>The loop's final state is one of two shapes; \<open>select_dust_spends\<close> through \<open>select_run\<close>.\<close>

lemma select_loop_shape:
  "select_loop hx dl sk ts excl us (select_start st fee) = Inr s \<Longrightarrow>
   s = select_start st fee \<or>
   (\<exists>st' sp n. s = \<lparr>sl_state = st', sl_spends = [sp], sl_nullifiers = [n], sl_remaining = 0\<rparr>)"
proof (induction us)
  case (Cons u us)
  then show ?case
    by (auto simp: select_start_def select_loop_done
        split: option.splits sum.splits if_splits prod.splits)
qed simp

lemma select_dust_spends_run:
  assumes "fee \<noteq> 0"
  shows "select_dust_spends hx dl st sk fee ts excl =
    bindE (select_run hx dl sk ts excl st fee (dl_utxos dl st))
      (\<lambda>r. case r of None \<Rightarrow> Inl (InsufficientDust fee (card excl))
             | Some (st', sp, n) \<Rightarrow> Inr (st', [sp], [n]))"
proof (cases "select_loop hx dl sk ts excl (dl_utxos dl st) (select_start st fee)")
  case (Inr s)
  from select_loop_shape [OF Inr] show ?thesis
  proof
    assume "s = select_start st fee"
    with Inr assms show ?thesis
      by (simp add: select_dust_spends_def select_run_def select_start_def word_gt_0)
  next
    assume "\<exists>st' sp n. s = \<lparr>sl_state = st', sl_spends = [sp], sl_nullifiers = [n], sl_remaining = 0\<rparr>"
    with Inr show ?thesis by (auto simp: select_dust_spends_def select_run_def)
  qed
qed (simp add: select_dust_spends_def select_run_def)

subsection \<open>The serialiser's loop keeps the contract\<close>

definition fee_attempt ::
    "('st, 'sk, 'utxo, 'spend, 'nul) dust_lib \<Rightarrow> 'sk \<Rightarrow> u64 \<Rightarrow> 'st \<Rightarrow> u128 \<Rightarrow> 'utxo \<Rightarrow>
     (unit + ('st \<times> 'spend)) option" where
  "fee_attempt dl sk ts st fee u =
     (if fee = 0 then None
      else case dl_spend dl st sk u fee ts of None \<Rightarrow> None | Some r \<Rightarrow> Some (Inr r))"

definition fee_run ::
    "('st, 'sk, 'utxo, 'spend, 'nul) dust_lib \<Rightarrow> 'sk \<Rightarrow> u64 \<Rightarrow> 'st \<Rightarrow> u128 \<Rightarrow> 'utxo list \<Rightarrow>
     unit + ('st \<times> 'spend) option" where
  "fee_run dl sk ts st fee us =
     (case fee_loop dl sk ts us (st, [], fee) of
        (st', sp # _, _) \<Rightarrow> Inr (Some (st', sp)) | _ \<Rightarrow> Inr None)"

lemma fee_loop_done: "fee_loop dl sk ts us (st, sps, 0) = (st, sps, 0)"
  by (cases us) simp_all

interpretation serialize_pick: first_fit "fee_attempt dl sk ts st fee" "fee_run dl sk ts st fee"
  for dl sk ts st fee
  by unfold_locales
    (auto simp: fee_run_def fee_attempt_def fee_loop_done split: option.splits if_splits prod.splits)

lemma fee_loop_shape:
  "fee_loop dl sk ts us (st, [], fee) = (st', sps, rem) \<Longrightarrow>
   (st' = st \<and> sps = [] \<and> rem = fee) \<or> (\<exists>sp. sps = [sp] \<and> rem = 0)"
proof (induction us)
  case (Cons u us)
  then show ?case by (auto simp: fee_loop_done split: option.splits if_splits)
qed simp

end
