(* ===== verification/TagPrefix.thy ===== *)
theory TagPrefix
  imports RustStd
begin

text \<open>
  The three copies of \<open>strip_tag_prefix\<close> (\<open>fee_ffi.rs\<close>, \<open>balance_ffi.rs\<close>,
  \<open>serialize.rs\<close>), each translated from its own source, the contract they share (a locale)
  and the proof that each copy keeps it. The contract is stated over \<open>tag_payload\<close>, a
  list recursion that knows nothing of indices.
\<close>

definition rparen :: u8 where "rparen = 41"
definition rbrack :: u8 where "rbrack = 93"
definition colon :: u8 where "colon = 58"
definition tag_magic :: bytes where "tag_magic = ascii ''midnight:''"

subsection \<open>The copy in \<open>fee_ffi.rs\<close>\<close>

text \<open>The \<open>for\<close> loop runs over the indices \<open>9..len-1\<close> and returns at the first hit.\<close>

fun fee_tag_scan :: "bytes \<Rightarrow> nat list \<Rightarrow> bytes option" where
  "fee_tag_scan bs [] = None"
| "fee_tag_scan bs (i # is) =
     (if bs ! i = rparen \<and> bs ! (i + 1) = colon then Some (drop (i + 2) bs)
      else if bs ! i = rbrack \<and> bs ! (i + 1) = colon then Some (drop (i + 2) bs)
      else fee_tag_scan bs is)"

definition fee_strip_tag_prefix :: "bytes \<Rightarrow> bytes" where
  "fee_strip_tag_prefix bs =
     (if length bs < 9 then bs
      else if take 9 bs = tag_magic then
        (case fee_tag_scan bs [9..<length bs - 1] of Some out \<Rightarrow> out | None \<Rightarrow> bs)
      else bs)"

subsection \<open>The copy in \<open>balance_ffi.rs\<close>\<close>

fun balance_tag_scan :: "bytes \<Rightarrow> nat list \<Rightarrow> bytes option" where
  "balance_tag_scan bs [] = None"
| "balance_tag_scan bs (i # is) =
     (if bs ! i = rparen \<and> bs ! (i + 1) = colon then Some (drop (i + 2) bs)
      else if bs ! i = rbrack \<and> bs ! (i + 1) = colon then Some (drop (i + 2) bs)
      else balance_tag_scan bs is)"

definition balance_strip_tag_prefix :: "bytes \<Rightarrow> bytes" where
  "balance_strip_tag_prefix bs =
     (if length bs < 9 then bs
      else
        (case (if take 9 bs = tag_magic then balance_tag_scan bs [9..<length bs - 1] else None) of
           Some out \<Rightarrow> out
         | None \<Rightarrow> bs))"

subsection \<open>The copy in \<open>serialize.rs\<close>\<close>

fun serialize_tag_scan :: "bytes \<Rightarrow> nat list \<Rightarrow> bytes option" where
  "serialize_tag_scan bs [] = None"
| "serialize_tag_scan bs (i # is) =
     (if (bs ! i = rparen \<or> bs ! i = rbrack) \<and> bs ! (i + 1) = colon then Some (drop (i + 2) bs)
      else serialize_tag_scan bs is)"

definition serialize_strip_tag_prefix :: "bytes \<Rightarrow> bytes" where
  "serialize_strip_tag_prefix bs =
     (if length bs < 9 \<or> take 9 bs \<noteq> tag_magic then bs
      else (case serialize_tag_scan bs [9..<length bs - 1] of Some out \<Rightarrow> out | None \<Rightarrow> bs))"

subsection \<open>The contract\<close>

text \<open>What follows the first \<open>):\<close> or \<open>]:\<close>, if there is one.\<close>

fun tag_payload :: "bytes \<Rightarrow> bytes option" where
  "tag_payload (a # b # r) =
     (if (a = rparen \<or> a = rbrack) \<and> b = colon then Some r else tag_payload (b # r))"
| "tag_payload _ = None"

definition tagged :: "bytes \<Rightarrow> bool" where
  "tagged bs \<longleftrightarrow> take 9 bs = tag_magic"

lemma length_tag_magic [simp]: "length tag_magic = 9"
  by (simp add: tag_magic_def)

lemma tagged_length: "tagged bs \<Longrightarrow> 9 \<le> length bs"
proof -
  assume "tagged bs"
  then have "length (take 9 bs) = 9" by (simp add: tagged_def)
  then show ?thesis by simp
qed

lemma tagged_append [simp]: "tagged (tag_magic @ r)"
  by (simp add: tagged_def)

lemma tag_payload_suffix: "tag_payload bs = Some r \<Longrightarrow> \<exists>k. r = drop k bs \<and> 2 \<le> k \<and> k \<le> length bs"
proof (induction bs rule: tag_payload.induct)
  case (1 a b r')
  show ?case
  proof (cases "(a = rparen \<or> a = rbrack) \<and> b = colon")
    case True
    with "1.prems" show ?thesis by (intro exI [of _ 2]) auto
  next
    case False
    with 1 obtain k where "r = drop k (b # r')" "2 \<le> k" "k \<le> length (b # r')"
      by (auto split: if_splits)
    then show ?thesis by (intro exI [of _ "Suc k"]) auto
  qed
qed auto

text \<open>A tag text with no terminator inside, closed by a terminator, is skipped exactly.\<close>

lemma tag_payload_skip:
  assumes "colon \<notin> set tag" and "t = rparen \<or> t = rbrack"
  shows "tag_payload (tag @ [t, colon] @ r) = Some r"
  using assms(1)
proof (induction tag)
  case Nil
  with assms(2) show ?case by simp
next
  case (Cons a tag)
  then have IH: "tag_payload (tag @ [t, colon] @ r) = Some r" by simp
  obtain b l where bl: "tag @ [t, colon] @ r = b # l" "b \<noteq> colon"
    using Cons.prems assms(2) by (cases tag) (auto simp: rparen_def rbrack_def colon_def)
  then show ?case using IH by simp
qed

lemma tag_payload_no_colon: "colon \<notin> set bs \<Longrightarrow> tag_payload bs = None"
  by (induction bs rule: tag_payload.induct) auto

locale tag_stripper =
  fixes strip :: "bytes \<Rightarrow> bytes"
  assumes strip_plain: "\<not> tagged bs \<Longrightarrow> strip bs = bs"
    and strip_tagged: "tagged bs \<Longrightarrow>
      strip bs = (case tag_payload (drop 9 bs) of Some r \<Rightarrow> r | None \<Rightarrow> bs)"
begin

text \<open>Stripping only ever removes a prefix.\<close>

lemma strip_suffix: "\<exists>k \<le> length bs. strip bs = drop k bs"
proof (cases "tagged bs")
  case False
  then show ?thesis by (intro exI [of _ 0]) (simp add: strip_plain)
next
  case True
  show ?thesis
  proof (cases "tag_payload (drop 9 bs)")
    case None
    with True show ?thesis by (intro exI [of _ 0]) (simp add: strip_tagged)
  next
    case (Some r)
    then obtain k where k: "r = drop k (drop 9 bs)" "k \<le> length (drop 9 bs)"
      using tag_payload_suffix by blast
    with Some True tagged_length [OF True] show ?thesis
      by (intro exI [of _ "k + 9"]) (simp add: strip_tagged)
  qed
qed

lemma strip_length: "length (strip bs) \<le> length bs"
  using strip_suffix [of bs] by auto

lemma strip_exact:
  "colon \<notin> set tag \<Longrightarrow> t = rparen \<or> t = rbrack \<Longrightarrow> strip (tag_magic @ tag @ [t, colon] @ r) = r"
  using tag_payload_skip [of tag t r] by (simp add: strip_tagged)

lemma strip_unterminated: "tagged bs \<Longrightarrow> colon \<notin> set (drop 9 bs) \<Longrightarrow> strip bs = bs"
  by (simp add: strip_tagged tag_payload_no_colon)

text \<open>The contract leaves no freedom: two strippers agree everywhere.\<close>

lemma strip_unique:
  assumes "tag_stripper strip'"
  shows "strip bs = strip' bs"
proof -
  have "strip' bs = (if tagged bs then (case tag_payload (drop 9 bs) of Some r \<Rightarrow> r | None \<Rightarrow> bs) else bs)"
    using assms by (simp add: tag_stripper_def)
  then show ?thesis by (simp add: strip_plain strip_tagged)
qed

end

subsection \<open>The copies keep the contract\<close>

lemma upt_scan_step: "i < n \<Longrightarrow> [i..<n] = i # [Suc i..<n]"
  by (rule upt_conv_Cons)

lemma serialize_scan_payload:
  assumes "i \<le> length bs"
  shows "serialize_tag_scan bs [i..<length bs - 1] = tag_payload (drop i bs)"
  using assms
proof (induction "length bs - i" arbitrary: i)
  case 0
  then have "drop i bs = []" by simp
  with 0 show ?case by simp
next
  case (Suc n)
  show ?case
  proof (cases "i < length bs - 1")
    case True
    then have i: "Suc i < length bs" by simp
    then have d1: "drop (Suc i) bs = bs ! (i + 1) # drop (i + 2) bs"
      by (simp add: Cons_nth_drop_Suc)
    with i have d: "drop i bs = bs ! i # bs ! (i + 1) # drop (i + 2) bs"
      by (simp add: Cons_nth_drop_Suc [symmetric])
    have "serialize_tag_scan bs [Suc i..<length bs - 1] = tag_payload (drop (Suc i) bs)"
      using Suc i by simp
    moreover note d1
    ultimately show ?thesis using True d by (simp add: upt_scan_step)
  next
    case False
    with Suc.hyps(2) have len: "i < length bs" "length bs \<le> Suc i" by simp_all
    then have "drop i bs = [bs ! i]" by (simp add: Cons_nth_drop_Suc [symmetric])
    with False show ?thesis by simp
  qed
qed

lemma balance_scan_eq: "balance_tag_scan bs is = serialize_tag_scan bs is"
  by (induction "is") auto

lemma fee_scan_eq: "fee_tag_scan bs is = serialize_tag_scan bs is"
  by (induction "is") auto

lemma short_not_tagged: "length bs < 9 \<Longrightarrow> \<not> tagged bs"
  using tagged_length by fastforce

lemma scan_from_9:
  "tagged bs \<Longrightarrow> serialize_tag_scan bs [9..<length bs - 1] = tag_payload (drop 9 bs)"
  by (rule serialize_scan_payload) (rule tagged_length)

definition strip_spec :: "bytes \<Rightarrow> bytes" where
  "strip_spec bs =
     (if tagged bs then (case tag_payload (drop 9 bs) of Some r \<Rightarrow> r | None \<Rightarrow> bs) else bs)"

lemma serialize_strip_eq: "serialize_strip_tag_prefix bs = strip_spec bs"
  using short_not_tagged [of bs]
  by (simp only: serialize_strip_tag_prefix_def strip_spec_def tagged_def [symmetric])
    (cases "tagged bs"; simp add: scan_from_9 [simplified])

lemma balance_strip_eq: "balance_strip_tag_prefix bs = strip_spec bs"
  using short_not_tagged [of bs]
  by (simp only: balance_strip_tag_prefix_def balance_scan_eq strip_spec_def tagged_def [symmetric])
    (cases "tagged bs"; simp add: scan_from_9 [simplified])

lemma fee_strip_eq: "fee_strip_tag_prefix bs = strip_spec bs"
  using short_not_tagged [of bs]
  by (simp only: fee_strip_tag_prefix_def fee_scan_eq strip_spec_def tagged_def [symmetric])
    (cases "tagged bs"; simp add: scan_from_9 [simplified])

interpretation serialize_strip: tag_stripper serialize_strip_tag_prefix
  by unfold_locales (simp_all add: serialize_strip_eq strip_spec_def)

interpretation balance_strip: tag_stripper balance_strip_tag_prefix
  by unfold_locales (simp_all add: balance_strip_eq strip_spec_def)

interpretation fee_strip: tag_stripper fee_strip_tag_prefix
  by unfold_locales (simp_all add: fee_strip_eq strip_spec_def)

subsection \<open>Properties\<close>

text \<open>
  The three copies of \<open>strip_tag_prefix\<close> compute the same function: what the fee estimate,
  the balancer and the registration builder decode is the same bytes for every input.
\<close>

theorem strip_copies_agree:
  "fee_strip_tag_prefix bs = balance_strip_tag_prefix bs \<and>
   balance_strip_tag_prefix bs = serialize_strip_tag_prefix bs"
  using fee_strip.strip_unique [OF balance_strip.tag_stripper_axioms, of bs]
    balance_strip.strip_unique [OF serialize_strip.tag_stripper_axioms, of bs] by simp

text \<open>
  C13. A tagged serialisation \<open>midnight:<tag>):<data>\<close> or \<open>midnight:<tag>]:<data>\<close>, whose tag
  text holds no colon, is stripped to exactly its data, whatever the data is (it may itself hold
  terminators or start with \<open>midnight:\<close>), bytes that do not start with \<open>midnight:\<close> are left
  alone, and the copies of \<open>fee_ffi.rs\<close>, \<open>balance_ffi.rs\<close> and \<open>serialize.rs\<close> agree on every input.
\<close>

theorem strip_tag_exact:
  assumes "colon \<notin> set tag" and "t = rparen \<or> t = rbrack" and "take 9 raw \<noteq> tag_magic"
  shows "fee_strip_tag_prefix (tag_magic @ tag @ [t, colon] @ data) = data \<and>
    fee_strip_tag_prefix raw = raw \<and>
    fee_strip_tag_prefix bs = balance_strip_tag_prefix bs \<and>
    balance_strip_tag_prefix bs = serialize_strip_tag_prefix bs"
proof (intro conjI)
  show "fee_strip_tag_prefix (tag_magic @ tag @ [t, colon] @ data) = data"
    by (rule fee_strip.strip_exact [OF assms(1,2)])
  show "fee_strip_tag_prefix raw = raw"
    using assms(3) by (simp add: fee_strip_eq strip_spec_def tagged_def)
  show "fee_strip_tag_prefix bs = balance_strip_tag_prefix bs"
    by (rule fee_strip.strip_unique [OF balance_strip.tag_stripper_axioms])
  show "balance_strip_tag_prefix bs = serialize_strip_tag_prefix bs"
    by (rule balance_strip.strip_unique [OF serialize_strip.tag_stripper_axioms])
qed

theorem strip_tag_exact_witness:
  "fee_strip_tag_prefix (tag_magic @ ascii ''ledger-parameters[v4'' @ [rbrack, colon] @ [1, 2, 93, 58, 3])
     = [1, 2, 93, 58, 3] \<and> fee_strip_tag_prefix [7] = [7]"
proof -
  have "colon \<notin> set (ascii ''ledger-parameters[v4'')" by (simp add: ascii_def colon_def)
  moreover have "take 9 [7] \<noteq> tag_magic" by (simp add: tag_magic_def ascii_def)
  ultimately show ?thesis using strip_tag_exact [of _ rbrack "[7]"] by blast
qed

end
