(* ===== verification/Balance.thy ===== *)
theory Balance
  imports DustSelect TagPrefix
begin

text \<open>
  \<open>balance_ffi.rs\<close>: sizing the dust fee and the TTL of the dust intent, balancing and
  sealing a proven transaction, the FFI entry point with its write-back of the wallet state,
  and the listing of current nullifiers. Transactions, proving, sealing, merging and ledger
  parameters are the ledger's (parameters of the model); \<open>OsRng\<close> is the record of the
  draws the call makes.
\<close>

subsection \<open>TTL window and fee size\<close>

definition DUST_TTL_MARGIN_SECS :: int where "DUST_TTL_MARGIN_SECS = 15"
definition DUST_TTL_MAX_WINDOW_SECS :: int where "DUST_TTL_MAX_WINDOW_SECS = 30 * 60"
definition BAL_FEE_OVERHEAD_PERCENT :: u128 where "BAL_FEE_OVERHEAD_PERCENT = 1"
definition DEFAULT_FEE_BLOCKS_MARGIN :: usize where "DEFAULT_FEE_BLOCKS_MARGIN = 5"

text \<open>
  \<open>i128\<close> in, \<open>u64\<close> out. The subtraction cannot leave \<open>i128\<close> for the durations a ledger
  holds; division by 2 truncates; the final cast keeps the low 64 bits.
\<close>

definition dust_intent_ttl_window_secs :: "int \<Rightarrow> u64" where
  "dust_intent_ttl_window_secs global_ttl_secs =
     (let capped = min (global_ttl_secs - DUST_TTL_MARGIN_SECS) DUST_TTL_MAX_WINDOW_SECS;
          window = (if capped > 0 then capped else global_ttl_secs sdiv 2)
      in word_of_int (max window 0))"

definition merged_total_fee :: "u128 \<Rightarrow> u128 \<Rightarrow> u128" where
  "merged_total_fee base_fee dust_intent_fee =
     (let merged = base_fee + dust_intent_fee
      in merged + merged * BAL_FEE_OVERHEAD_PERCENT div 100)"

subsection \<open>The dust-only transaction\<close>

record ('ptx, 'etx, 'utx, 'stx, 'par, 'spend, 'reg, 'bind, 'offer, 'act) balance_lib =
  bl_deser_proven :: "bytes \<Rightarrow> 'ptx option"
  bl_params_tagged :: "bytes \<Rightarrow> 'par option"
  bl_params_raw :: "bytes \<Rightarrow> 'par option"
  bl_global_ttl :: "'par \<Rightarrow> int"
  bl_erase_proven :: "'ptx \<Rightarrow> 'etx"
  bl_erase_unproven :: "'utx \<Rightarrow> 'etx"
  bl_fees :: "'etx \<Rightarrow> 'par \<Rightarrow> usize \<Rightarrow> u128 option"
  bl_new_tx :: "string \<Rightarrow> (u16 \<times> ('offer, 'act, ('spend, 'reg) dust_actions, 'bind) intent) list \<Rightarrow> 'utx"
  bl_prove :: "string \<Rightarrow> 'utx \<Rightarrow> 'ptx option"
  bl_runtime :: bool
  bl_seal :: "nat \<Rightarrow> 'ptx \<Rightarrow> 'stx"
  bl_merge :: "'stx \<Rightarrow> 'stx \<Rightarrow> 'stx option"
  bl_ser_sealed :: "'stx \<Rightarrow> bytes option"
  bl_segment :: "nat \<Rightarrow> u16"
  bl_binding :: "nat \<Rightarrow> 'bind"
  bl_unicode_lower :: "string \<Rightarrow> string"

text \<open>The intents map has one entry, so it is a list of one pair; \<open>k\<close> numbers the draw.\<close>

definition build_dust_fee_intent_tx ::
    "('ptx, 'etx, 'utx, 'stx, 'par, 'spend, 'reg, 'bind, 'offer, 'act) balance_lib \<Rightarrow> nat \<Rightarrow>
     'spend list \<Rightarrow> u64 \<Rightarrow> u64 \<Rightarrow> string \<Rightarrow> 'utx" where
  "build_dust_fee_intent_tx bl k spends ctime ttl network_id =
     (let dust_acts = \<lparr>da_spends = spends, da_registrations = [], da_ctime = ctime\<rparr>;
          dust_segment_id = bl_segment bl k;
          dust_intent = \<lparr>in_guaranteed_offer = None, in_fallible_offer = None, in_actions = [],
            in_dust_actions = Some dust_acts, in_ttl = ttl, in_binding = bl_binding bl k\<rparr>
      in bl_new_tx bl network_id [(dust_segment_id, dust_intent)])"

definition decode_ledger_params ::
    "('ptx, 'etx, 'utx, 'stx, 'par, 'spend, 'reg, 'bind, 'offer, 'act) balance_lib \<Rightarrow> bytes \<Rightarrow>
     bal_error + 'par" where
  "decode_ledger_params bl params_bytes =
     (case bl_params_tagged bl params_bytes of
        Some p \<Rightarrow> Inr p
      | None \<Rightarrow> ok_or ParamsDeser (bl_params_raw bl (balance_strip_tag_prefix params_bytes)))"

text \<open>\<open>u64::try_from(current_time_ms / 1000)\<close> rejects negative times.\<close>

definition secs_checked :: "i64 \<Rightarrow> u64 option" where
  "secs_checked t = (if sint t sdiv 1000 < 0 then None else Some (millis_to_secs t))"

definition ttl_anchor :: "i64 \<Rightarrow> u64 \<Rightarrow> u64" where
  "ttl_anchor ttl_anchor_ms timestamp_secs =
     (if sint ttl_anchor_ms > 0 then millis_to_secs ttl_anchor_ms else timestamp_secs)"

definition seal_zero_fee ::
    "hexlib \<Rightarrow> ('ptx, 'etx, 'utx, 'stx, 'par, 'spend, 'reg, 'bind, 'offer, 'act) balance_lib \<Rightarrow>
     'ptx \<Rightarrow> 'st \<Rightarrow> bal_error + (string \<times> 'st \<times> string list)" where
  "seal_zero_fee hx bl proven_tx dust_state =
     bindE (ok_or SealedSer (bl_ser_sealed bl (bl_seal bl 0 proven_tx)))
       (\<lambda>result_bytes. Inr (hx_enc hx result_bytes, dust_state, []))"

text \<open>Steps 3 and 4: the draft sizes the fee, the real selection covers it.\<close>

definition size_and_select ::
    "hexlib \<Rightarrow> ('st, 'sk, 'utxo, 'spend, 'nul) dust_lib \<Rightarrow>
     ('ptx, 'etx, 'utx, 'stx, 'par, 'spend, 'reg, 'bind, 'offer, 'act) balance_lib \<Rightarrow>
     'st \<Rightarrow> bytes \<Rightarrow> 'par \<Rightarrow> u128 \<Rightarrow> i64 \<Rightarrow> i64 \<Rightarrow> string \<Rightarrow> string set \<Rightarrow>
     bal_error + ('utx \<times> 'st \<times> string list)" where
  "size_and_select hx dl bl dust_state seed params base_fee current_time_ms ttl_anchor_ms network_id excl =
     (let sk = dl_derive dl seed in
      bindE (ok_or NegativeTime (secs_checked current_time_ms)) (\<lambda>timestamp.
      let dust_ttl = ttl_anchor ttl_anchor_ms timestamp
                       + dust_intent_ttl_window_secs (bl_global_ttl bl params) in
      bindE (select_dust_spends hx dl dust_state sk base_fee timestamp excl) (\<lambda>(_, draft_spends, _).
      let draft_dust_tx = build_dust_fee_intent_tx bl 0 draft_spends timestamp dust_ttl network_id in
      bindE (ok_or DraftFee (bl_fees bl (bl_erase_unproven bl draft_dust_tx) params
                               DEFAULT_FEE_BLOCKS_MARGIN)) (\<lambda>dust_intent_fee.
      let total_fee = merged_total_fee base_fee dust_intent_fee in
      bindE (select_dust_spends hx dl dust_state sk total_fee timestamp excl)
        (\<lambda>(current_state, dust_spends, spent_nullifiers).
      Inr (build_dust_fee_intent_tx bl 1 dust_spends timestamp dust_ttl network_id,
           current_state, spent_nullifiers))))))"

text \<open>Steps 5 to 8: prove the dust transaction, seal both, then merge and serialise.\<close>

definition prove_seal_merge ::
    "hexlib \<Rightarrow> ('ptx, 'etx, 'utx, 'stx, 'par, 'spend, 'reg, 'bind, 'offer, 'act) balance_lib \<Rightarrow>
     string \<Rightarrow> 'ptx \<Rightarrow> 'utx \<Rightarrow> bal_error + string" where
  "prove_seal_merge hx bl keys_path proven_tx dust_tx =
     bindE (guardE (bl_runtime bl) RuntimeBuild) (\<lambda>_.
     bindE (ok_or Proving (bl_prove bl keys_path dust_tx)) (\<lambda>proven_dust_tx.
     let sealed_original = bl_seal bl 0 proven_tx;
         sealed_dust = bl_seal bl 1 proven_dust_tx in
     bindE (ok_or Merging (bl_merge bl sealed_original sealed_dust)) (\<lambda>sealed_tx.
     bindE (ok_or BalancedSer (bl_ser_sealed bl sealed_tx)) (\<lambda>result_bytes.
     Inr (hx_enc hx result_bytes)))))"

definition balance_proven_transaction_impl ::
    "hexlib \<Rightarrow> ('st, 'sk, 'utxo, 'spend, 'nul) dust_lib \<Rightarrow>
     ('ptx, 'etx, 'utx, 'stx, 'par, 'spend, 'reg, 'bind, 'offer, 'act) balance_lib \<Rightarrow>
     string \<Rightarrow> 'st \<Rightarrow> bytes \<Rightarrow> string \<Rightarrow> i64 \<Rightarrow> string \<Rightarrow> string \<Rightarrow> string set \<Rightarrow> i64 \<Rightarrow>
     bal_error + (string \<times> 'st \<times> string list)" where
  "balance_proven_transaction_impl hx dl bl proven_hex dust_state seed params_hex current_time_ms
       keys_path network_id excl ttl_anchor_ms =
     bindE (ok_or ProvenHex (hx_dec hx proven_hex)) (\<lambda>proven_bytes.
     bindE (ok_or ProvenDeser (bl_deser_proven bl proven_bytes)) (\<lambda>proven_tx.
     bindE (ok_or ParamsHex (hx_dec hx params_hex)) (\<lambda>params_bytes.
     bindE (decode_ledger_params bl params_bytes) (\<lambda>params.
     bindE (ok_or FeeCalc (bl_fees bl (bl_erase_proven bl proven_tx) params
                             DEFAULT_FEE_BLOCKS_MARGIN)) (\<lambda>base_fee.
     if base_fee = 0 then seal_zero_fee hx bl proven_tx dust_state
     else bindE (size_and_select hx dl bl dust_state seed params base_fee current_time_ms
                   ttl_anchor_ms network_id excl) (\<lambda>(dust_tx, current_state, spent_nullifiers).
       bindE (prove_seal_merge hx bl keys_path proven_tx dust_tx) (\<lambda>result_hex.
       Inr (result_hex, current_state, spent_nullifiers))))))))"

subsection \<open>The FFI entry point\<close>

definition ascii_lower :: "char \<Rightarrow> char" where
  "ascii_lower c = (let n = of_char c :: nat in if 65 \<le> n \<and> n \<le> 90 then char_of (n + 32) else c)"

definition str_to_lowercase :: "(string \<Rightarrow> string) \<Rightarrow> string \<Rightarrow> string" where
  "str_to_lowercase unicode_lower s = (if is_ascii s then map ascii_lower s else unicode_lower s)"

definition parse_exclude_nullifiers :: "(string \<Rightarrow> string) \<Rightarrow> cptr \<Rightarrow> string set option" where
  "parse_exclude_nullifiers unicode_lower p =
     (case p of None \<Rightarrow> Some {}
      | Some c \<Rightarrow> (case cstr_to_str c of None \<Rightarrow> None
          | Some s \<Rightarrow> Some (set (filter (\<lambda>n. n \<noteq> [])
              (map (\<lambda>n. str_to_lowercase unicode_lower (str_trim n)) (str_split '','' s))))))"

definition balance_envelope :: "string \<Rightarrow> string list \<Rightarrow> string" where
  "balance_envelope balanced_hex spent_nullifiers =
     balanced_hex @ '';'' @ str_join '','' spent_nullifiers"

text \<open>
  The result is the returned pointer and what \<open>*dust_state_ptr\<close> holds afterwards
  (\<open>None\<close> for a null pointer).
\<close>

definition balance_proven_transaction ::
    "hexlib \<Rightarrow> ('st, 'sk, 'utxo, 'spend, 'nul) dust_lib \<Rightarrow>
     ('ptx, 'etx, 'utx, 'stx, 'par, 'spend, 'reg, 'bind, 'offer, 'act) balance_lib \<Rightarrow>
     cptr \<Rightarrow> 'st option \<Rightarrow> bytes option \<Rightarrow> usize \<Rightarrow> cptr \<Rightarrow> i64 \<Rightarrow> cptr \<Rightarrow> cptr \<Rightarrow> cptr \<Rightarrow> i64 \<Rightarrow>
     cptr \<times> 'st option" where
  "balance_proven_transaction hx dl bl proven_tx_hex dust_state_ptr seed_ptr seed_len ledger_params_hex
       current_time_ms keys_dir network_id exclude_nullifiers_hex ttl_anchor_ms =
     (case do {
        proven_c \<leftarrow> proven_tx_hex; dust_state \<leftarrow> dust_state_ptr; seed_mem \<leftarrow> seed_ptr;
        params_c \<leftarrow> ledger_params_hex; keys_c \<leftarrow> keys_dir; net_c \<leftarrow> network_id;
        assertO (seed_len = 32);
        proven_s \<leftarrow> cstr_to_str proven_c;
        params_s \<leftarrow> cstr_to_str params_c;
        keys_path \<leftarrow> cstr_to_str keys_c;
        network_id_str \<leftarrow> cstr_to_str net_c;
        excl \<leftarrow> parse_exclude_nullifiers (bl_unicode_lower bl) exclude_nullifiers_hex;
        res_ok (balance_proven_transaction_impl hx dl bl (str_trim proven_s) dust_state
                  (slice_from seed_mem seed_len) (str_trim params_s) current_time_ms keys_path
                  network_id_str excl ttl_anchor_ms)
      } of
        Some (balanced_hex, updated_state, spent_nullifiers) \<Rightarrow>
          (cstring_new (balance_envelope balanced_hex spent_nullifiers), Some updated_state)
      | None \<Rightarrow> (None, dust_state_ptr))"

definition dust_current_nullifiers ::
    "hexlib \<Rightarrow> ('st, 'sk, 'utxo, 'spend, 'nul) dust_lib \<Rightarrow> 'st option \<Rightarrow> bytes option \<Rightarrow> usize \<Rightarrow> cptr" where
  "dust_current_nullifiers hx dl state_ptr seed_ptr seed_len = do {
     state \<leftarrow> state_ptr; seed_mem \<leftarrow> seed_ptr;
     assertO (seed_len = 32);
     let dust_secret_key = dl_derive dl (slice_from seed_mem seed_len);
     hexes \<leftarrow> res_ok (current_nullifiers hx dl state dust_secret_key);
     cstring_new (str_join '','' hexes)
   }"

subsection \<open>Nullifier lists as text\<close>

lemma hex_digit_lower: "c \<in> set hex_digits \<Longrightarrow> ascii_lower c = c"
  by (auto simp: hex_digits_def ascii_lower_def Let_def)

lemma hex_string_facts:
  assumes "set s \<subseteq> set hex_digits"
  shows "is_ascii s" and "no_ws s" and "CHR '','' \<notin> set s" and "CHR 0x00 \<notin> set s"
    and "CHR '';'' \<notin> set s" and "str_to_lowercase ulc s = s"
proof -
  have r: "33 \<le> (of_char c :: nat) \<and> (of_char c :: nat) < 128" if "c \<in> set s" for c
    using assms that hex_digit_range by blast
  show asc: "is_ascii s" and "no_ws s" using r by (auto simp: is_ascii_def no_ws_def)
  show "CHR '','' \<notin> set s" "CHR 0x00 \<notin> set s" "CHR '';'' \<notin> set s"
    using assms hex_digits_exclude by auto
  have "map ascii_lower s = s"
    using assms by (intro map_idI) (auto intro: hex_digit_lower)
  with asc show "str_to_lowercase ulc s = s" by (simp add: str_to_lowercase_def)
qed

text \<open>A comma-joined list of non-empty lowercase-hex strings parses back to its set.\<close>

lemma parse_exclude_join:
  assumes "\<forall>n \<in> set ns. set n \<subseteq> set hex_digits \<and> n \<noteq> []"
  shows "parse_exclude_nullifiers ulc (Some (str_join '','' ns)) = Some (set ns)"
proof (cases "ns = []")
  case True
  have "str_trim [] = []" by (simp add: str_trim_def trim_with.simps)
  moreover have "str_to_lowercase ulc [] = []" by (simp add: str_to_lowercase_def is_ascii_def)
  ultimately show ?thesis
    using True by (simp add: parse_exclude_nullifiers_def cstr_to_str_def)
next
  case False
  have plain: "set (str_join '','' ns) \<subseteq> set hex_digits \<union> {CHR '',''}"
    using set_str_join [of "'',''" ns] assms by fastforce
  then have "is_ascii (str_join '','' ns)"
    using hex_digit_range by (fastforce simp: is_ascii_def)
  then have c: "cstr_to_str (str_join '','' ns) = Some (str_join '','' ns)"
    by (rule cstr_to_str_ascii)
  have sp: "str_split '','' (str_join '','' ns) = ns"
    using assms False hex_string_facts(3) by (intro split_join_char) blast+
  have id: "map (\<lambda>n. str_to_lowercase ulc (str_trim n)) ns = ns"
    using assms hex_string_facts by (intro map_idI) (simp add: str_trim_plain)
  have "filter (\<lambda>n. n \<noteq> []) ns = ns" using assms by (simp add: filter_id_conv)
  then show ?thesis by (simp add: parse_exclude_nullifiers_def c sp id)
qed

lemma envelope_split:
  assumes "set h \<subseteq> set hex_digits" and "\<forall>n \<in> set ns. set n \<subseteq> set hex_digits"
  shows "str_split '';'' (balance_envelope h ns) = [h, str_join '','' ns]"
proof -
  have "CHR '';'' \<notin> set (str_join '','' ns)"
    using set_str_join [of "'',''" ns] assms(2) hex_string_facts(5) by fastforce
  then have "str_split '';'' (str_join '';'' [h, str_join '','' ns]) = [h, str_join '','' ns]"
    using hex_string_facts(5) [OF assms(1)] by (intro split_join_char) auto
  then show ?thesis by (simp add: balance_envelope_def)
qed

lemma envelope_cstring:
  assumes "set h \<subseteq> set hex_digits" and "\<forall>n \<in> set ns. set n \<subseteq> set hex_digits"
  shows "cstring_new (balance_envelope h ns) = Some (balance_envelope h ns)"
proof -
  have "CHR 0x00 \<notin> set (str_join '','' ns)"
    using set_str_join [of "'',''" ns] assms(2) hex_string_facts(4) by fastforce
  then show ?thesis
    using hex_string_facts(4) [OF assms(1)] by (simp add: cstring_new_eq_Some balance_envelope_def)
qed

lemma nullifier_to_hex_set:
  "hex_ok hx \<Longrightarrow> nullifier_to_hex hx dl n = Inr s \<Longrightarrow> set s \<subseteq> set hex_digits"
  by (auto simp: nullifier_to_hex_def resE dest: hex_enc_set)

subsection \<open>What a selection returns\<close>

lemma select_accepts:
  assumes "fee \<noteq> 0"
  shows "select_dust_spends hx dl st sk fee ts excl = Inr (st', sps, ns) \<longleftrightarrow>
    (\<exists>pre u post sp n. dl_utxos dl st = pre @ u # post \<and>
       (\<forall>y \<in> set pre. select_attempt hx dl sk ts excl st fee y = None) \<and>
       dl_spend dl st sk u fee ts = Some (st', sp) \<and>
       nullifier_to_hex hx dl (dl_old_nullifier dl sp) = Inr n \<and> n \<notin> excl \<and>
       sps = [sp] \<and> ns = [n])" (is "_ \<longleftrightarrow> ?R")
proof -
  have att: "select_attempt hx dl sk ts excl st fee u = Some (Inr (st', sp, n)) \<longleftrightarrow>
      dl_spend dl st sk u fee ts = Some (st', sp) \<and>
      nullifier_to_hex hx dl (dl_old_nullifier dl sp) = Inr n \<and> n \<notin> excl" for u sp n
    using assms by (auto simp: select_attempt_def split: option.splits sum.splits)
  have "select_dust_spends hx dl st sk fee ts excl = Inr (st', sps, ns) \<longleftrightarrow>
      (\<exists>sp n. select_run hx dl sk ts excl st fee (dl_utxos dl st) = Inr (Some (st', sp, n)) \<and>
        sps = [sp] \<and> ns = [n])"
    using assms by (auto simp: select_dust_spends_run resE split: option.splits)
  also have "\<dots> \<longleftrightarrow> ?R"
    unfolding balance_pick.run_some_iff att by blast
  finally show ?thesis .
qed

lemma select_zero: "select_dust_spends hx dl st sk 0 ts excl = Inr (st, [], [])"
  by (simp add: select_dust_spends_def select_loop_done select_start_def)

lemma select_nullifiers:
  assumes "select_dust_spends hx dl st sk fee ts excl = Inr (st', sps, ns)"
  shows "set ns \<inter> excl = {}" and "distinct ns" and "length ns \<le> 1"
    and "hex_ok hx \<Longrightarrow> \<forall>n \<in> set ns. set n \<subseteq> set hex_digits"
proof -
  have "(ns = []) \<or> (\<exists>sp n. nullifier_to_hex hx dl (dl_old_nullifier dl sp) = Inr n \<and> n \<notin> excl \<and> ns = [n])"
    using assms by (cases "fee = 0") (auto simp: select_zero select_accepts)
  then show "set ns \<inter> excl = {}" "distinct ns" "length ns \<le> 1"
    "hex_ok hx \<Longrightarrow> \<forall>n \<in> set ns. set n \<subseteq> set hex_digits"
    using nullifier_to_hex_set by fastforce+
qed

subsection \<open>What balancing returns\<close>

lemma size_and_select_ok:
  assumes "size_and_select hx dl bl st seed params base ct ta net excl = Inr (dtx, st', ns)"
  shows "\<exists>ts fee sps ttl. secs_checked ct = Some ts \<and>
    select_dust_spends hx dl st (dl_derive dl seed) fee ts excl = Inr (st', sps, ns) \<and>
    dtx = build_dust_fee_intent_tx bl 1 sps ts ttl net"
  using assms by (auto simp: size_and_select_def resE Let_def)

lemma balance_impl_ok:
  assumes "balance_proven_transaction_impl hx dl bl ph st seed pm ct keys net excl ta
             = Inr (h, st', ns)"
  shows "(st' = st \<and> ns = []) \<or>
    (\<exists>ts fee sps. select_dust_spends hx dl st (dl_derive dl seed) fee ts excl = Inr (st', sps, ns))"
  using assms
  by (auto simp: balance_proven_transaction_impl_def seal_zero_fee_def resE Let_def
      split: if_splits dest: size_and_select_ok)

lemma balance_impl_hex:
  assumes "balance_proven_transaction_impl hx dl bl ph st seed pm ct keys net excl ta
             = Inr (h, st', ns)" and "hex_ok hx"
  shows "set h \<subseteq> set hex_digits" and "\<forall>n \<in> set ns. set n \<subseteq> set hex_digits"
    and "set ns \<inter> excl = {}" and "distinct ns"
proof -
  show "set h \<subseteq> set hex_digits"
    using assms hex_enc_set [OF assms(2)]
    by (auto simp: balance_proven_transaction_impl_def seal_zero_fee_def prove_seal_merge_def
        resE Let_def split: if_splits)
  show "\<forall>n \<in> set ns. set n \<subseteq> set hex_digits" "set ns \<inter> excl = {}" "distinct ns"
    using balance_impl_ok [OF assms(1)] select_nullifiers assms(2) by fastforce+
qed

subsection \<open>A concrete ledger\<close>

text \<open>
  The ledger instantiated for the witnesses: a wallet is a list of identified values, a UTXO
  pays a fee it covers and is then gone, transactions are byte lists costing 10 a byte.
\<close>

definition demo_dust_lib :: "((u8 \<times> u128) list, bytes, u8 \<times> u128, u8, u8) dust_lib" where
  "demo_dust_lib = \<lparr>dl_utxos = (\<lambda>st. st),
     dl_spend = (\<lambda>st sk u fee ts. if fee \<le> snd u then Some (filter (\<lambda>v. v \<noteq> u) st, fst u) else None),
     dl_old_nullifier = (\<lambda>sp. sp), dl_ser_nullifier = (\<lambda>n. Some [n, n]),
     dl_nullifier = (\<lambda>u sk. fst u), dl_derive = (\<lambda>b. b)\<rparr>"

definition demo_balance_lib ::
    "(bytes, bytes, bytes, bytes, int, u8, unit, unit, unit, unit) balance_lib" where
  "demo_balance_lib = \<lparr>bl_deser_proven = Some, bl_params_tagged = (\<lambda>b. Some (3600::int)),
     bl_params_raw = (\<lambda>b. None), bl_global_ttl = (\<lambda>p. p), bl_erase_proven = (\<lambda>t. t),
     bl_erase_unproven = (\<lambda>t. t), bl_fees = (\<lambda>t p m. Some (10 * of_nat (length t))),
     bl_new_tx = (\<lambda>net is. concat (map (\<lambda>i. case in_dust_actions (snd i) of
        Some d \<Rightarrow> da_spends d | None \<Rightarrow> []) is)),
     bl_prove = (\<lambda>k t. Some t), bl_runtime = True, bl_seal = (\<lambda>k t. t),
     bl_merge = (\<lambda>a b. Some (a @ b)), bl_ser_sealed = Some, bl_segment = (\<lambda>k. 1),
     bl_binding = (\<lambda>k. ()), bl_unicode_lower = (\<lambda>s. s)\<rparr>"

definition demo_balance :: "(u8 \<times> u128) list \<Rightarrow> cptr \<Rightarrow> cptr \<times> (u8 \<times> u128) list option" where
  "demo_balance st excl = balance_proven_transaction ref_hex demo_dust_lib demo_balance_lib
     (Some ''aabb'') (Some st) (Some (replicate 32 0)) 32 (Some ''00'') 5000
     (Some ''k'') (Some ''n'') excl 0"

lemma demo_balance_first:
  "demo_balance [(1, 5), (2, 500), (3, 600)] (Some []) =
     (Some ''aabb02;0202'', Some [(1, 5), (3, 600)])"
  by code_simp

lemma demo_balance_second:
  "demo_balance [(1, 5), (2, 500), (3, 600)] (Some ''0202'') =
     (Some ''aabb03;0303'', Some [(1, 5), (2, 500)])"
  by code_simp

subsection \<open>The entry point\<close>

lemma balance_entry_cases:
  assumes "balance_proven_transaction hx dl bl ptxh sp sd sl ph ct kd net ex ta = (r, st2)"
  shows "(r = None \<and> st2 = sp) \<or>
    (\<exists>st excl h st' ns txs pms keys nets seed. sp = Some st \<and>
      parse_exclude_nullifiers (bl_unicode_lower bl) ex = Some excl \<and>
      balance_proven_transaction_impl hx dl bl txs st seed pms ct keys nets excl ta = Inr (h, st', ns) \<and>
      r = cstring_new (balance_envelope h ns) \<and> st2 = Some st')" (is "?N \<or> ?R")
proof (rule disjCI)
  assume "\<not> ?R"
  with assms show ?N
    unfolding balance_proven_transaction_def
    by (simp add: res_ok_eq_Some split: option.splits bind_splits prod.splits) blast
qed

lemma balance_entry_ok:
  assumes "balance_proven_transaction hx dl bl ptxh sp sd sl ph ct kd net ex ta = (Some env, st2)"
  obtains st excl h st' ns txs pms keys nets seed where "sp = Some st"
    "parse_exclude_nullifiers (bl_unicode_lower bl) ex = Some excl"
    "balance_proven_transaction_impl hx dl bl txs st seed pms ct keys nets excl ta = Inr (h, st', ns)"
    "env = balance_envelope h ns" "st2 = Some st'"
proof -
  from balance_entry_cases [OF assms] obtain st excl h st' ns txs pms keys nets seed where e: "sp = Some st"
    "parse_exclude_nullifiers (bl_unicode_lower bl) ex = Some excl"
    "balance_proven_transaction_impl hx dl bl txs st seed pms ct keys nets excl ta = Inr (h, st', ns)"
    "cstring_new (balance_envelope h ns) = Some env" "st2 = Some st'"
    by (auto simp: eq_commute)
  have "env = balance_envelope h ns" using e(4) by (simp add: cstring_new_eq_Some)
  with e show ?thesis using that by blast
qed

text \<open>Every nullifier a selection hands out is non-empty when the ledger's encoding is.\<close>

definition nullifiers_nonempty :: "('st, 'sk, 'utxo, 'spend, 'nul) dust_lib \<Rightarrow> bool" where
  "nullifiers_nonempty dl \<longleftrightarrow> (\<forall>n. dl_ser_nullifier dl n \<noteq> Some [])"

lemma nullifier_to_hex_nonempty:
  assumes "nullifier_to_hex hx dl n = Inr s" and "hex_ok hx" and "nullifiers_nonempty dl"
  shows "s \<noteq> []"
proof -
  from assms(1) obtain b where b: "dl_ser_nullifier dl n = Some b" "s = hx_enc hx b"
    by (auto simp: nullifier_to_hex_def resE)
  with assms(3) have "b \<noteq> []" by (auto simp: nullifiers_nonempty_def)
  with b hex_enc_length [OF assms(2), of b] show ?thesis by auto
qed

lemma select_nonempty:
  assumes "select_dust_spends hx dl st sk fee ts excl = Inr (st', sps, ns)"
    and "hex_ok hx" and "nullifiers_nonempty dl" and "n \<in> set ns"
  shows "n \<noteq> []"
proof (cases "fee = 0")
  case True
  then show ?thesis using assms(1,4) by (simp add: select_zero)
next
  case False
  from assms(1) [unfolded select_accepts [OF False]] obtain sp m where
    m: "nullifier_to_hex hx dl (dl_old_nullifier dl sp) = Inr m" "ns = [m]" by blast
  have "m \<noteq> []" using m(1) assms(2,3) by (rule nullifier_to_hex_nonempty)
  with m(2) assms(4) show ?thesis by simp
qed

lemma balance_impl_nonempty:
  assumes "balance_proven_transaction_impl hx dl bl ph st seed pm ct keys net excl ta
             = Inr (h, st', ns)" and "hex_ok hx" and "nullifiers_nonempty dl" and "n \<in> set ns"
  shows "n \<noteq> []"
  using balance_impl_ok [OF assms(1)]
proof
  assume "st' = st \<and> ns = []"
  with assms(4) show ?thesis by simp
next
  assume "\<exists>ts fee sps. select_dust_spends hx dl st (dl_derive dl seed) fee ts excl = Inr (st', sps, ns)"
  then obtain ts fee sps where
    "select_dust_spends hx dl st (dl_derive dl seed) fee ts excl = Inr (st', sps, ns)" by blast
  from select_nonempty [OF this assms(2,3,4)] show ?thesis .
qed

lemma current_nullifiers_facts:
  assumes "current_nullifiers hx dl st sk = Inr ns" and "hex_ok hx" and "nullifiers_nonempty dl"
  shows "\<forall>n \<in> set ns. set n \<subseteq> set hex_digits \<and> n \<noteq> []"
proof
  fix n assume "n \<in> set ns"
  with mapE_set [OF assms(1) [unfolded current_nullifiers_def]] obtain u where
    u: "nullifier_to_hex hx dl u = Inr n" by blast
  show "set n \<subseteq> set hex_digits \<and> n \<noteq> []"
    using nullifier_to_hex_set [OF assms(2) u] nullifier_to_hex_nonempty [OF u assms(2,3)] by simp
qed

subsection \<open>A client session\<close>

text \<open>
  The protocol the doc comment of \<open>balance_proven_transaction\<close> asks of the wallet: it reads
  the nullifiers off each result, and passes all it has seen as the exclude list of the next
  call. Between calls the wallet state, the seed and every other argument are arbitrary.
\<close>

definition envelope_nullifiers :: "string \<Rightarrow> string list" where
  "envelope_nullifiers env =
     (case str_split '';'' env of [h, nj] \<Rightarrow> filter (\<lambda>n. n \<noteq> []) (str_split '','' nj) | _ \<Rightarrow> [])"

inductive balance_session ::
    "hexlib \<Rightarrow> ('st, 'sk, 'utxo, 'spend, 'nul) dust_lib \<Rightarrow>
     ('ptx, 'etx, 'utx, 'stx, 'par, 'spend, 'reg, 'bind, 'offer, 'act) balance_lib \<Rightarrow>
     string list \<Rightarrow> bool" for hx dl bl where
  start: "balance_session hx dl bl []"
| call: "balance_session hx dl bl known \<Longrightarrow>
    balance_proven_transaction hx dl bl ptxh sp sd sl ph ct kd net (Some (str_join '','' known)) ta
      = (Some env, st2) \<Longrightarrow>
    balance_session hx dl bl (known @ envelope_nullifiers env)"

inductive_cases balance_sessionE: "balance_session hx dl bl ks"

lemma envelope_nullifiers_eq:
  assumes "set h \<subseteq> set hex_digits" and "\<forall>n \<in> set ns. set n \<subseteq> set hex_digits \<and> n \<noteq> []"
  shows "envelope_nullifiers (balance_envelope h ns) = ns"
proof (cases "ns = []")
  case True
  then show ?thesis using envelope_split [OF assms(1), of ns] by (simp add: envelope_nullifiers_def)
next
  case False
  have "str_split '','' (str_join '','' ns) = ns"
    using assms(2) False hex_string_facts(3) by (intro split_join_char) blast+
  moreover have "filter (\<lambda>n. n \<noteq> []) ns = ns" using assms(2) by (simp add: filter_id_conv)
  ultimately show ?thesis
    using envelope_split [OF assms(1), of ns] assms(2) by (simp add: envelope_nullifiers_def)
qed

text \<open>One successful call: its nullifiers are readable, fresh and distinct.\<close>

lemma balance_call_fresh:
  assumes "balance_proven_transaction hx dl bl ptxh sp sd sl ph ct kd net ex ta = (Some env, st2)"
    and "parse_exclude_nullifiers (bl_unicode_lower bl) ex = Some excl"
    and "hex_ok hx" and "nullifiers_nonempty dl"
  shows "\<forall>n \<in> set (envelope_nullifiers env). set n \<subseteq> set hex_digits \<and> n \<noteq> []"
    and "set (envelope_nullifiers env) \<inter> excl = {}" and "distinct (envelope_nullifiers env)"
proof -
  obtain st h st' ns txs pms keys nets seed where r:
    "balance_proven_transaction_impl hx dl bl txs st seed pms ct keys nets excl ta = Inr (h, st', ns)"
    "env = balance_envelope h ns"
    by (rule balance_entry_ok [OF assms(1)]) (use assms(2) in simp)
  note f = balance_impl_hex [OF r(1) assms(3)]
  have ns: "\<forall>n \<in> set ns. set n \<subseteq> set hex_digits \<and> n \<noteq> []"
    using f(2) balance_impl_nonempty [OF r(1) assms(3,4)] by blast
  have "envelope_nullifiers env = ns" using envelope_nullifiers_eq [OF f(1) ns] r(2) by simp
  then show "\<forall>n \<in> set (envelope_nullifiers env). set n \<subseteq> set hex_digits \<and> n \<noteq> []"
    "set (envelope_nullifiers env) \<inter> excl = {}" "distinct (envelope_nullifiers env)"
    using ns f(3,4) by simp_all
qed

lemma balance_session_invariant:
  assumes "balance_session hx dl bl known" and "hex_ok hx" and "nullifiers_nonempty dl"
  shows "distinct known \<and> (\<forall>n \<in> set known. set n \<subseteq> set hex_digits \<and> n \<noteq> [])"
  using assms(1)
proof (induction rule: balance_session.induct)
  case (call known ptxh sp sd sl ph ct kd net ta env st2)
  then have "parse_exclude_nullifiers (bl_unicode_lower bl) (Some (str_join '','' known)) = Some (set known)"
    by (simp add: parse_exclude_join)
  from balance_call_fresh [OF call.hyps(2) this assms(2,3)] call.IH show ?case by auto
qed simp

subsection \<open>Properties\<close>

text \<open>
  C1. A wallet that follows the documented protocol never spends the same dust nullifier twice:
  over any sequence of successful calls to \<open>balance_proven_transaction\<close>, whatever happens to
  the wallet state between them, the nullifiers handed out are pairwise distinct.
\<close>

theorem session_never_respends:
  assumes "balance_session hx dl bl known" and "hex_ok hx" and "nullifiers_nonempty dl"
  shows "distinct known"
  using balance_session_invariant [OF assms] by simp

theorem session_never_respends_witness:
  "distinct [''0202'', ''0303'']"
proof -
  have n1: "envelope_nullifiers ''aabb02;0202'' = [''0202'']" by code_simp
  have n2: "envelope_nullifiers ''aabb03;0303'' = [''0303'']" by code_simp
  have "balance_session ref_hex demo_dust_lib demo_balance_lib ([] @ envelope_nullifiers ''aabb02;0202'')"
    by (rule balance_session.call [OF balance_session.start])
      (use demo_balance_first in \<open>simp add: demo_balance_def\<close>)
  then have s1: "balance_session ref_hex demo_dust_lib demo_balance_lib [''0202'']" by (simp add: n1)
  have "balance_session ref_hex demo_dust_lib demo_balance_lib ([''0202''] @ envelope_nullifiers ''aabb03;0303'')"
    by (rule balance_session.call [OF s1]) (use demo_balance_second in \<open>simp add: demo_balance_def\<close>)
  then have "balance_session ref_hex demo_dust_lib demo_balance_lib [''0202'', ''0303'']" by (simp add: n2)
  then show ?thesis
    by (rule session_never_respends) (simp_all add: ref_hex_ok nullifiers_nonempty_def demo_dust_lib_def)
qed

text \<open>
  C2. A failed call is atomic: when \<open>balance_proven_transaction\<close> returns null, the wallet state
  behind the pointer is what it was.
\<close>

theorem balance_failure_keeps_state:
  assumes "balance_proven_transaction hx dl bl ptxh sp sd sl ph ct kd net ex ta = (None, st2)"
    and "hex_ok hx"
  shows "st2 = sp"
proof -
  have "cstring_new (balance_envelope h ns) \<noteq> None"
    if "balance_proven_transaction_impl hx dl bl txs st seed pms ct keys nets excl ta = Inr (h, st', ns)"
    for st excl h st' ns txs pms keys nets seed
    using envelope_cstring [of h ns] balance_impl_hex [OF that assms(2)] by simp
  then show ?thesis using balance_entry_cases [OF assms(1)] by fastforce
qed

theorem balance_failure_keeps_state_witness:
  "balance_proven_transaction ref_hex demo_dust_lib demo_balance_lib
     (Some ''aabb'') (Some [(1, 5)]) (Some (replicate 32 0)) 32 (Some ''00'') (- 5000)
     (Some ''k'') (Some ''n'') None 0 = (None, Some [(1, 5)])"
proof -
  obtain r st2 where e: "balance_proven_transaction ref_hex demo_dust_lib demo_balance_lib
     (Some ''aabb'') (Some [(1, 5)]) (Some (replicate 32 0)) 32 (Some ''00'') (- 5000)
     (Some ''k'') (Some ''n'') None 0 = (r, st2)" by fastforce
  have "fst (balance_proven_transaction ref_hex demo_dust_lib demo_balance_lib
     (Some ''aabb'') (Some [(1, 5)]) (Some (replicate 32 0)) 32 (Some ''00'') (- 5000)
     (Some ''k'') (Some ''n'') None 0) = None" by code_simp
  with e have r: "r = None" by simp
  with e show ?thesis using balance_failure_keeps_state [OF e [unfolded r] ref_hex_ok] by simp
qed

text \<open>
  C20. With a nonzero fee, \<open>select_dust_spends\<close> succeeds exactly when some UTXO can be spent for
  the whole fee with a nullifier outside the exclude set; it then takes the first such UTXO in
  wallet order (every earlier one is unspendable or excluded), records exactly that one spend and
  nullifier, and returns the state after it. It reports insufficient dust exactly when every UTXO
  is unspendable or excluded.
\<close>

theorem select_first_acceptable:
  assumes "fee \<noteq> 0"
  shows "(select_dust_spends hx dl st sk fee ts excl = Inr (st', sps, ns) \<longleftrightarrow>
    (\<exists>pre u post sp n. dl_utxos dl st = pre @ u # post \<and>
       (\<forall>y \<in> set pre. select_attempt hx dl sk ts excl st fee y = None) \<and>
       dl_spend dl st sk u fee ts = Some (st', sp) \<and>
       nullifier_to_hex hx dl (dl_old_nullifier dl sp) = Inr n \<and> n \<notin> excl \<and>
       sps = [sp] \<and> ns = [n])) \<and>
   (select_dust_spends hx dl st sk fee ts excl = Inl (InsufficientDust fee (card excl)) \<longleftrightarrow>
      (\<forall>u \<in> set (dl_utxos dl st). select_attempt hx dl sk ts excl st fee u = None))"
proof (rule conjI [OF select_accepts [OF assms]])
  have att: "select_attempt hx dl sk ts excl st fee u \<noteq> Some (Inl (InsufficientDust fee (card excl)))" for u
    by (auto simp: select_attempt_def nullifier_to_hex_def resE split: option.splits sum.splits)
  have "select_dust_spends hx dl st sk fee ts excl = Inl (InsufficientDust fee (card excl)) \<longleftrightarrow>
      select_run hx dl sk ts excl st fee (dl_utxos dl st) = Inr None"
    using att balance_pick.run_error_iff [of hx dl sk ts excl st fee "dl_utxos dl st"]
    by (auto simp: select_dust_spends_run [OF assms] resE split: option.splits)
  then show "select_dust_spends hx dl st sk fee ts excl = Inl (InsufficientDust fee (card excl)) \<longleftrightarrow>
      (\<forall>u \<in> set (dl_utxos dl st). select_attempt hx dl sk ts excl st fee u = None)"
    by (simp only: balance_pick.run_none_iff)
qed

theorem select_first_acceptable_witness:
  "select_dust_spends ref_hex demo_dust_lib [(1, 5)] [] 40 5 {} = Inl (InsufficientDust 40 (card ({}::string set)))"
  using select_first_acceptable [of 40 ref_hex demo_dust_lib "[(1, 5)]" "[]" 5 "{}"]
  by (simp add: select_attempt_def demo_dust_lib_def)

text \<open>
  C33. The list \<open>dust_current_nullifiers\<close> prints is readable by \<open>balance_proven_transaction\<close> as
  an exclude list, and excluding it makes every nonzero selection on that wallet fail with
  insufficient dust: no UTXO the list names can be spent again.
\<close>

theorem excluding_current_blocks:
  assumes "dust_current_nullifiers hx dl (Some st) (Some seed) 32 = Some s"
    and "hex_ok hx" and "nullifiers_nonempty dl" and "fee \<noteq> 0"
    and "\<And>u fee ts st' sp. dl_spend dl st (dl_derive dl (slice_from seed 32)) u fee ts = Some (st', sp)
      \<Longrightarrow> dl_old_nullifier dl sp = dl_nullifier dl u (dl_derive dl (slice_from seed 32))"
  shows "\<exists>excl. parse_exclude_nullifiers ulc (Some s) = Some excl \<and>
    select_dust_spends hx dl st (dl_derive dl (slice_from seed 32)) fee ts excl
      = Inl (InsufficientDust fee (card excl))"
proof -
  let ?sk = "dl_derive dl (slice_from seed 32)"
  obtain ns where ns: "current_nullifiers hx dl st ?sk = Inr ns" "s = str_join '','' ns"
    using assms(1) by (auto simp: dust_current_nullifiers_def res_ok_eq_Some cstring_new_eq_Some
        Let_def split: bind_splits)
  have p: "parse_exclude_nullifiers ulc (Some s) = Some (set ns)"
    using current_nullifiers_facts [OF ns(1) assms(2,3)] ns(2) by (simp add: parse_exclude_join)
  have "select_attempt hx dl ?sk ts (set ns) st fee u = None" if u: "u \<in> set (dl_utxos dl st)" for u
  proof -
    obtain i where i: "i < length (dl_utxos dl st)" "u = dl_utxos dl st ! i"
      using u by (auto simp: in_set_conv_nth)
    have n: "nullifier_to_hex hx dl (dl_nullifier dl u ?sk) = Inr (ns ! i)"
      using mapE_nth [OF ns(1) [unfolded current_nullifiers_def] i(1)] i(2) by simp
    have "ns ! i \<in> set ns" using mapE_length [OF ns(1) [unfolded current_nullifiers_def]] i(1) by simp
    with n assms(4,5) show ?thesis
      by (auto simp: select_attempt_def split: option.splits sum.splits)
  qed
  then have "\<forall>u \<in> set (dl_utxos dl st). select_attempt hx dl ?sk ts (set ns) st fee u = None" by blast
  then have "select_run hx dl ?sk ts (set ns) st fee (dl_utxos dl st) = Inr None"
    by (simp only: balance_pick.run_none_iff)
  with p show ?thesis by (simp add: select_dust_spends_run [OF assms(4)])
qed

theorem excluding_current_blocks_witness:
  "\<exists>excl. parse_exclude_nullifiers (\<lambda>s. s) (Some ''0202,0303'') = Some excl \<and>
    select_dust_spends ref_hex demo_dust_lib [(2, 500), (3, 600)]
       (dl_derive demo_dust_lib (slice_from (replicate 32 0) 32)) 20 5 excl
      = Inl (InsufficientDust 20 (card excl))"
proof (rule excluding_current_blocks)
  show "dust_current_nullifiers ref_hex demo_dust_lib (Some [(2, 500), (3, 600)])
      (Some (replicate 32 0)) 32 = Some ''0202,0303''" by code_simp
qed (auto simp: ref_hex_ok nullifiers_nonempty_def demo_dust_lib_def split: if_splits)

text \<open>
  The TTL window is safe for every ledger TTL of at least two seconds: positive, strictly
  inside the ledger's TTL, at most thirty minutes, and exactly
  \<open>min (ttl - 15) 1800\<close> once the TTL leaves room for the 15 second margin.
\<close>

lemma ttl_window_bounds:
  assumes "2 \<le> g"
  shows "0 < unat (dust_intent_ttl_window_secs g) \<and> int (unat (dust_intent_ttl_window_secs g)) < g \<and>
    unat (dust_intent_ttl_window_secs g) \<le> 1800 \<and>
    (15 < g \<longrightarrow> int (unat (dust_intent_ttl_window_secs g)) = min (g - 15) 1800)"
proof -
  define w where "w = (if 15 < g then min (g - 15) 1800 else g div 2)"
  have w: "0 < w" "w < g" "w \<le> 1800" using assms by (auto simp: w_def)
  have "g sdiv 2 = g div 2" using assms by (simp add: signed_divide_int_def)
  then have "dust_intent_ttl_window_secs g = word_of_int w"
    using w by (auto simp: dust_intent_ttl_window_secs_def w_def DUST_TTL_MARGIN_SECS_def
        DUST_TTL_MAX_WINDOW_SECS_def Let_def)
  then have e: "int (unat (dust_intent_ttl_window_secs g)) = w"
    using w by (simp add: unsigned_of_int take_bit_int_eq_self)
  then have "0 < int (unat (dust_intent_ttl_window_secs g))"
    "int (unat (dust_intent_ttl_window_secs g)) \<le> 1800" using w by simp_all
  then have "0 < unat (dust_intent_ttl_window_secs g)" "unat (dust_intent_ttl_window_secs g) \<le> 1800"
    by linarith+
  moreover have "int (unat (dust_intent_ttl_window_secs g)) < g" using e w(2) by simp
  moreover have "15 < g \<Longrightarrow> int (unat (dust_intent_ttl_window_secs g)) = min (g - 15) 1800"
    using e by (simp add: w_def)
  ultimately show ?thesis by blast
qed

text \<open>
  While it fits in 128 bits, the merged fee is exactly the base fee plus the dust intent's
  own fee plus one percent of their sum, so it covers both parts.
\<close>

theorem merged_fee_exact:
  assumes "unat b + unat d + (unat b + unat d) div 100 < 2 ^ 128"
  shows "unat (merged_total_fee b d) = unat b + unat d + (unat b + unat d) div 100"
proof -
  have bd: "unat (b + d) = unat b + unat d"
    using assms by (simp add: unat_add_lem [THEN iffD1])
  have "unat (b + d) + unat ((b + d) div 100) < 2 ^ 128"
    using assms by (simp add: unat_div bd)
  then have "unat ((b + d) + (b + d) div 100) = unat (b + d) + unat ((b + d) div 100)"
    by (simp add: unat_add_lem [THEN iffD1])
  then show ?thesis by (simp add: merged_total_fee_def BAL_FEE_OVERHEAD_PERCENT_def unat_div bd Let_def)
qed

theorem merged_fee_exact_witness:
  "unat (merged_total_fee 1000 250) = unat (1000::u128) + unat (250::u128) + (unat (1000::u128) + unat (250::u128)) div 100"
  by (rule merged_fee_exact) simp

end
