(* ===== verification/FfiHeap.thy ===== *)
theory FfiHeap
  imports LedgerTypes
begin

text \<open>
  Ownership across the FFI: a heap of the allocations handed to the caller (C strings, byte
  vectors with their capacity, boxed objects, the \<open>ShieldedKeys\<close> struct), the \<open>free_*\<close>
  functions of every module as operations on it, and their contract as locales. Freeing a dead
  address or with the wrong layout is undefined behaviour, a value of the model (\<open>UB\<close>).
\<close>

type_synonym addr = nat

datatype 'o block =
    CStr string
  | ByteVec bytes nat
  | Boxed 'o
  | ShieldedKeys "addr option" "addr option"

record 'o heap =
  hp_cells :: "addr \<Rightarrow> 'o block option"
  hp_next :: addr

datatype 'a mem = Fine 'a | UB

definition heap_ok :: "'o heap \<Rightarrow> bool" where
  "heap_ok h \<longleftrightarrow> (\<forall>a \<ge> hp_next h. hp_cells h a = None)"

definition heap_alloc :: "'o block \<Rightarrow> 'o heap \<Rightarrow> addr \<times> 'o heap" where
  "heap_alloc b h = (hp_next h,
     h\<lparr>hp_cells := (hp_cells h)(hp_next h \<mapsto> b), hp_next := Suc (hp_next h)\<rparr>)"

definition heap_drop :: "addr \<Rightarrow> 'o heap \<Rightarrow> 'o heap" where
  "heap_drop a h = h\<lparr>hp_cells := (hp_cells h)(a := None)\<rparr>"

definition mem_bind :: "'a mem \<Rightarrow> ('a \<Rightarrow> 'b mem) \<Rightarrow> 'b mem" where
  "mem_bind m f = (case m of Fine x \<Rightarrow> f x | UB \<Rightarrow> UB)"

lemma mem_bind_simps [simp]: "mem_bind (Fine x) f = f x" "mem_bind UB f = UB"
  by (simp_all add: mem_bind_def)

subsection \<open>Taking ownership back\<close>

definition drop_cstring :: "addr \<Rightarrow> 'o heap \<Rightarrow> 'o heap mem" where
  "drop_cstring a h = (case hp_cells h a of Some (CStr s) \<Rightarrow> Fine (heap_drop a h) | _ \<Rightarrow> UB)"

text \<open>\<open>Vec::from_raw_parts(ptr, len, cap)\<close> needs the capacity the vector was allocated with.\<close>

definition drop_vec :: "addr \<Rightarrow> nat \<Rightarrow> nat \<Rightarrow> 'o heap \<Rightarrow> 'o heap mem" where
  "drop_vec a len cap h =
     (case hp_cells h a of
        Some (ByteVec bs c) \<Rightarrow> if c = cap \<and> len \<le> cap then Fine (heap_drop a h) else UB
      | _ \<Rightarrow> UB)"

definition drop_box :: "addr \<Rightarrow> 'o heap \<Rightarrow> 'o heap mem" where
  "drop_box a h = (case hp_cells h a of Some (Boxed s) \<Rightarrow> Fine (heap_drop a h) | _ \<Rightarrow> UB)"

subsection \<open>The free functions\<close>

definition free_balanced_transaction :: "addr option \<Rightarrow> 'o heap \<Rightarrow> 'o heap mem" where
  "free_balanced_transaction ptr h = (if ptr \<noteq> None then drop_cstring (the ptr) h else Fine h)"

definition contract_free_string :: "addr option \<Rightarrow> 'o heap \<Rightarrow> 'o heap mem" where
  "contract_free_string ptr h = (if ptr \<noteq> None then drop_cstring (the ptr) h else Fine h)"

definition free_c_string :: "addr option \<Rightarrow> 'o heap \<Rightarrow> 'o heap mem" where
  "free_c_string ptr h = (case ptr of None \<Rightarrow> Fine h | Some a \<Rightarrow> drop_cstring a h)"

definition free_proven_string :: "addr option \<Rightarrow> 'o heap \<Rightarrow> 'o heap mem" where
  "free_proven_string ptr h = (if ptr \<noteq> None then drop_cstring (the ptr) h else Fine h)"

definition free_serialized_transaction :: "addr option \<Rightarrow> 'o heap \<Rightarrow> 'o heap mem" where
  "free_serialized_transaction ptr h = (case ptr of None \<Rightarrow> Fine h | Some a \<Rightarrow> drop_cstring a h)"

definition free_signing_message :: "addr option \<Rightarrow> 'o heap \<Rightarrow> 'o heap mem" where
  "free_signing_message ptr h = (case ptr of None \<Rightarrow> Fine h | Some a \<Rightarrow> drop_cstring a h)"

definition free_zswap_string :: "addr option \<Rightarrow> 'o heap \<Rightarrow> 'o heap mem" where
  "free_zswap_string ptr h = (if ptr \<noteq> None then drop_cstring (the ptr) h else Fine h)"

definition free_signing_key :: "addr option \<Rightarrow> 'o heap \<Rightarrow> 'o heap mem" where
  "free_signing_key ptr h = (case ptr of None \<Rightarrow> Fine h | Some a \<Rightarrow> drop_box a h)"

definition free_dust_local_state :: "addr option \<Rightarrow> 'o heap \<Rightarrow> 'o heap mem" where
  "free_dust_local_state ptr h = (case ptr of None \<Rightarrow> Fine h | Some a \<Rightarrow> drop_box a h)"

definition free_zswap_local_state :: "addr option \<Rightarrow> 'o heap \<Rightarrow> 'o heap mem" where
  "free_zswap_local_state ptr h = (if ptr \<noteq> None then drop_box (the ptr) h else Fine h)"

definition free_verifying_key :: "addr option \<Rightarrow> 'o heap \<Rightarrow> 'o heap mem" where
  "free_verifying_key ptr h = (case ptr of None \<Rightarrow> Fine h | Some a \<Rightarrow> drop_vec a 32 32 h)"

definition free_signature :: "addr option \<Rightarrow> usize \<Rightarrow> 'o heap \<Rightarrow> 'o heap mem" where
  "free_signature ptr len h =
     (case ptr of None \<Rightarrow> Fine h
      | Some a \<Rightarrow> if len = 0 then Fine h else drop_vec a (unat len) (unat len) h)"

text \<open>
  The length comes out of the block's first 8 bytes (reading them needs them to exist);
  \<open>8 + len\<close> wraps at 64 bits.
\<close>

definition free_byte_array :: "addr option \<Rightarrow> 'o heap \<Rightarrow> 'o heap mem" where
  "free_byte_array ptr h =
     (case ptr of None \<Rightarrow> Fine h
      | Some a \<Rightarrow>
          (case hp_cells h a of
             Some (ByteVec bs c) \<Rightarrow>
               if length bs < 8 then UB
               else let len = u64_from_le_bytes (take 8 bs)
                    in drop_vec a (unat (8 + len)) (unat (8 + len)) h
           | _ \<Rightarrow> UB))"

definition free_shielded_keys :: "addr option \<Rightarrow> 'o heap \<Rightarrow> 'o heap mem" where
  "free_shielded_keys ptr h =
     (case ptr of None \<Rightarrow> Fine h
      | Some a \<Rightarrow>
          (case hp_cells h a of
             Some (ShieldedKeys coin_public_key encryption_public_key) \<Rightarrow>
               mem_bind (case coin_public_key of None \<Rightarrow> Fine h | Some c \<Rightarrow> drop_cstring c h) (\<lambda>h1.
               mem_bind (case encryption_public_key of None \<Rightarrow> Fine h1 | Some e \<Rightarrow> drop_cstring e h1)
                 (\<lambda>h2. Fine (heap_drop a h2)))
           | _ \<Rightarrow> UB))"

subsection \<open>The contract of an owner\<close>

text \<open>
  \<open>kind\<close> says which blocks a free function takes; on those it gives exactly that block back, on
  anything else it is undefined behaviour, and null is always fine.
\<close>

locale block_owner =
  fixes free :: "addr option \<Rightarrow> 'o heap \<Rightarrow> 'o heap mem"
    and kind :: "'o block \<Rightarrow> bool"
  assumes free_null: "free None h = Fine h"
    and free_live: "hp_cells h a = Some b \<Longrightarrow> kind b \<Longrightarrow> free (Some a) h = Fine (heap_drop a h)"
    and free_dead: "hp_cells h a = None \<Longrightarrow> free (Some a) h = UB"
    and free_other: "hp_cells h a = Some b \<Longrightarrow> \<not> kind b \<Longrightarrow> free (Some a) h = UB"
begin

lemma fine_iff:
  "(\<exists>h'. free (Some a) h = Fine h') \<longleftrightarrow> (\<exists>b. hp_cells h a = Some b \<and> kind b)"
  using free_live free_dead free_other by (metis mem.distinct(1) not_None_eq)

lemma alloc_free:
  assumes "heap_ok h" and "kind b" and "heap_alloc b h = (a, h1)"
  shows "\<exists>h2. free (Some a) h1 = Fine h2 \<and> hp_cells h2 = hp_cells h"
proof -
  have "hp_cells h1 a = Some b" using assms(3) by (auto simp: heap_alloc_def)
  from free_live [OF this assms(2)]
  show ?thesis using assms by (auto simp: heap_alloc_def heap_drop_def heap_ok_def)
qed

lemma double_free:
  assumes "free (Some a) h = Fine h'"
  shows "free (Some a) h' = UB"
proof -
  from assms obtain b where b: "hp_cells h a = Some b" "kind b" using fine_iff by blast
  from free_live [OF b] assms have "h' = heap_drop a h" by simp
  then show ?thesis by (intro free_dead) (simp add: heap_drop_def)
qed

lemma free_frame:
  assumes "free (Some a) h = Fine h'" and "b \<noteq> a"
  shows "hp_cells h' b = hp_cells h b"
proof -
  from assms(1) obtain c where c: "hp_cells h a = Some c" "kind c" using fine_iff by blast
  from free_live [OF c] assms show ?thesis by (auto simp: heap_drop_def)
qed

lemma free_keeps_ok:
  assumes "free p h = Fine h'" and "heap_ok h"
  shows "heap_ok h'"
proof (cases p)
  case (Some a)
  with assms(1) obtain c where c: "hp_cells h a = Some c" "kind c" using fine_iff by blast
  from free_live [OF c] assms Some show ?thesis by (auto simp: heap_drop_def heap_ok_def)
qed (use assms free_null in auto)

end

definition is_cstr :: "'o block \<Rightarrow> bool" where
  "is_cstr b \<longleftrightarrow> (case b of CStr _ \<Rightarrow> True | _ \<Rightarrow> False)"

definition is_boxed :: "'o block \<Rightarrow> bool" where
  "is_boxed b \<longleftrightarrow> (case b of Boxed _ \<Rightarrow> True | _ \<Rightarrow> False)"

definition is_vec_cap :: "nat \<Rightarrow> 'o block \<Rightarrow> bool" where
  "is_vec_cap n b \<longleftrightarrow> (case b of ByteVec _ c \<Rightarrow> c = n | _ \<Rightarrow> False)"

lemmas string_frees = free_balanced_transaction_def contract_free_string_def free_c_string_def
  free_proven_string_def free_serialized_transaction_def free_signing_message_def
  free_zswap_string_def drop_cstring_def is_cstr_def

lemmas box_frees = free_signing_key_def free_dust_local_state_def free_zswap_local_state_def
  drop_box_def is_boxed_def

interpretation own_balanced: block_owner free_balanced_transaction is_cstr
  by unfold_locales (auto simp: string_frees split: block.splits)

interpretation own_contract: block_owner contract_free_string is_cstr
  by unfold_locales (auto simp: string_frees split: block.splits)

interpretation own_c: block_owner free_c_string is_cstr
  by unfold_locales (auto simp: string_frees split: block.splits)

interpretation own_proven: block_owner free_proven_string is_cstr
  by unfold_locales (auto simp: string_frees split: block.splits)

interpretation own_serialized: block_owner free_serialized_transaction is_cstr
  by unfold_locales (auto simp: string_frees split: block.splits)

interpretation own_message: block_owner free_signing_message is_cstr
  by unfold_locales (auto simp: string_frees split: block.splits)

interpretation own_zswap: block_owner free_zswap_string is_cstr
  by unfold_locales (auto simp: string_frees split: block.splits)

interpretation own_key: block_owner free_signing_key is_boxed
  by unfold_locales (auto simp: box_frees split: block.splits)

interpretation own_dust: block_owner free_dust_local_state is_boxed
  by unfold_locales (auto simp: box_frees split: block.splits)

interpretation own_zstate: block_owner free_zswap_local_state is_boxed
  by unfold_locales (auto simp: box_frees split: block.splits)

interpretation own_vk: block_owner free_verifying_key "is_vec_cap 32"
  by unfold_locales (auto simp: free_verifying_key_def drop_vec_def is_vec_cap_def split: block.splits)

lemma heap_alloc_ok: "heap_ok h \<Longrightarrow> heap_alloc b h = (a, h') \<Longrightarrow> heap_ok h'"
  by (auto simp: heap_alloc_def heap_ok_def)

lemma heap_alloc_cell: "heap_alloc b h = (a, h') \<Longrightarrow> hp_cells h' a = Some b"
  by (auto simp: heap_alloc_def)

end
