(* ===== verification/Json.thy ===== *)
theory Json
  imports RustStd
begin

text \<open>
  \<open>serde_json::Value\<close> and the accessors the crate calls on it. Parsing and printing text are the
  library's (parameters: \<open>json_lib\<close>); an object is an association list in the order it was built.
\<close>

datatype jnum = PosInt u64 | NegInt i64 | FloatBits u64

datatype json =
    JNull
  | JBool bool
  | JNumber jnum
  | JString string
  | JArray "json list"
  | JObject "(string \<times> json) list"

record json_lib =
  jl_parse :: "string \<Rightarrow> json option"
  jl_print :: "json \<Rightarrow> string"

definition as_u64 :: "json \<Rightarrow> u64 option" where
  "as_u64 v = (case v of JNumber (PosInt n) \<Rightarrow> Some n | _ \<Rightarrow> None)"

definition as_i64 :: "json \<Rightarrow> int option" where
  "as_i64 v = (case v of
     JNumber (PosInt n) \<Rightarrow> if unat n < 2 ^ 63 then Some (uint n) else None
   | JNumber (NegInt n) \<Rightarrow> Some (sint n) | _ \<Rightarrow> None)"

definition as_str :: "json \<Rightarrow> string option" where
  "as_str v = (case v of JString s \<Rightarrow> Some s | _ \<Rightarrow> None)"

definition as_array :: "json \<Rightarrow> json list option" where
  "as_array v = (case v of JArray xs \<Rightarrow> Some xs | _ \<Rightarrow> None)"

definition as_object :: "json \<Rightarrow> (string \<times> json) list option" where
  "as_object v = (case v of JObject kvs \<Rightarrow> Some kvs | _ \<Rightarrow> None)"

text \<open>\<open>value.get(key)\<close>: only objects have string keys.\<close>

definition jget :: "string \<Rightarrow> json \<Rightarrow> json option" where
  "jget k v = (case v of JObject kvs \<Rightarrow> map_of kvs k | _ \<Rightarrow> None)"

definition is_jnull :: "json \<Rightarrow> bool" where
  "is_jnull v \<longleftrightarrow> v = JNull"

text \<open>\<open>json!(n)\<close> for an unsigned and a signed integer.\<close>

definition json_u64 :: "u64 \<Rightarrow> json" where
  "json_u64 n = JNumber (PosInt n)"

definition json_i64 :: "i64 \<Rightarrow> json" where
  "json_i64 n = JNumber (if 0 \<le> sint n then PosInt n else NegInt n)"

lemmas json_accessors = as_u64_def as_i64_def as_str_def as_array_def as_object_def jget_def is_jnull_def

lemma json_simps [simp]:
  "as_u64 (JNumber (PosInt n)) = Some n" "as_str (JString s) = Some s"
  "as_array (JArray xs) = Some xs" "as_object (JObject kvs) = Some kvs"
  "jget k (JObject kvs) = map_of kvs k" "as_u64 (json_u64 n) = Some n"
  by (simp_all add: json_accessors json_u64_def)

lemma as_str_Some: "as_str v = Some s \<longleftrightarrow> v = JString s"
  and as_array_Some: "as_array v = Some xs \<longleftrightarrow> v = JArray xs"
  and as_object_Some: "as_object v = Some kvs \<longleftrightarrow> v = JObject kvs"
  and as_u64_Some: "as_u64 v = Some n \<longleftrightarrow> v = JNumber (PosInt n)"
  by (auto simp: json_accessors split: json.splits jnum.splits)

lemma sint_pos_uint:
  fixes n :: "64 word"
  assumes "0 \<le> sint n"
  shows "uint n = sint n" and "uint n < 2 ^ 63"
proof -
  have s: "sint n < 2 ^ 63" using sint_lt [of n] by simp
  show u: "uint n = sint n"
    using assms s by (simp add: uint_sint take_bit_int_eq_self)
  show "uint n < 2 ^ 63" using u s by simp
qed

end
