(* ===== verification/ZswapWallet.thy ===== *)
theory ZswapWallet
  imports LedgerTypes FfiHeap Json "HOL-Library.AList" "HOL-Library.Multiset"
begin

text \<open>
  The shielded wallet of \<open>zswap_ffi.rs\<close>: balances, persistence, coin selection, spending one
  coin and the FFI helpers. The ledger's \<open>ZswapLocalState\<close> and codecs are a parameter
  (\<open>zswap_lib\<close>); randomness drawn by a spend is folded into it.
\<close>

record ('tok, 'nonce) coin =
  zc_type :: 'tok
  zc_value :: u128
  zc_nonce :: 'nonce
  zc_mt_index :: u64

record ('st, 'sk, 'tok, 'nonce, 'nul, 'inp) zswap_lib =
  zl_new :: 'st
  zl_coins :: "'st \<Rightarrow> ('nul \<times> ('tok, 'nonce) coin) list"
  zl_pending :: "'st \<Rightarrow> 'nul list"
  zl_first_free :: "'st \<Rightarrow> u64"
  zl_ser :: "'st \<Rightarrow> bytes option"
  zl_deser :: "bytes \<Rightarrow> 'st option"
  zl_tok_ser :: "'tok \<Rightarrow> bytes option"
  zl_tok_deser :: "bytes \<Rightarrow> 'tok option"
  zl_nonce_ser :: "'nonce \<Rightarrow> bytes option"
  zl_nonce_deser :: "bytes \<Rightarrow> 'nonce option"
  zl_nul_ser :: "'nul \<Rightarrow> bytes option"
  zl_keys :: "bytes \<Rightarrow> 'sk"
  zl_spend :: "'st \<Rightarrow> 'sk \<Rightarrow> ('tok, 'nonce) coin \<Rightarrow> ('st \<times> 'inp) option"
  zl_input_ser :: "'inp \<Rightarrow> bytes option"
  zl_input_randomness_ser :: "'inp \<Rightarrow> bytes option"
  zl_hash_order :: "(string \<times> u128) list \<Rightarrow> (string \<times> u128) list"
    \<comment> \<open>the iteration order of a \<open>HashMap\<close>\<close>

subsection \<open>FFI helpers\<close>

definition c_str_to_rust :: "string \<Rightarrow> string option" where
  "c_str_to_rust c = cstr_to_str c"

definition c_hex_to_bytes :: "hexlib \<Rightarrow> string \<Rightarrow> bytes option" where
  "c_hex_to_bytes hx c = do { hex_str \<leftarrow> c_str_to_rust c; hx_dec hx hex_str }"

definition c_hex_deserialize :: "hexlib \<Rightarrow> (bytes \<Rightarrow> 'a option) \<Rightarrow> string \<Rightarrow> 'a option" where
  "c_hex_deserialize hx deser c = do { bytes \<leftarrow> c_hex_to_bytes hx c; deser bytes }"

definition string_to_c_ptr :: "string \<Rightarrow> cptr" where
  "string_to_c_ptr s = cstring_new s"

subsection \<open>Lifecycle, counters and persistence\<close>

definition create_zswap_local_state ::
    "('st, 'sk, 'tok, 'nonce, 'nul, 'inp) zswap_lib \<Rightarrow> 'st heap \<Rightarrow> addr option \<times> 'st heap" where
  "create_zswap_local_state zl h = (let (a, h') = heap_alloc (Boxed (zl_new zl)) h in (Some a, h'))"

definition zswap_get_coin_count ::
    "('st, 'sk, 'tok, 'nonce, 'nul, 'inp) zswap_lib \<Rightarrow> 'st option \<Rightarrow> u32" where
  "zswap_get_coin_count zl state_ptr =
     (case state_ptr of None \<Rightarrow> 0 | Some state \<Rightarrow> of_nat (length (zl_coins zl state)))"

definition zswap_get_first_free ::
    "('st, 'sk, 'tok, 'nonce, 'nul, 'inp) zswap_lib \<Rightarrow> 'st option \<Rightarrow> u64" where
  "zswap_get_first_free zl state_ptr =
     (case state_ptr of None \<Rightarrow> 0 | Some state \<Rightarrow> zl_first_free zl state)"

definition zswap_serialize ::
    "hexlib \<Rightarrow> ('st, 'sk, 'tok, 'nonce, 'nul, 'inp) zswap_lib \<Rightarrow> 'st option \<Rightarrow> cptr" where
  "zswap_serialize hx zl state_ptr = do {
     state \<leftarrow> state_ptr;
     bytes \<leftarrow> zl_ser zl state;
     cstring_new (hx_enc hx bytes)
   }"

definition zswap_deserialize ::
    "hexlib \<Rightarrow> ('st, 'sk, 'tok, 'nonce, 'nul, 'inp) zswap_lib \<Rightarrow> cptr \<Rightarrow> 'st option" where
  "zswap_deserialize hx zl hex_ptr = do {
     hex_c \<leftarrow> hex_ptr;
     hex_str \<leftarrow> cstr_to_str hex_c;
     bytes \<leftarrow> hx_dec hx hex_str;
     zl_deser zl bytes
   }"

subsection \<open>Balances\<close>

fun sum_balances ::
    "hexlib \<Rightarrow> ('st, 'sk, 'tok, 'nonce, 'nul, 'inp) zswap_lib \<Rightarrow> ('nul \<times> ('tok, 'nonce) coin) list \<Rightarrow>
     (string \<times> u128) list \<Rightarrow> (string \<times> u128) list" where
  "sum_balances hx zl [] balances = balances"
| "sum_balances hx zl ((nul, coin) # coins) balances =
     (case zl_tok_ser zl (zc_type coin) of
        None \<Rightarrow> sum_balances hx zl coins balances
      | Some type_bytes \<Rightarrow>
          (let type_hex = hx_enc hx type_bytes;
               current = (case map_of balances type_hex of Some v \<Rightarrow> v | None \<Rightarrow> 0)
           in sum_balances hx zl coins (AList.update type_hex (sat_add current (zc_value coin)) balances)))"

definition balance_entry :: "string \<times> u128 \<Rightarrow> string" where
  \<open>balance_entry = (\<lambda>(type_hex, value). ''"'' @ type_hex @ ''":"'' @ show_word value @ ''"'')\<close>

definition zswap_get_balances ::
    "hexlib \<Rightarrow> ('st, 'sk, 'tok, 'nonce, 'nul, 'inp) zswap_lib \<Rightarrow> 'st option \<Rightarrow> cptr" where
  "zswap_get_balances hx zl state_ptr = do {
     state \<leftarrow> state_ptr;
     let balances = sum_balances hx zl (zl_coins zl state) [];
     cstring_new (''{'' @ str_join '','' (map balance_entry (zl_hash_order zl balances)) @ ''}'')
   }"

subsection \<open>Coin selection\<close>

definition pending_nullifiers ::
    "('st, 'sk, 'tok, 'nonce, 'nul, 'inp) zswap_lib \<Rightarrow> 'st \<Rightarrow> bytes set" where
  "pending_nullifiers zl state =
     set (List.map_filter (\<lambda>nul. zl_nul_ser zl nul) (zl_pending zl state))"

definition matching_coins ::
    "('st, 'sk, 'tok, 'nonce, 'nul, 'inp) zswap_lib \<Rightarrow> 'st \<Rightarrow> 'tok \<Rightarrow>
     (bytes \<times> ('tok, 'nonce) coin) list" where
  "matching_coins zl state token_type =
     List.map_filter (\<lambda>(nullifier, coin).
         if zc_type coin = token_type then
           (case zl_nul_ser zl nullifier of
              None \<Rightarrow> None
            | Some nul_bytes \<Rightarrow>
                if nul_bytes \<in> pending_nullifiers zl state then None else Some (nul_bytes, coin))
         else None)
       (zl_coins zl state)"

fun greedy_select ::
    "u128 \<Rightarrow> (bytes \<times> ('tok, 'nonce) coin) list \<Rightarrow> (bytes \<times> ('tok, 'nonce) coin) list \<times> u128 \<Rightarrow>
     (bytes \<times> ('tok, 'nonce) coin) list \<times> u128" where
  "greedy_select amount [] (selected, tot) = (selected, tot)"
| "greedy_select amount (c # cs) (selected, tot) =
     (let selected' = selected @ [c];
          tot' = sat_add tot (zc_value (snd c))
      in if tot' \<ge> amount then (selected', tot') else greedy_select amount cs (selected', tot'))"

definition select_coins ::
    "('st, 'sk, 'tok, 'nonce, 'nul, 'inp) zswap_lib \<Rightarrow> 'st \<Rightarrow> 'tok \<Rightarrow> u128 \<Rightarrow>
     (bytes \<times> ('tok, 'nonce) coin) list option" where
  "select_coins zl state token_type amount =
     (let coins = sort_key (\<lambda>c. zc_value (snd c)) (matching_coins zl state token_type);
          (selected, tot) = greedy_select amount coins ([], 0)
      in if tot < amount then None else Some selected)"

definition coin_entry ::
    "hexlib \<Rightarrow> ('st, 'sk, 'tok, 'nonce, 'nul, 'inp) zswap_lib \<Rightarrow>
     bytes \<times> ('tok, 'nonce) coin \<Rightarrow> string option" where
  \<open>coin_entry hx zl = (\<lambda>(nul_bytes, coin). do {
     type_bytes \<leftarrow> zl_tok_ser zl (zc_type coin);
     nonce_bytes \<leftarrow> zl_nonce_ser zl (zc_nonce coin);
     Some (''{"type_hex":"'' @ hx_enc hx type_bytes @ ''","value":"'' @ show_word (zc_value coin) @
       ''","nonce_hex":"'' @ hx_enc hx nonce_bytes @ ''","mt_index":'' @ show_word (zc_mt_index coin) @
       '',"nullifier_hex":"'' @ hx_enc hx nul_bytes @ ''"}'')
   })\<close>

definition zswap_select_coins ::
    "hexlib \<Rightarrow> ('st, 'sk, 'tok, 'nonce, 'nul, 'inp) zswap_lib \<Rightarrow> 'st option \<Rightarrow> cptr \<Rightarrow> cptr \<Rightarrow> cptr" where
  "zswap_select_coins hx zl state_ptr token_type_hex amount_str = do {
     state \<leftarrow> state_ptr; tok_c \<leftarrow> token_type_hex; amount_c \<leftarrow> amount_str;
     token_type \<leftarrow> c_hex_deserialize hx (zl_tok_deser zl) tok_c;
     amount_s \<leftarrow> c_str_to_rust amount_c;
     amount \<leftarrow> parse_u128 amount_s;
     selected \<leftarrow> select_coins zl state token_type amount;
     entries \<leftarrow> mapO (coin_entry hx zl) selected;
     string_to_c_ptr (''['' @ str_join '','' entries @ '']'')
   }"

subsection \<open>Spending a coin\<close>

datatype coin_error =
    InvalidJson | MissingField string | InvalidHex string | InvalidField string | InvalidValue

definition parse_qualified_coin_info ::
    "hexlib \<Rightarrow> json_lib \<Rightarrow> ('st, 'sk, 'tok, 'nonce, 'nul, 'inp) zswap_lib \<Rightarrow> string \<Rightarrow>
     coin_error + ('tok, 'nonce) coin" where
  "parse_qualified_coin_info hx jl zl json_str =
     bindE (ok_or InvalidJson (jl_parse jl json_str)) (\<lambda>v.
     bindE (ok_or (MissingField ''type_hex'') (Option.bind (jget ''type_hex'' v) as_str)) (\<lambda>type_hex.
     bindE (ok_or (MissingField ''value'') (Option.bind (jget ''value'' v) as_str)) (\<lambda>value_str.
     bindE (ok_or (MissingField ''nonce_hex'') (Option.bind (jget ''nonce_hex'' v) as_str)) (\<lambda>nonce_hex.
     bindE (ok_or (MissingField ''mt_index'') (Option.bind (jget ''mt_index'' v) as_u64)) (\<lambda>mt_index.
     bindE (ok_or (InvalidHex ''type'') (hx_dec hx type_hex)) (\<lambda>type_bytes.
     bindE (ok_or (InvalidField ''type'') (zl_tok_deser zl type_bytes)) (\<lambda>tok.
     bindE (ok_or (InvalidHex ''nonce'') (hx_dec hx nonce_hex)) (\<lambda>nonce_bytes.
     bindE (ok_or (InvalidField ''nonce'') (zl_nonce_deser zl nonce_bytes)) (\<lambda>nonce.
     bindE (ok_or InvalidValue (parse_u128 value_str)) (\<lambda>value.
     Inr \<lparr>zc_type = tok, zc_value = value, zc_nonce = nonce, zc_mt_index = mt_index\<rparr>))))))))))"

record 'st zswap_spend_result =
  zr_new_state :: "'st option"
  zr_result_json :: cptr

definition zswap_null_result :: "'st zswap_spend_result" where
  "zswap_null_result = \<lparr>zr_new_state = None, zr_result_json = None\<rparr>"

definition coin_exists ::
    "('st, 'sk, 'tok, 'nonce, 'nul, 'inp) zswap_lib \<Rightarrow> 'st \<Rightarrow> ('tok, 'nonce) coin \<Rightarrow> bool" where
  "coin_exists zl state coin \<longleftrightarrow>
     list_ex (\<lambda>(_, c). zc_mt_index c = zc_mt_index coin \<and> zc_value c = zc_value coin \<and>
                       zc_type c = zc_type coin) (zl_coins zl state)"

text \<open>The JSON text of a result; the two string fields are hex, so nothing needs escaping.\<close>

definition hex_pair_json :: "string \<Rightarrow> hexlib \<Rightarrow> bytes \<Rightarrow> bytes \<Rightarrow> string" where
  \<open>hex_pair_json name hx bytes br_bytes =
     ''{"'' @ name @ ''":"'' @ hx_enc hx bytes @ ''","binding_randomness_hex":"'' @ hx_enc hx br_bytes @ ''"}''\<close>

definition zswap_spend_coin ::
    "hexlib \<Rightarrow> json_lib \<Rightarrow> ('st, 'sk, 'tok, 'nonce, 'nul, 'inp) zswap_lib \<Rightarrow>
     'st option \<Rightarrow> bytes option \<Rightarrow> usize \<Rightarrow> cptr \<Rightarrow> 'st zswap_spend_result" where
  \<open>zswap_spend_coin hx jl zl state_ptr seed_ptr seed_len coin_json =
     (case do {
        state \<leftarrow> state_ptr; seed_mem \<leftarrow> seed_ptr; coin_c \<leftarrow> coin_json;
        assertO (seed_len = 32);
        let secret_keys = zl_keys zl (slice_from seed_mem seed_len);
        coin_str \<leftarrow> c_str_to_rust coin_c;
        coin \<leftarrow> res_ok (parse_qualified_coin_info hx jl zl coin_str);
        assertO (coin_exists zl state coin);
        (new_state, input) \<leftarrow> zl_spend zl state secret_keys coin;
        input_bytes \<leftarrow> zl_input_ser zl input;
        br_bytes \<leftarrow> zl_input_randomness_ser zl input;
        result_json \<leftarrow> string_to_c_ptr (hex_pair_json ''input_hex'' hx input_bytes br_bytes);
        Some (new_state, result_json)
      } of
        None \<Rightarrow> zswap_null_result
      | Some (new_state, result_json) \<Rightarrow>
          \<lparr>zr_new_state = Some new_state, zr_result_json = Some result_json\<rparr>)\<close>

subsection \<open>Balances are capped sums\<close>

definition type_sum ::
    "hexlib \<Rightarrow> ('st, 'sk, 'tok, 'nonce, 'nul, 'inp) zswap_lib \<Rightarrow> string \<Rightarrow>
     ('nul \<times> ('tok, 'nonce) coin) list \<Rightarrow> nat" where
  "type_sum hx zl type_hex coins =
     sum_list (map (\<lambda>(_, c). if map_option (hx_enc hx) (zl_tok_ser zl (zc_type c)) = Some type_hex
                            then unat (zc_value c) else 0) coins)"

definition held :: "string \<Rightarrow> (string \<times> u128) list \<Rightarrow> nat" where
  "held k balances = (case map_of balances k of None \<Rightarrow> 0 | Some v \<Rightarrow> unat v)"

lemma held_update:
  "held k (AList.update k' v bs) = (if k = k' then unat v else held k bs)"
  by (simp add: held_def update_conv')

lemma sum_balances_held:
  "held k bs \<le> 2 ^ 128 - 1 \<Longrightarrow>
   held k (sum_balances hx zl coins bs) = min (held k bs + type_sum hx zl k coins) (2 ^ 128 - 1)"
proof (induction hx zl coins bs rule: sum_balances.induct)
  case (2 hx zl nul coin coins bs)
  show ?case
  proof (cases "zl_tok_ser zl (zc_type coin)")
    case None
    with 2 show ?thesis by (simp add: type_sum_def)
  next
    case (Some tb)
    let ?cur = "case map_of bs (hx_enc hx tb) of Some v \<Rightarrow> v | None \<Rightarrow> 0"
    let ?bs = "AList.update (hx_enc hx tb) (sat_add ?cur (zc_value coin)) bs"
    have c: "unat ?cur = held (hx_enc hx tb) bs" by (simp add: held_def split: option.split)
    have h: "held k ?bs = (if hx_enc hx tb = k
        then min (held k bs + unat (zc_value coin)) (2 ^ 128 - 1) else held k bs)"
      using c by (auto simp: held_update unat_sat_add)
    with 2(3) have "held k ?bs \<le> 2 ^ 128 - 1" by simp
    from 2(2) [OF Some refl refl this] h Some show ?thesis
      by (auto simp: type_sum_def Let_def min_def)
  qed
qed (simp add: type_sum_def)

subsection \<open>Greedy selection\<close>

definition coin_sum :: "(bytes \<times> ('tok, 'nonce) coin) list \<Rightarrow> nat" where
  "coin_sum cs = sum_list (map (\<lambda>c. unat (zc_value (snd c))) cs)"

lemma coin_sum_simps [simp]:
  "coin_sum [] = 0" "coin_sum (c # cs) = unat (zc_value (snd c)) + coin_sum cs"
  "coin_sum (as @ bs) = coin_sum as + coin_sum bs"
  by (simp_all add: coin_sum_def)

lemma coin_sum_mset: "mset as = mset bs \<Longrightarrow> coin_sum as = coin_sum bs"
  unfolding coin_sum_def by (simp flip: sum_mset_sum_list)

lemma sat_total_ge:
  fixes t amount :: u128
  assumes "unat t = min n (2 ^ 128 - 1)"
  shows "amount \<le> t \<longleftrightarrow> unat amount \<le> n"
proof -
  have "unat amount \<le> 2 ^ 128 - 1" using unat_bound [of amount] by simp
  then have "unat amount \<le> min n (2 ^ 128 - 1) \<longleftrightarrow> unat amount \<le> n" by (simp only: min.bounded_iff simp_thms)
  then show ?thesis by (simp only: word_le_nat_alt assms)
qed

lemma greedy_spec:
  assumes "greedy_select amount cs (sel, t) = (sel', t')"
    and "unat t = min (coin_sum sel) (2 ^ 128 - 1)"
  shows "\<exists>k \<le> length cs. sel' = sel @ take k cs \<and> unat t' = min (coin_sum sel') (2 ^ 128 - 1) \<and>
    (\<forall>j < k. 0 < j \<longrightarrow> coin_sum (sel @ take j cs) < unat amount) \<and>
    (k = length cs \<or> (0 < k \<and> amount \<le> t'))"
  using assms
proof (induction cs arbitrary: sel t)
  case Nil
  then show ?case by simp
next
  case (Cons c cs)
  let ?sel = "sel @ [c]" and ?t = "sat_add t (zc_value (snd c))"
  have t: "unat ?t = min (coin_sum ?sel) (2 ^ 128 - 1)"
    using Cons.prems(2) by (simp add: unat_sat_add)
  show ?case
  proof (cases "?t \<ge> amount")
    case True
    with Cons.prems t show ?thesis by (intro exI [of _ 1]) auto
  next
    case False
    with Cons.prems(1) have "greedy_select amount cs (?sel, ?t) = (sel', t')" by (simp add: Let_def)
    from Cons.IH [OF this t] obtain k where k: "k \<le> length cs" "sel' = ?sel @ take k cs"
      "unat t' = min (coin_sum sel') (2 ^ 128 - 1)"
      "\<forall>j < k. 0 < j \<longrightarrow> coin_sum (?sel @ take j cs) < unat amount"
      "k = length cs \<or> (0 < k \<and> amount \<le> t')" by blast
    have first: "coin_sum ?sel < unat amount" using False sat_total_ge [OF t] by simp
    have "coin_sum (sel @ take j (c # cs)) < unat amount" if "j < Suc k" "0 < j" for j
    proof (cases "j = 1")
      case True
      then show ?thesis using first by simp
    next
      case False
      with that obtain i where i: "j = Suc i" "0 < i" "i < k" by (cases j) auto
      from k(4) i show ?thesis by simp
    qed
    with k show ?thesis by (intro exI [of _ "Suc k"]) auto
  qed
qed

lemma select_coins_prefix:
  fixes zl st tok amount
  defines "cs \<equiv> sort_key (\<lambda>c. zc_value (snd c)) (matching_coins zl st tok)"
  shows "(select_coins zl st tok amount = None \<longleftrightarrow> coin_sum cs < unat amount) \<and>
    (\<forall>sel. select_coins zl st tok amount = Some sel \<longrightarrow>
      (\<exists>k \<le> length cs. sel = take k cs \<and> unat amount \<le> coin_sum sel \<and>
        (\<forall>j < k. 0 < j \<longrightarrow> coin_sum (take j cs) < unat amount)))"
proof -
  obtain sel t where g: "greedy_select amount cs ([], 0) = (sel, t)" by fastforce
  from greedy_spec [OF g] obtain k where k: "k \<le> length cs" "sel = take k cs"
    "unat t = min (coin_sum sel) (2 ^ 128 - 1)"
    "\<forall>j < k. 0 < j \<longrightarrow> coin_sum (take j cs) < unat amount"
    "k = length cs \<or> (0 < k \<and> amount \<le> t)" by auto
  have r: "select_coins zl st tok amount = (if t < amount then None else Some sel)"
    using g by (simp add: select_coins_def cs_def)
  have ge: "amount \<le> t \<longleftrightarrow> unat amount \<le> coin_sum sel" by (rule sat_total_ge [OF k(3)])
  have "coin_sum cs = coin_sum sel + coin_sum (drop k cs)"
    using k(2) coin_sum_simps(3) [of "take k cs" "drop k cs"] by simp
  then have le: "coin_sum sel \<le> coin_sum cs" by simp
  have n: "select_coins zl st tok amount = None \<longleftrightarrow> coin_sum cs < unat amount"
  proof (cases "amount \<le> t")
    case True
    then have "select_coins zl st tok amount \<noteq> None" using r by (simp add: not_less)
    moreover have "\<not> coin_sum cs < unat amount" using True ge le by linarith
    ultimately show ?thesis by blast
  next
    case False
    with k(2,5) have "sel = cs" by simp
    with False ge r show ?thesis by (simp add: not_le)
  qed
  show ?thesis
  proof (intro conjI allI impI n)
    fix s assume "select_coins zl st tok amount = Some s"
    then have "s = sel" "amount \<le> t" using r by (simp_all split: if_splits)
    with k ge show "\<exists>k \<le> length cs. s = take k cs \<and> unat amount \<le> coin_sum s \<and>
        (\<forall>j < k. 0 < j \<longrightarrow> coin_sum (take j cs) < unat amount)" by blast
  qed
qed

lemma matching_coins_facts:
  assumes "(n, c) \<in> set (matching_coins zl st tok)"
  shows "zc_type c = tok" and "n \<notin> pending_nullifiers zl st"
    and "\<exists>nul. (nul, c) \<in> set (zl_coins zl st) \<and> zl_nul_ser zl nul = Some n"
  using assms
  by (auto simp: matching_coins_def in_map_filter split: if_splits option.splits)

subsection \<open>A concrete wallet\<close>

definition demo_zswap_lib ::
    "((u8 \<times> (u8, u8) coin) list \<times> u8 list, bytes, u8, u8, u8, u8) zswap_lib" where
  "demo_zswap_lib = \<lparr>zl_new = ([], []), zl_coins = fst, zl_pending = snd, zl_first_free = (\<lambda>s. 0),
     zl_ser = (\<lambda>s. Some []), zl_deser = (\<lambda>b. None), zl_tok_ser = (\<lambda>t. Some [t]),
     zl_tok_deser = (\<lambda>b. case b of [t] \<Rightarrow> Some t | _ \<Rightarrow> None), zl_nonce_ser = (\<lambda>n. Some [n]),
     zl_nonce_deser = (\<lambda>b. case b of [t] \<Rightarrow> Some t | _ \<Rightarrow> None), zl_nul_ser = (\<lambda>n. Some [n]),
     zl_keys = (\<lambda>b. b), zl_spend = (\<lambda>st k c. Some ((fst st, 9 # snd st), zc_nonce c)),
     zl_input_ser = (\<lambda>i. Some [i]), zl_input_randomness_ser = (\<lambda>i. Some [i, i]),
     zl_hash_order = (\<lambda>l. l)\<rparr>"

definition demo_coins :: "(u8 \<times> (u8, u8) coin) list \<times> u8 list" where
  "demo_coins = ([(1, \<lparr>zc_type = 0, zc_value = 50, zc_nonce = 3, zc_mt_index = 4\<rparr>),
     (2, \<lparr>zc_type = 0, zc_value = 20, zc_nonce = 5, zc_mt_index = 6\<rparr>),
     (3, \<lparr>zc_type = 0, zc_value = 10, zc_nonce = 7, zc_mt_index = 8\<rparr>),
     (9, \<lparr>zc_type = 0, zc_value = 1, zc_nonce = 9, zc_mt_index = 9\<rparr>)], [9])"

definition demo_coin_json :: json_lib where
  "demo_coin_json = \<lparr>jl_parse = (\<lambda>s. Some (JObject [(''type_hex'', JString ''00''),
     (''value'', JString (show_word (20::u128))), (''nonce_hex'', JString ''05''), (''mt_index'', json_u64 6)])),
     jl_print = (\<lambda>v. [])\<rparr>"

subsection \<open>Properties\<close>

lemma select_coins_sound:
  assumes "select_coins zl st tok amount = Some sel"
  shows "unat amount \<le> coin_sum sel \<and> mset sel \<subseteq># mset (matching_coins zl st tok) \<and>
    sorted (map (\<lambda>c. zc_value (snd c)) sel) \<and>
    (1 < length sel \<longrightarrow> coin_sum (butlast sel) < unat amount) \<and>
    (\<forall>(n, c) \<in> set sel. zc_type c = tok \<and> n \<notin> pending_nullifiers zl st \<and>
       (\<exists>nul. (nul, c) \<in> set (zl_coins zl st) \<and> zl_nul_ser zl nul = Some n))"
proof -
  let ?cs = "sort_key (\<lambda>c. zc_value (snd c)) (matching_coins zl st tok)"
  obtain k where k: "k \<le> length ?cs" "sel = take k ?cs" "unat amount \<le> coin_sum sel"
    "\<forall>j < k. 0 < j \<longrightarrow> coin_sum (take j ?cs) < unat amount"
    using select_coins_prefix [of zl st tok amount] assms by blast
  have ms: "mset sel \<subseteq># mset (matching_coins zl st tok)"
  proof -
    have "mset (take k ?cs) + mset (drop k ?cs) = mset (matching_coins zl st tok)"
      by (simp flip: mset_append)
    then show ?thesis unfolding k(2) by (metis mset_subset_eq_add_left)
  qed
  have "sorted (map (\<lambda>c. zc_value (snd c)) (take k ?cs))"
    by (simp flip: take_map add: sorted_wrt_take)
  then have so: "sorted (map (\<lambda>c. zc_value (snd c)) sel)" by (simp only: k(2))
  have bl: "coin_sum (butlast sel) < unat amount" if "1 < length sel"
  proof -
    have kl: "length sel = k" using k(1,2) by simp
    then have "butlast sel = take (k - 1) ?cs" using k(2) by (simp add: butlast_take)
    then show ?thesis using k(4) that kl by simp
  qed
  have "set sel \<subseteq> set (matching_coins zl st tok)" using ms by (metis set_mset_mono set_mset_mset)
  then have "\<forall>(n, c) \<in> set sel. zc_type c = tok \<and> n \<notin> pending_nullifiers zl st \<and>
       (\<exists>nul. (nul, c) \<in> set (zl_coins zl st) \<and> zl_nul_ser zl nul = Some n)"
    using matching_coins_facts [of _ _ zl st tok] by blast
  with k(3) ms so bl show ?thesis by blast
qed

lemma select_coins_complete:
  "select_coins zl st tok amount = None \<longleftrightarrow> coin_sum (matching_coins zl st tok) < unat amount"
  using select_coins_prefix [of zl st tok amount]
    coin_sum_mset [of "sort_key (\<lambda>c. zc_value (snd c)) (matching_coins zl st tok)" "matching_coins zl st tok"]
  by simp

text \<open>
  C18. Coin selection is complete and sound. It fails exactly when all the spendable coins of the type
  together are worth less than the amount, although totals saturate at \<open>u128::MAX\<close>. A selection
  takes only coins of the requested type that the wallet holds and that are not pending, each at
  most once, in ascending order of value; together they cover the amount; and without its last coin
  a selection of more than one coin would not.
\<close>

theorem select_coins_correct:
  "case select_coins zl st tok amount of
     None \<Rightarrow> coin_sum (matching_coins zl st tok) < unat amount
   | Some sel \<Rightarrow> unat amount \<le> coin_sum (matching_coins zl st tok) \<and>
       unat amount \<le> coin_sum sel \<and> mset sel \<subseteq># mset (matching_coins zl st tok) \<and>
       sorted (map (\<lambda>c. zc_value (snd c)) sel) \<and>
       (length sel \<le> 1 \<or> coin_sum (butlast sel) < unat amount) \<and>
       (set sel \<subseteq> {(n, c). zc_type c = tok \<and> n \<notin> pending_nullifiers zl st \<and>
          (\<exists>nul. (nul, c) \<in> set (zl_coins zl st) \<and> zl_nul_ser zl nul = Some n)})"
  (is "case ?r of None \<Rightarrow> ?short | Some sel \<Rightarrow> ?enough \<and> ?good sel")
proof (cases ?r)
  case None
  then show ?thesis using select_coins_complete [of zl st tok amount] by simp
next
  case (Some sel)
  then have ?enough using select_coins_complete [of zl st tok amount] by simp
  moreover have "?good sel" using select_coins_sound [OF Some] by auto
  ultimately show ?thesis using Some by simp
qed

text \<open>
  The balance \<open>zswap_get_balances\<close> sums for a token type is the sum of the values of the
  coins whose serialised type has that hex, capped at \<open>u128::MAX\<close>, whatever the order of the coins.
\<close>

theorem balances_are_capped_sums:
  "held k (sum_balances hx zl coins []) = min (type_sum hx zl k coins) (2 ^ 128 - 1)"
  using sum_balances_held [of k "[]" hx zl coins] by (simp add: held_def)

text \<open>
  The two fields of a spend result agree: \<open>zswap_spend_coin\<close> either returns null in both or
  returns the new state together with its JSON, and it returns them only for a coin of the wallet's
  own list (same Merkle index, value and type) that the ledger accepted.
\<close>

theorem spend_result_consistent:
  "(zr_new_state (zswap_spend_coin hx jl zl sp sd sl cj) = None \<longleftrightarrow>
      zr_result_json (zswap_spend_coin hx jl zl sp sd sl cj) = None) \<and>
   (zr_new_state (zswap_spend_coin hx jl zl sp sd sl cj) = Some st' \<longrightarrow>
      (\<exists>st coin inp seed. sp = Some st \<and> sl = 32 \<and> sd = Some seed \<and> coin_exists zl st coin \<and>
        zl_spend zl st (zl_keys zl (slice_from seed 32)) coin = Some (st', inp)))"
proof (rule conjI)
  show "zr_new_state (zswap_spend_coin hx jl zl sp sd sl cj) = None \<longleftrightarrow>
      zr_result_json (zswap_spend_coin hx jl zl sp sd sl cj) = None"
    by (simp add: zswap_spend_coin_def zswap_null_result_def split: option.split prod.split)
  show "zr_new_state (zswap_spend_coin hx jl zl sp sd sl cj) = Some st' \<longrightarrow>
      (\<exists>st coin inp seed. sp = Some st \<and> sl = 32 \<and> sd = Some seed \<and> coin_exists zl st coin \<and>
        zl_spend zl st (zl_keys zl (slice_from seed 32)) coin = Some (st', inp))"
  proof
    assume "zr_new_state (zswap_spend_coin hx jl zl sp sd sl cj) = Some st'"
    then obtain rj where "do {
        state \<leftarrow> sp; seed_mem \<leftarrow> sd; coin_c \<leftarrow> cj;
        assertO (sl = 32);
        let secret_keys = zl_keys zl (slice_from seed_mem sl);
        coin_str \<leftarrow> c_str_to_rust coin_c;
        coin \<leftarrow> res_ok (parse_qualified_coin_info hx jl zl coin_str);
        assertO (coin_exists zl state coin);
        (new_state, input) \<leftarrow> zl_spend zl state secret_keys coin;
        input_bytes \<leftarrow> zl_input_ser zl input;
        br_bytes \<leftarrow> zl_input_randomness_ser zl input;
        result_json \<leftarrow> string_to_c_ptr (hex_pair_json ''input_hex'' hx input_bytes br_bytes);
        Some (new_state, result_json) } = Some (st', rj)"
      unfolding zswap_spend_coin_def zswap_null_result_def
      by (auto split: option.splits)
    then show "\<exists>st coin inp seed. sp = Some st \<and> sl = 32 \<and> sd = Some seed \<and> coin_exists zl st coin \<and>
        zl_spend zl st (zl_keys zl (slice_from seed 32)) coin = Some (st', inp)"
      by (clarsimp simp: bind_eq_Some_conv assertO_eq_Some Let_def) blast
  qed
qed

lemma demo_parse: "parse_qualified_coin_info ref_hex demo_coin_json demo_zswap_lib s =
    Inr \<lparr>zc_type = 0, zc_value = 20, zc_nonce = 5, zc_mt_index = 6\<rparr>"
proof -
  have "hx_dec ref_hex ''00'' = Some [0]" "hx_dec ref_hex ''05'' = Some [5]" by code_simp+
  then show ?thesis
    by (simp add: parse_qualified_coin_info_def demo_coin_json_def demo_zswap_lib_def)
qed

lemma demo_exists:
  "coin_exists demo_zswap_lib demo_coins \<lparr>zc_type = 0, zc_value = 20, zc_nonce = 5, zc_mt_index = 6\<rparr>"
  by code_simp

lemma hex_pair_cstring:
  assumes "hex_ok hx" and "CHR 0x00 \<notin> set name"
  shows "cstring_new (hex_pair_json name hx a b) = Some (hex_pair_json name hx a b)"
  using assms hex_enc_plain(1) [OF assms(1)] by (simp add: cstring_new_eq_Some hex_pair_json_def)

theorem spend_result_consistent_witness:
  "\<exists>st'. zr_new_state (zswap_spend_coin ref_hex demo_coin_json demo_zswap_lib
      (Some demo_coins) (Some (replicate 32 0)) 32 (Some ''x'')) = Some st' \<and>
     (\<exists>coin. coin_exists demo_zswap_lib demo_coins coin)"
proof -
  have "zr_new_state (zswap_spend_coin ref_hex demo_coin_json demo_zswap_lib
      (Some demo_coins) (Some (replicate 32 0)) 32 (Some ''x'')) = Some (fst demo_coins, [9, 9])"
    by (simp add: zswap_spend_coin_def demo_parse demo_exists c_str_to_rust_def cstr_to_str_ascii is_ascii_def
        string_to_c_ptr_def hex_pair_cstring ref_hex_ok) (simp add: demo_zswap_lib_def demo_coins_def)
  with spend_result_consistent [of ref_hex demo_coin_json demo_zswap_lib "Some demo_coins"
      "Some (replicate 32 0)" 32 "Some ''x''" "(fst demo_coins, [9, 9])"]
  show ?thesis by auto
qed

end
