(* ===== verification/Proving.thy ===== *)
theory Proving
  imports ZswapWallet
begin

text \<open>
  Local proving (\<open>prove_ffi.rs\<close>): the size of the prover's thread pool, the resolver that finds
  proving keys and parameters among a transaction's own keys and the files of a directory, and the
  entry point that proves a transaction. Paths are Unix paths; the file system is a function from
  paths. Proving itself is the ledger's (a parameter that is given the resolver's two functions).
\<close>

subsection \<open>The thread pool\<close>

text \<open>\<open>Once\<close> and rayon's global pool: built at most once, by this call or by an earlier user.\<close>

record rayon =
  ry_once :: bool
  ry_threads :: "usize option"

definition pool_threads :: "usize \<Rightarrow> usize" where
  "pool_threads cores = max (sat_sub cores 1) 1"

text \<open>\<open>cores\<close> is \<open>None\<close> when the system does not tell.\<close>

definition init_proving_thread_pool :: "usize option \<Rightarrow> rayon \<Rightarrow> rayon" where
  "init_proving_thread_pool available ry =
     (if ry_once ry then ry
      else let cores = (case available of Some n \<Rightarrow> n | None \<Rightarrow> 1) in
        ry\<lparr>ry_once := True,
           ry_threads := (case ry_threads ry of Some t \<Rightarrow> Some t | None \<Rightarrow> Some (pool_threads cores))\<rparr>)"

text \<open>Loading the library does it too (and starts the logger).\<close>

definition kuira_crypto_init :: "usize option \<Rightarrow> rayon \<Rightarrow> rayon" where
  "kuira_crypto_init available ry = init_proving_thread_pool available ry"

lemma init_pool_idempotent:
  "init_proving_thread_pool b (init_proving_thread_pool a ry) = init_proving_thread_pool a ry"
  by (simp add: init_proving_thread_pool_def Let_def)

lemma pool_threads_bounds: "1 \<le> unat (pool_threads cores) \<and> (2 \<le> unat cores \<longrightarrow> unat (pool_threads cores) = unat cores - 1)"
  by (auto simp: pool_threads_def max_def unat_sat_sub word_le_nat_alt)

subsection \<open>Paths\<close>

definition path_join :: "string \<Rightarrow> string \<Rightarrow> string" where
  "path_join base rel =
     (if rel \<noteq> [] \<and> hd rel = CHR ''/'' then rel
      else if base = [] \<or> last base = CHR ''/'' then base @ rel
      else base @ ''/'' @ rel)"

text \<open>Trailing separators and \<open>.\<close> components are not part of the file name; on the reversed path.\<close>

fun strip_tail :: "string \<Rightarrow> string" where
  "strip_tail (c # r) =
     (if c = CHR ''/'' then strip_tail r
      else case r of d # r' \<Rightarrow> if c = CHR ''.'' \<and> d = CHR ''/'' then strip_tail r' else c # r
           | [] \<Rightarrow> c # r)"
| "strip_tail [] = []"

definition file_stem :: "string \<Rightarrow> string" where
  "file_stem name =
     (let before = rev (drop 1 (dropWhile (\<lambda>c. c \<noteq> CHR ''.'') (rev name)))
      in if before = [] then name else before)"

definition with_extension :: "string \<Rightarrow> string \<Rightarrow> string" where
  "with_extension path ext =
     (let r = strip_tail (rev path);
          name = rev (takeWhile (\<lambda>c. c \<noteq> CHR ''/'') r);
          dir = rev (dropWhile (\<lambda>c. c \<noteq> CHR ''/'') r)
      in if name = [] \<or> name = ''.'' \<or> name = ''..'' then path
         else dir @ file_stem name @ ''.'' @ ext)"

definition strip_prefix :: "string \<Rightarrow> string \<Rightarrow> string" where
  "strip_prefix pre s = (if take (length pre) s = pre then drop (length pre) s else s)"

lemma strip_tail_plain:
  "path \<noteq> [] \<Longrightarrow> last path \<noteq> CHR ''/'' \<Longrightarrow> last path \<noteq> CHR ''.'' \<Longrightarrow> strip_tail (rev path) = rev path"
  by (cases path rule: rev_cases) (auto split: list.split)

lemma file_stem_plain: "CHR ''.'' \<notin> set name \<Longrightarrow> file_stem name = name"
proof -
  assume "CHR ''.'' \<notin> set name"
  then have none: "dropWhile (\<lambda>c. c \<noteq> CHR ''.'') (rev name) = []" by (auto simp: dropWhile_eq_Nil_conv)
  show ?thesis unfolding file_stem_def none by simp
qed

lemma with_extension_plain:
  assumes "name \<noteq> []" and "CHR ''/'' \<notin> set name" and "CHR ''.'' \<notin> set name"
    and "dir = [] \<or> last dir = CHR ''/''"
  shows "with_extension (dir @ name) ext = dir @ name @ ''.'' @ ext"
proof -
  have "last name \<in> set name" using assms(1) by simp
  then have "last name \<noteq> CHR ''/''" "last name \<noteq> CHR ''.''" using assms(2,3) by metis+
  then have "strip_tail (rev (dir @ name)) = rev name @ rev dir"
    using assms(1) by (subst strip_tail_plain) simp_all
  moreover have "takeWhile (\<lambda>c. c \<noteq> CHR ''/'') (rev name @ rev dir) = rev name"
  proof -
    have "takeWhile (\<lambda>c. c \<noteq> CHR ''/'') (rev dir) = []"
      using assms(4) by (cases dir rule: rev_cases) auto
    then show ?thesis using assms(2) by (simp add: takeWhile_append)
  qed
  moreover have "dropWhile (\<lambda>c. c \<noteq> CHR ''/'') (rev name @ rev dir) = rev dir"
    using calculation(2) by (metis append_same_eq append_eq_append_conv takeWhile_dropWhile_id)
  moreover have "name \<noteq> ''.''" "name \<noteq> ''..''" using assms(3) by auto
  ultimately show ?thesis
    using assms(1,3) by (simp add: with_extension_def Let_def file_stem_plain)
qed

subsection \<open>The resolver\<close>

datatype disk_entry = Missing | Unreadable | File bytes

datatype io_error = ReadFailed string | ParamsMissing string | ParamsInvalid

record key_material =
  km_prover :: bytes
  km_verifier :: bytes
  km_ir :: bytes

record resolver =
  rs_keys_dir :: string
  rs_tx_keys :: "(string \<times> key_material) list"

definition path_exists :: "(string \<Rightarrow> disk_entry) \<Rightarrow> string \<Rightarrow> bool" where
  "path_exists fs path \<longleftrightarrow> fs path \<noteq> Missing"

definition read_file :: "(string \<Rightarrow> disk_entry) \<Rightarrow> string \<Rightarrow> io_error + bytes" where
  "read_file fs path = (case fs path of File b \<Rightarrow> Inr b | _ \<Rightarrow> Inl (ReadFailed path))"

definition resolve_key :: "(string \<Rightarrow> disk_entry) \<Rightarrow> resolver \<Rightarrow> string \<Rightarrow> io_error + key_material option" where
  "resolve_key fs rs key_name =
     (case map_of (rs_tx_keys rs) key_name of
        Some km \<Rightarrow> Inr (Some km)
      | None \<Rightarrow>
          (let rel_path = strip_prefix ''midnight/'' key_name;
               base = path_join (rs_keys_dir rs) rel_path;
               prover_path = with_extension base ''prover'';
               verifier_path = with_extension base ''verifier'';
               ir_path = with_extension base ''bzkir'' in
           if \<not> path_exists fs prover_path \<or> \<not> path_exists fs verifier_path \<or> \<not> path_exists fs ir_path
           then Inr None
           else
             bindE (read_file fs prover_path) (\<lambda>prover_key.
             bindE (read_file fs verifier_path) (\<lambda>verifier_key.
             bindE (read_file fs ir_path) (\<lambda>ir_source.
             Inr (Some \<lparr>km_prover = prover_key, km_verifier = verifier_key, km_ir = ir_source\<rparr>))))))"

definition get_params ::
    "(bytes \<Rightarrow> 'params option) \<Rightarrow> (string \<Rightarrow> disk_entry) \<Rightarrow> resolver \<Rightarrow> u8 \<Rightarrow> io_error + 'params" where
  "get_params params_read fs rs k =
     (let path = path_join (rs_keys_dir rs) (''bls_midnight_2p'' @ show_word k) in
      if \<not> path_exists fs path then Inl (ParamsMissing path)
      else bindE (read_file fs path) (\<lambda>bs. ok_or ParamsInvalid (params_read bs)))"

text \<open>A key location such as \<open>midnight/zswap/spend\<close>: no dots, and a last component.\<close>

definition plain_location :: "string \<Rightarrow> bool" where
  "plain_location loc \<longleftrightarrow> loc \<noteq> [] \<and> hd loc \<noteq> CHR ''/'' \<and> last loc \<noteq> CHR ''/'' \<and> CHR ''.'' \<notin> set loc"

lemma split_last_component:
  assumes "loc \<noteq> []" and "last loc \<noteq> CHR ''/''"
  obtains dir name where "loc = dir @ name" "name \<noteq> []" "CHR ''/'' \<notin> set name" "dir = [] \<or> last dir = CHR ''/''"
proof
  let ?n = "takeWhile (\<lambda>c. c \<noteq> CHR ''/'') (rev loc)" and ?d = "dropWhile (\<lambda>c. c \<noteq> CHR ''/'') (rev loc)"
  show "loc = rev ?d @ rev ?n" by (metis rev_append rev_rev_ident takeWhile_dropWhile_id)
  show "rev ?n \<noteq> []" using assms by (cases loc rule: rev_cases) auto
  show "CHR ''/'' \<notin> set (rev ?n)" by (auto dest: set_takeWhileD)
  show "rev ?d = [] \<or> last (rev ?d) = CHR ''/''"
    using hd_dropWhile [of "\<lambda>c. c \<noteq> CHR ''/''" "rev loc"] by (auto simp: last_rev)
qed

lemma location_path:
  assumes "plain_location loc" and "keys_dir \<noteq> []" and "last keys_dir \<noteq> CHR ''/''"
  shows "with_extension (path_join keys_dir loc) ext = keys_dir @ ''/'' @ loc @ ''.'' @ ext"
proof -
  obtain dir name where d: "loc = dir @ name" "name \<noteq> []" "CHR ''/'' \<notin> set name" "dir = [] \<or> last dir = CHR ''/''"
    using assms(1) split_last_component unfolding plain_location_def by metis
  have "with_extension ((keys_dir @ ''/'' @ dir) @ name) ext = (keys_dir @ ''/'' @ dir) @ name @ ''.'' @ ext"
    using assms(1) d by (intro with_extension_plain) (auto simp: plain_location_def)
  then show ?thesis using assms d(1) by (simp add: path_join_def plain_location_def)
qed

lemma strip_prefix_append: "strip_prefix pre (pre @ s) = s"
  by (simp add: strip_prefix_def)

text \<open>C30. A key the transaction brings wins, whatever the disk holds. Otherwise the key
  \<open>midnight/<location>\<close> is made of the files \<open><keys_dir>/<location>.prover\<close>, \<open>.verifier\<close> and
  \<open>.bzkir\<close>: absent (not an error) when one of the three is missing, an error only when one cannot
  be read, and else their contents, each in its own place.\<close>

theorem resolver_loads_named_files:
  assumes loc: "plain_location loc" and dir: "rs_keys_dir rs \<noteq> []" "last (rs_keys_dir rs) \<noteq> CHR ''/''"
  shows "resolve_key fs rs (''midnight/'' @ loc) =
    (let f = (\<lambda>ext. fs (rs_keys_dir rs @ ''/'' @ loc @ ''.'' @ ext)) in
     case map_of (rs_tx_keys rs) (''midnight/'' @ loc) of
       Some km \<Rightarrow> Inr (Some km)
     | None \<Rightarrow>
         if f ''prover'' = Missing \<or> f ''verifier'' = Missing \<or> f ''bzkir'' = Missing then Inr None
         else (case (f ''prover'', f ''verifier'', f ''bzkir'') of
                 (File p, File v, File i) \<Rightarrow> Inr (Some \<lparr>km_prover = p, km_verifier = v, km_ir = i\<rparr>)
               | (File p, File v, _) \<Rightarrow> Inl (ReadFailed (rs_keys_dir rs @ ''/'' @ loc @ ''.'' @ ''bzkir''))
               | (File p, _, _) \<Rightarrow> Inl (ReadFailed (rs_keys_dir rs @ ''/'' @ loc @ ''.'' @ ''verifier''))
               | _ \<Rightarrow> Inl (ReadFailed (rs_keys_dir rs @ ''/'' @ loc @ ''.'' @ ''prover''))))"
  unfolding resolve_key_def Let_def strip_prefix_append location_path [OF loc dir] path_exists_def read_file_def
  by (simp split: option.split disk_entry.split)

definition demo_fs :: "string \<Rightarrow> disk_entry" where
  "demo_fs p = (if p = ''/keys/zswap/spend.prover'' then File [1]
     else if p = ''/keys/zswap/spend.verifier'' then File [2]
     else if p = ''/keys/zswap/spend.bzkir'' then File [3] else Missing)"

theorem resolver_loads_named_files_witness:
  "resolve_key demo_fs \<lparr>rs_keys_dir = ''/keys'', rs_tx_keys = []\<rparr> (''midnight/'' @ ''zswap/spend'') =
     Inr (Some \<lparr>km_prover = [1], km_verifier = [2], km_ir = [3]\<rparr>)"
  by (subst resolver_loads_named_files) (simp_all add: plain_location_def demo_fs_def Let_def)

subsection \<open>Proving a transaction\<close>

text \<open>\<open>tx.prove(provider, cost_model)\<close> is given the resolver's two functions.\<close>

record ('tx, 'ptx, 'params) prove_lib =
  pr_deser :: "bytes \<Rightarrow> ('tx \<times> (string \<times> key_material) list) option"
  pr_params_read :: "bytes \<Rightarrow> 'params option"
  pr_prove :: "(string \<Rightarrow> io_error + key_material option) \<Rightarrow> (u8 \<Rightarrow> io_error + 'params) \<Rightarrow> 'tx \<Rightarrow> 'ptx option"
  pr_ser :: "'ptx \<Rightarrow> bytes option"

definition prove_local ::
    "hexlib \<Rightarrow> ('tx, 'ptx, 'params) prove_lib \<Rightarrow> (string \<Rightarrow> disk_entry) \<Rightarrow> bool \<Rightarrow> string \<Rightarrow> string \<Rightarrow> cptr" where
  "prove_local hx pr fs runtime_ok unproven_tx_hex keys_dir = do {
     keys_path \<leftarrow> c_str_to_rust keys_dir;
     tx_bytes \<leftarrow> c_hex_to_bytes hx unproven_tx_hex;
     (tx, tx_keys) \<leftarrow> pr_deser pr tx_bytes;
     let rs = \<lparr>rs_keys_dir = keys_path, rs_tx_keys = tx_keys\<rparr>;
     assertO runtime_ok;
     proven_tx \<leftarrow> pr_prove pr (resolve_key fs rs) (get_params (pr_params_read pr) fs rs) tx;
     result_bytes \<leftarrow> pr_ser pr proven_tx;
     string_to_c_ptr (hx_enc hx result_bytes)
   }"

definition zkir_prove_transaction_local ::
    "hexlib \<Rightarrow> ('tx, 'ptx, 'params) prove_lib \<Rightarrow> (string \<Rightarrow> disk_entry) \<Rightarrow> usize option \<Rightarrow> bool \<Rightarrow> cptr \<Rightarrow> cptr \<Rightarrow>
     rayon \<Rightarrow> cptr \<times> rayon" where
  "zkir_prove_transaction_local hx pr fs cores runtime_ok unproven_tx_hex keys_dir ry =
     (case (unproven_tx_hex, keys_dir) of
        (Some tx_hex, Some dir) \<Rightarrow>
          (prove_local hx pr fs runtime_ok tx_hex dir, init_proving_thread_pool cores ry)
      | _ \<Rightarrow> (None, ry))"

lemma prove_needs_bytes:
  "hex_ok hx \<Longrightarrow> fst (zkir_prove_transaction_local hx pr fs cores ok (Some (hx_enc hx b)) (Some dir) ry) = Some out \<Longrightarrow>
   \<exists>tx keys ptx ob. pr_deser pr b = Some (tx, keys) \<and>
     pr_prove pr (resolve_key fs \<lparr>rs_keys_dir = dir, rs_tx_keys = keys\<rparr>)
       (get_params (pr_params_read pr) fs \<lparr>rs_keys_dir = dir, rs_tx_keys = keys\<rparr>) tx = Some ptx \<and>
     pr_ser pr ptx = Some ob \<and> out = hx_enc hx ob"
  by (auto simp: zkir_prove_transaction_local_def prove_local_def bind_eq_Some_conv c_hex_to_bytes_def
      c_str_to_rust_def cstr_to_str_ascii hex_enc_plain hex_dec_enc string_to_c_ptr_def hex_enc_cstring
      Let_def assertO_eq_Some split: prod.splits dest!: cstr_to_str_Some)

end
