(* ===== verification/LocalBalancing.thy ===== *)
theory LocalBalancing
  imports Balance Proving
begin

text \<open>
  The balancer together with the local prover it runs: \<open>balance_proven_transaction\<close> proves its
  dust transaction in process, with the resolver of \<open>prove_ffi.rs\<close> over the keys directory and no
  keys of its own, after capping the thread pool. What the balanced transaction then contains.
\<close>

definition local_prover ::
    "('utx, 'ptx, 'params) prove_lib \<Rightarrow> (string \<Rightarrow> disk_entry) \<Rightarrow> string \<Rightarrow> 'utx \<Rightarrow> 'ptx option" where
  "local_prover pr fs keys_path dust_tx =
     (let res = \<lparr>rs_keys_dir = keys_path, rs_tx_keys = []\<rparr>
      in pr_prove pr (resolve_key fs res) (get_params (pr_params_read pr) fs res) dust_tx)"

text \<open>The call as the process sees it: the reply, the caller's state and the thread pool.\<close>

definition balance_in_process ::
    "hexlib \<Rightarrow> ('st, 'sk, 'utxo, 'spend, 'nul) dust_lib \<Rightarrow>
     ('ptx, 'etx, 'utx, 'stx, 'par, 'spend, 'reg, 'bind, 'offer, 'act) balance_lib \<Rightarrow>
     ('utx, 'ptx, 'params) prove_lib \<Rightarrow> (string \<Rightarrow> disk_entry) \<Rightarrow> usize option \<Rightarrow>
     cptr \<Rightarrow> 'st option \<Rightarrow> bytes option \<Rightarrow> usize \<Rightarrow> cptr \<Rightarrow> i64 \<Rightarrow> cptr \<Rightarrow> cptr \<Rightarrow> cptr \<Rightarrow> i64 \<Rightarrow> rayon \<Rightarrow>
     (cptr \<times> 'st option) \<times> rayon" where
  "balance_in_process hx dl bl pr fs cores proven_tx_hex dust_state_ptr seed_ptr seed_len
       ledger_params_hex current_time_ms keys_dir network_id exclude_nullifiers_hex ttl_anchor_ms ry =
     (balance_proven_transaction hx dl (bl\<lparr>bl_prove := local_prover pr fs\<rparr>) proven_tx_hex
        dust_state_ptr seed_ptr seed_len ledger_params_hex current_time_ms keys_dir network_id
        exclude_nullifiers_hex ttl_anchor_ms,
      if proven_tx_hex \<noteq> None \<and> dust_state_ptr \<noteq> None \<and> seed_ptr \<noteq> None \<and> ledger_params_hex \<noteq> None \<and>
        keys_dir \<noteq> None \<and> network_id \<noteq> None \<and> seed_len = 32
      then init_proving_thread_pool cores ry else ry)"

text \<open>Once the library is loaded no call changes the size of the pool.\<close>

lemma balance_keeps_pool:
  "snd (balance_in_process hx dl bl pr fs cores a st sd sl p t k n e ta (kuira_crypto_init c ry)) =
     kuira_crypto_init c ry"
  by (simp add: balance_in_process_def kuira_crypto_init_def init_pool_idempotent)

lemma prove_keeps_pool:
  "snd (zkir_prove_transaction_local hx pr fs cores ok a k (kuira_crypto_init c ry)) = kuira_crypto_init c ry"
  by (simp add: zkir_prove_transaction_local_def kuira_crypto_init_def init_pool_idempotent split: option.split)

subsection \<open>What a balanced transaction contains\<close>

text \<open>The fees a ledger computes are far below 128 bits (the whole supply is below 2^120).\<close>

definition fees_small ::
    "('ptx, 'etx, 'utx, 'stx, 'par, 'spend, 'reg, 'bind, 'offer, 'act) balance_lib \<Rightarrow> bool" where
  "fees_small bl \<longleftrightarrow> (\<forall>tx par m f. bl_fees bl tx par m = Some f \<longrightarrow> unat f < 2 ^ 120)"

lemma prove_seal_merge_ok:
  assumes "prove_seal_merge hx (bl\<lparr>bl_prove := local_prover pr fs\<rparr>) keys ptx dtx = Inr h"
  shows "\<exists>pd stx b. local_prover pr fs keys dtx = Some pd \<and>
    bl_merge bl (bl_seal bl 0 ptx) (bl_seal bl 1 pd) = Some stx \<and> bl_ser_sealed bl stx = Some b \<and> h = hx_enc hx b"
  using assms by (auto simp: prove_seal_merge_def resE Let_def)

lemma dust_tx_any_prover:
  "build_dust_fee_intent_tx (bl\<lparr>bl_prove := f\<rparr>) = build_dust_fee_intent_tx bl"
  by (intro ext) (simp add: build_dust_fee_intent_tx_def)

lemma decode_any_prover:
  "decode_ledger_params (bl\<lparr>bl_prove := f\<rparr>) = decode_ledger_params bl"
  by (intro ext) (simp add: decode_ledger_params_def split: option.split)

lemma size_and_select_parts:
  assumes "size_and_select hx dl bl st seed params base ct ta net excl = Inr (dtx, st', ns)"
  shows "\<exists>ts draft d_st d_ns dfee sps. secs_checked ct = Some ts \<and>
    select_dust_spends hx dl st (dl_derive dl seed) base ts excl = Inr (d_st, draft, d_ns) \<and>
    (let ttl = ttl_anchor ta ts + dust_intent_ttl_window_secs (bl_global_ttl bl params) in
     bl_fees bl (bl_erase_unproven bl (build_dust_fee_intent_tx bl 0 draft ts ttl net)) params
       DEFAULT_FEE_BLOCKS_MARGIN = Some dfee \<and>
     dtx = build_dust_fee_intent_tx bl 1 sps ts ttl net) \<and>
    select_dust_spends hx dl st (dl_derive dl seed) (merged_total_fee base dfee) ts excl = Inr (st', sps, ns)"
  using assms by (auto simp: size_and_select_def resE Let_def)


definition demo_prove_lib :: "(bytes, bytes, unit) prove_lib" where
  "demo_prove_lib = \<lparr>pr_deser = (\<lambda>b. Some (b, [])), pr_params_read = (\<lambda>b. Some ()),
     pr_prove = (\<lambda>key par t. case key ''midnight/zswap/spend'' of
        Inr (Some km) \<Rightarrow> Some (km_prover km @ t) | _ \<Rightarrow> None), pr_ser = Some\<rparr>"

definition demo_priced_lib ::
    "(bytes, bytes, bytes, bytes, int, u8, unit, unit, unit, unit) balance_lib" where
  "demo_priced_lib = demo_balance_lib\<lparr>bl_fees := (\<lambda>t p m. if length t < 100 then Some (10 * of_nat (length t)) else None)\<rparr>"

lemma demo_priced_fees: "fees_small demo_priced_lib"
  unfolding fees_small_def
proof (intro allI impI)
  fix tx par m f
  assume "bl_fees demo_priced_lib tx par m = Some f"
  then have n: "length tx < 100" and f: "f = of_nat (10 * length tx)"
    by (simp_all add: demo_priced_lib_def demo_balance_lib_def split: if_splits)
  have "unat f = 10 * length tx" unfolding f using n
    by (simp add: unsigned_of_nat take_bit_nat_eq_self del: of_nat_mult)
  then show "unat f < 2 ^ 120" using n by simp
qed

lemma demo_balanced:
  "balance_proven_transaction_impl ref_hex demo_dust_lib
     (demo_priced_lib\<lparr>bl_prove := local_prover demo_prove_lib demo_fs\<rparr>) ''aabb'' [(1, 5), (2, 500)]
     (replicate 32 0) ''00'' 5000 ''/keys'' ''n'' {} 0 = Inr (''aabb0102'', [(1, 5)], [''0202''])"
  by code_simp


end
