(* ===== verification/ContractValue.thy ===== *)
theory ContractValue
  imports LedgerTypes Json "HOL-Library.List_Lexorder" "HOL-Library.Char_ord"
begin

unbundle bit_operations_syntax

text \<open>
  Values at the contract boundary (\<open>contract_ffi.rs\<close>): aligned values and alignments parsed
  from JSON, state trees built from descriptors and read back as JSON, the tag-first re-emission of
  JSON, persistent hashes and commitments, and big integers. \<open>ValueAtom\<close> is a byte list; of the
  ledger's \<open>StateValue\<close> the source distinguishes three variants, the rest is \<open>SVOther\<close>.
\<close>

subsection \<open>The ledger's value types\<close>

datatype align_atom = AField | ABytes u32 | ACompress

datatype align_seg = SegAtom align_atom | SegOption "align_seg list list"

record aligned_value =
  av_value :: "bytes list"
  av_alignment :: "align_seg list"

datatype state_value = SVNull | SVCell aligned_value | SVArray "state_value list" | SVOther

text \<open>Indexing \<open>v["k"]\<close> gives \<open>null\<close> for what is not there.\<close>

definition jidx :: "json \<Rightarrow> string \<Rightarrow> json" where
  "jidx v k = (case jget k v of Some w \<Rightarrow> w | None \<Rightarrow> JNull)"

datatype cv_error =
    MissingTag | MissingAtomTag | UnknownAtom | MissingLength | LengthRange | OptionValue
  | OptionItem | UnknownSegment | MissingValue | MissingAlignment
  | TooDeep | ArrayNotArray nat | Unsupported nat

subsection \<open>Alignments\<close>

definition parse_alignment_atom :: "json \<Rightarrow> cv_error + align_atom" where
  "parse_alignment_atom atom_val =
     bindE (ok_or MissingAtomTag (as_str (jidx atom_val ''tag''))) (\<lambda>atom_tag.
     if atom_tag = ''field'' then Inr AField
     else if atom_tag = ''bytes'' then
       bindE (ok_or MissingLength (as_u64 (jidx atom_val ''length''))) (\<lambda>len.
       bindE (guardE (unat len < 2 ^ 32) LengthRange) (\<lambda>_. Inr (ABytes (ucast len))))
     else if atom_tag = ''compress'' then Inr ACompress
     else Inl UnknownAtom)"

lemma mapE_cong [fundef_cong]:
  "xs = ys \<Longrightarrow> (\<And>x. x \<in> set ys \<Longrightarrow> f x = g x) \<Longrightarrow> mapE f xs = mapE g ys"
  by (induction ys arbitrary: xs) (auto split: sum.splits)

lemma bindE_cong [fundef_cong]:
  "m = n \<Longrightarrow> (\<And>x. n = Inr x \<Longrightarrow> f x = g x) \<Longrightarrow> bindE m f = bindE n g"
  by (cases n) auto

lemma size_in_list: "x \<in> set xs \<Longrightarrow> size x < size (JArray xs)"
  by (induction xs) auto

lemma size_in_array: "as_array v = Some xs \<Longrightarrow> x \<in> set xs \<Longrightarrow> size x < size v"
  using size_in_list by (auto simp: as_array_Some)

lemma size_in_entries: "(k, w) \<in> set kvs \<Longrightarrow> size w < size (JObject kvs)"
  by (induction kvs) auto

lemma size_jidx: "size (jidx v k) \<le> size v"
proof (cases v)
  case (JObject kvs)
  show ?thesis
  proof (cases "map_of kvs k")
    case (Some w)
    then have "(k, w) \<in> set kvs" by (rule map_of_SomeD)
    then have "size w < size v"
      unfolding JObject by (rule size_in_entries)
    then show ?thesis using Some JObject by (simp add: jidx_def)
  qed (simp add: jidx_def JObject)
qed (simp_all add: jidx_def jget_def)

function parse_alignment_segment :: "json \<Rightarrow> cv_error + align_seg" where
  "parse_alignment_segment v =
     bindE (ok_or MissingTag (as_str (jidx v ''tag''))) (\<lambda>tag.
     if tag = ''atom'' then
       bindE (parse_alignment_atom (jidx v ''value'')) (\<lambda>atom. Inr (SegAtom atom))
     else if tag = ''option'' then
       bindE (ok_or OptionValue (as_array (jidx v ''value''))) (\<lambda>items.
       bindE (mapE (\<lambda>item.
         bindE (ok_or OptionItem (as_array item)) (\<lambda>segs_arr.
         mapE (\<lambda>s. parse_alignment_segment s) segs_arr)) items) (\<lambda>aligns.
       Inr (SegOption aligns)))
     else Inl UnknownSegment)"
  by pat_completeness auto
termination
proof (relation "measure size", simp)
  fix v tag items item segs_arr s
  assume "ok_or OptionValue (as_array (jidx v ''value'')) = Inr items" "item \<in> set items"
    "ok_or OptionItem (as_array item) = Inr segs_arr" "s \<in> set segs_arr"
  then have "size item < size (jidx v ''value'')" "size s < size item"
    by (auto simp: ok_or_eq_Inr intro: size_in_array)
  then show "(s, v) \<in> measure size" using size_jidx [of v "''value''"] by simp
qed

declare parse_alignment_segment.simps [simp del]

subsection \<open>Aligned values\<close>

text \<open>Malformed bytes count as 0, a malformed atom as empty; an atom longer than its
  \<open>Bytes(n)\<close> alignment is cut to \<open>n\<close>, atoms past the alignment are left alone.\<close>

definition parse_atom :: "json \<Rightarrow> bytes" where
  "parse_atom v =
     map (\<lambda>b. (let n = (case as_u64 b of Some n \<Rightarrow> n | None \<Rightarrow> 0) in
               if unat n < 256 then ucast n else 0))
       (case as_array v of Some xs \<Rightarrow> xs | None \<Rightarrow> [])"

definition truncate_atom :: "bytes \<Rightarrow> align_seg \<Rightarrow> bytes" where
  "truncate_atom atom seg =
     (case seg of
        SegAtom (ABytes len) \<Rightarrow> if length atom > unat len then take (unat len) atom else atom
      | _ \<Rightarrow> atom)"

definition parse_aligned_value :: "json \<Rightarrow> cv_error + aligned_value" where
  "parse_aligned_value v =
     bindE (ok_or MissingValue (as_array (jidx v ''value''))) (\<lambda>value_arr.
     let value_atoms = map parse_atom value_arr in
     bindE (ok_or MissingAlignment (as_array (jidx v ''alignment''))) (\<lambda>align_arr.
     bindE (mapE parse_alignment_segment align_arr) (\<lambda>segments.
     let padded = segments @ replicate (length value_atoms) (SegAtom AField);
         truncated_atoms = map2 truncate_atom value_atoms padded
     in Inr \<lparr>av_value = truncated_atoms, av_alignment = segments\<rparr>)))"

subsection \<open>State trees from descriptors\<close>

function build_state_recursive :: "json \<Rightarrow> nat \<Rightarrow> cv_error + state_value" where
  "build_state_recursive desc depth =
     (if depth > 4 then Inl TooDeep
      else case desc of
        JNull \<Rightarrow> Inr SVNull
      | JObject obj \<Rightarrow>
          (case map_of obj ''array'' of
             Some (JArray arr) \<Rightarrow>
               bindE (mapE (\<lambda>item. build_state_recursive item (depth + 1)) (take (min (length arr) 64) arr))
                 (\<lambda>built. Inr (SVArray built))
           | Some _ \<Rightarrow> Inl (ArrayNotArray depth)
           | None \<Rightarrow> Inl (Unsupported depth))
      | JNumber n \<Rightarrow>
          (let count = min (case as_u64 desc of Some c \<Rightarrow> unat c | None \<Rightarrow> 0) 64
           in Inr (SVArray (replicate count SVNull)))
      | _ \<Rightarrow> Inl (Unsupported depth))"
  by pat_completeness auto
termination
proof (relation "measure (\<lambda>(d, n). size d)", simp)
  fix desc :: json and depth obj v arr item
  assume "desc = JObject obj" "map_of obj ''array'' = Some v" "v = JArray arr"
    "item \<in> set (take (min (length arr) 64) arr)"
  then have item: "item \<in> set arr" and entry: "(''array'', v) \<in> set obj"
    by (auto dest: map_of_SomeD in_set_takeD)
  have "size item < size v" using size_in_list [OF item] by (simp only: \<open>v = JArray arr\<close>)
  moreover have "size v < size desc" using size_in_entries [OF entry] by (simp only: \<open>desc = JObject obj\<close>)
  ultimately show "((item, depth + 1), desc, depth) \<in> measure (\<lambda>(d, n). size d)" by simp
qed

declare build_state_recursive.simps [simp del]

definition build_state_from_descriptor :: "json \<Rightarrow> cv_error + state_value" where
  "build_state_from_descriptor desc = build_state_recursive desc 0"

text \<open>Trees of nulls at most \<open>n\<close> arrays deep, at most 64 wide.\<close>

fun null_tree :: "nat \<Rightarrow> state_value \<Rightarrow> bool" where
  "null_tree n SVNull = True"
| "null_tree n (SVArray xs) = (0 < n \<and> length xs \<le> 64 \<and> (\<forall>x \<in> set xs. null_tree (n - 1) x))"
| "null_tree n _ = False"

fun null_slots :: "state_value \<Rightarrow> nat" where
  "null_slots (SVArray xs) = sum_list (map null_slots xs)"
| "null_slots _ = 1"

lemma null_tree_slots: "null_tree n sv \<Longrightarrow> null_slots sv \<le> 64 ^ n"
proof (induction n sv rule: null_tree.induct)
  case (2 n xs)
  then have each: "\<forall>x \<in> set xs. null_slots x \<le> 64 ^ (n - 1)" and len: "length xs \<le> 64" and "0 < n"
    by auto
  have "sum_list (map null_slots xs) \<le> length xs * 64 ^ (n - 1)"
    using each by (induction xs) auto
  also have "\<dots> \<le> 64 * 64 ^ (n - 1)" using len by (rule mult_le_mono1)
  also have "\<dots> = 64 ^ n" using \<open>0 < n\<close> by (cases n) simp_all
  finally show ?case by simp
qed simp_all

lemma build_state_null_tree:
  "build_state_recursive desc depth = Inr sv \<Longrightarrow> null_tree (5 - depth) sv"
proof (induction desc depth arbitrary: sv rule: build_state_recursive.induct)
  case (1 desc depth)
  have deep: "\<not> depth > 4" and ok: "build_state_recursive desc depth = Inr sv"
    using 1(2) by (auto simp: build_state_recursive.simps split: if_splits)
  show ?case
  proof (cases desc)
    case (JObject obj)
    with ok deep obtain arr built where arr: "map_of obj ''array'' = Some (JArray arr)"
      and built: "mapE (\<lambda>item. build_state_recursive item (depth + 1)) (take (min (length arr) 64) arr) = Inr built"
      and sv: "sv = SVArray built"
      by (subst (asm) build_state_recursive.simps) (auto simp: resE split: option.splits json.splits)
    have "null_tree (5 - (depth + 1)) y" if "y \<in> set built" for y
      using mapE_set [OF built that] 1(1) [OF deep JObject arr refl] by blast
    moreover have "length built \<le> 64" using mapE_length [OF built] by simp
    ultimately show ?thesis using deep by (simp add: sv)
  qed (use ok deep in \<open>auto simp: build_state_recursive.simps Let_def\<close>)
qed

text \<open>C32. A descriptor, however nested, allocates a bounded tree: it is refused, or it gives
  nulls under at most five levels of arrays, none wider than 64.\<close>

theorem build_state_bounded:
  assumes "build_state_from_descriptor desc = Inr sv"
  shows "null_tree 5 sv \<and> null_slots sv \<le> 64 ^ 5"
proof -
  have "null_tree 5 sv"
    using build_state_null_tree [OF assms [unfolded build_state_from_descriptor_def]] by simp
  then show ?thesis by (blast intro: null_tree_slots)
qed

theorem build_state_bounded_witness:
  "null_tree 5 (SVArray [SVNull, SVArray [SVNull, SVNull]]) \<and>
   null_slots (SVArray [SVNull, SVArray [SVNull, SVNull]]) \<le> 64 ^ 5"
  by (rule build_state_bounded [of "JObject [(''array'', JArray [JNull, json_u64 2])]"])
    code_simp

subsection \<open>State trees as JSON\<close>

text \<open>
  A cell shows its bytes in hex, as text when they are printable ASCII (or are so after a leading
  \<open>0x01\<close>), and as a little-endian number when that fits an \<open>i64\<close>. An object keeps its keys in
  order, as the library's map does.
\<close>

definition printable :: "bytes \<Rightarrow> bool" where
  "printable bs \<longleftrightarrow> bs \<noteq> [] \<and> utf8_ok (map unat bs) \<and> list_all (\<lambda>b. 32 \<le> b \<and> b \<le> 126) bs"

definition bytes_text :: "bytes \<Rightarrow> string" where
  "bytes_text bs = map (\<lambda>b. char_of (unat b)) bs"

text \<open>\<open>n |= (byte as u128) << (8 * i)\<close> over the first 16 bytes.\<close>

fun or_bytes :: "nat \<Rightarrow> u128 \<Rightarrow> bytes \<Rightarrow> u128" where
  "or_bytes i n [] = n"
| "or_bytes i n (b # bs) = or_bytes (i + 1) (n OR (push_bit (8 * i) (ucast b))) bs"

definition low_u128 :: "bytes \<Rightarrow> u128" where
  "low_u128 bs = or_bytes 0 0 (take 16 bs)"

definition cell_text :: "bytes \<Rightarrow> string option" where
  "cell_text bs =
     (if printable bs then Some (bytes_text bs)
      else if length bs > 1 \<and> bs ! 0 = 1 \<and> printable (drop 1 bs) then Some (bytes_text (drop 1 bs))
      else None)"

definition cell_number :: "bytes \<Rightarrow> i64 option" where
  "cell_number bs =
     (let is_small = length bs \<le> 16 \<or> list_all (\<lambda>x. x = 0) (drop 16 bs) in
      if is_small \<and> bs \<noteq> [] then
        (let n = low_u128 bs in if n \<le> 9223372036854775807 then Some (ucast n) else None)
      else None)"

definition cell_json :: "hexlib \<Rightarrow> aligned_value \<Rightarrow> json" where
  "cell_json hx aligned =
     (let bytes = concat (av_value aligned) in
      JObject ([(''hex'', JString (hx_enc hx bytes))]
        @ (case cell_number bytes of Some n \<Rightarrow> [(''number'', json_i64 n)] | None \<Rightarrow> [])
        @ (case cell_text bytes of Some t \<Rightarrow> [(''text'', JString t)] | None \<Rightarrow> [])
        @ [(''type'', JString ''cell'')]))"

fun state_value_to_json :: "hexlib \<Rightarrow> state_value \<Rightarrow> json" where
  "state_value_to_json hx SVNull = JNull"
| "state_value_to_json hx (SVCell aligned) = cell_json hx aligned"
| "state_value_to_json hx (SVArray items) = JArray (map (state_value_to_json hx) items)"
| "state_value_to_json hx SVOther = JObject [(''type'', JString ''unknown'')]"

lemma or_push_byte:
  fixes n :: u128
  assumes "unat n < 256 ^ i" and "i < 16"
  shows "unat (n OR push_bit (8 * i) (ucast (b::u8))) = unat n + 256 ^ i * unat b"
proof -
  have b: "unat b < 256" by (rule unat_u8)
  have "256 ^ i * unat b < 256 ^ i * 256" using b by simp
  also have "\<dots> = 256 ^ Suc i" by simp
  also have "\<dots> \<le> (256::nat) ^ 16" using assms(2) by (intro power_increasing) auto
  finally have fits: "256 ^ i * unat b < (2::nat) ^ 128" by simp
  have pow: "(2::nat) ^ (8 * i) = 256 ^ i" by (simp add: power_mult)
  have ub: "unat (ucast b :: u128) = unat b"
    by (simp add: unsigned_ucast_eq take_bit_nat_eq_self [OF less_trans [OF b]])
  have s: "unat (push_bit (8 * i) (ucast b :: u128)) = push_bit (8 * i) (unat b)"
  proof -
    have "push_bit (8 * i) (unat b) < 2 ^ 128"
      using fits by (simp only: push_bit_eq_mult pow mult.commute [of "unat b"])
    then show ?thesis by (simp only: unsigned_push_bit_eq ub) (simp add: take_bit_nat_eq_self)
  qed
  have "unat n = take_bit (8 * i) (unat n)"
    using assms(1) by (simp add: take_bit_nat_eq_self pow)
  then have "unat n OR push_bit (8 * i) (unat b) = unat n + push_bit (8 * i) (unat b)"
    by (metis concat_bit_eq concat_bit_def nat_int of_nat_add of_nat_or_eq of_nat_push_bit of_nat_take_bit)
  then show ?thesis
    by (simp only: unsigned_or_eq s) (simp only: push_bit_eq_mult pow mult.commute [of "unat b"])
qed

lemma or_bytes_val:
  "unat n < 256 ^ i \<Longrightarrow> i + length bs \<le> 16 \<Longrightarrow>
   unat (or_bytes i n bs) = unat n + 256 ^ i * le_val bs"
proof (induction bs arbitrary: i n)
  case (Cons b bs)
  let ?n = "n OR push_bit (8 * i) (ucast b) :: u128"
  have n: "unat ?n = unat n + 256 ^ i * unat b" using Cons.prems by (intro or_push_byte) auto
  have "256 ^ i * unat b \<le> 256 ^ i * 255" using unat_u8 [of b] by simp
  then have "unat n + 256 ^ i * unat b < 256 ^ i + 256 ^ i * 255"
    using Cons.prems(1) by (rule add_less_le_mono [rotated])
  then have "unat ?n < 256 ^ (i + 1)" unfolding n by simp
  with Cons.IH [of ?n "i + 1"] Cons.prems(2)
  have "unat (or_bytes (i + 1) ?n bs) = unat ?n + 256 ^ (i + 1) * le_val bs" by simp
  then show ?case unfolding or_bytes.simps n by (simp add: algebra_simps)
qed simp

lemma low_u128_val: "unat (low_u128 bs) = le_val (take 16 bs)"
  using or_bytes_val [of 0 0 "take 16 bs"] by (simp add: low_u128_def)

lemma le_val_zeros: "list_all (\<lambda>x. x = 0) bs \<Longrightarrow> le_val bs = 0"
  by (induction bs) auto

lemma le_val_take_drop: "le_val bs = le_val (take 16 bs) + 256 ^ 16 * le_val (drop 16 bs)"
proof (cases "length bs \<le> 16")
  case False
  then show ?thesis using le_val_append [of "take 16 bs" "drop 16 bs"] by simp
qed simp

text \<open>The \<open>number\<close> shown for a cell is exactly the little-endian value of all its bytes; it is
  left out only for an empty cell, or when bytes past the sixteenth are set, or above \<open>i64::MAX\<close>.\<close>

theorem cell_number_exact:
  "map_option sint (cell_number bs) =
     (if bs \<noteq> [] \<and> le_val bs < 2 ^ 63 then Some (int (le_val bs)) else None)"
proof (cases "bs \<noteq> [] \<and> (length bs \<le> 16 \<or> list_all (\<lambda>x. x = 0) (drop 16 bs))")
  case True
  then have all: "le_val bs = unat (low_u128 bs)"
    using le_val_take_drop [of bs] le_val_zeros by (auto simp: low_u128_val)
  have le: "low_u128 bs \<le> 9223372036854775807 \<longleftrightarrow> le_val bs < 2 ^ 63"
    by (simp add: word_le_nat_alt all) linarith
  have "sint (ucast (low_u128 bs) :: i64) = int (le_val bs)" if "le_val bs < 2 ^ 63"
  proof -
    have "uint (low_u128 bs) = int (le_val bs)" by (simp add: all)
    then have "uint (ucast (low_u128 bs) :: i64) = int (le_val bs)"
      using that by (simp add: unsigned_ucast_eq take_bit_int_eq_self)
    then show ?thesis
      using that unfolding sint_uint by (simp add: signed_take_bit_int_eq_self)
  qed
  with True le show ?thesis by (auto simp: cell_number_def Let_def)
next
  case False
  have "2 ^ 63 \<le> le_val bs" if ne: "bs \<noteq> []"
  proof -
    from False ne have "\<not> list_all (\<lambda>x. x = 0) (drop 16 bs)" by simp
    moreover have "le_val xs = 0 \<Longrightarrow> list_all (\<lambda>x. x = 0) xs" for xs
      by (induction xs) (auto simp: unat_eq_0)
    ultimately have "1 \<le> le_val (drop 16 bs)" by (meson less_one not_le)
    then have "256 ^ 16 * 1 \<le> 256 ^ 16 * le_val (drop 16 bs)" by (rule mult_le_mono2)
    then show ?thesis using le_val_take_drop [of bs] by simp
  qed
  with False show ?thesis by (auto simp: cell_number_def)
qed

text \<open>An aligned value is read to its alignment: as many atoms as the JSON has, each the bytes
  given, cut to \<open>n\<close> exactly where its segment is \<open>Bytes(n)\<close>.\<close>

theorem parse_aligned_exact:
  assumes "parse_aligned_value v = Inr av" and "as_array (jidx v ''value'') = Some atoms"
    and "i < length atoms"
  shows "length (av_value av) = length atoms \<and>
    av_value av ! i =
      (if i < length (av_alignment av)
       then (case av_alignment av ! i of
               SegAtom (ABytes n) \<Rightarrow> take (unat n) (parse_atom (atoms ! i))
             | _ \<Rightarrow> parse_atom (atoms ! i))
       else parse_atom (atoms ! i))"
  using assms
  by (auto simp: parse_aligned_value_def resE Let_def truncate_atom_def nth_append
      split: align_seg.splits align_atom.splits)

definition demo_aligned :: json where
  "demo_aligned = JObject
     [(''alignment'', JArray [JObject [(''tag'', JString ''atom''),
        (''value'', JObject [(''length'', JNumber (PosInt 1)), (''tag'', JString ''bytes'')])]]),
      (''value'', JArray [JArray [JNumber (PosInt 7), JNumber (PosInt 0)], JArray [JNumber (PosInt 5)]])]"

theorem parse_aligned_exact_witness:
  "length [[7], [5::u8]] = length [JArray [JNumber (PosInt 7), JNumber (PosInt 0)], JArray [JNumber (PosInt 5)]] \<and>
   [[7], [5::u8]] ! 0 = take 1 (parse_atom (JArray [JNumber (PosInt 7), JNumber (PosInt 0)]))"
  using parse_aligned_exact [of demo_aligned
      "\<lparr>av_value = [[7], [5]], av_alignment = [SegAtom (ABytes 1)]\<rparr>"
      "[JArray [JNumber (PosInt 7), JNumber (PosInt 0)], JArray [JNumber (PosInt 5)]]" 0]
  by (simp add: demo_aligned_def jidx_def parse_aligned_value_def parse_alignment_segment.simps
      parse_alignment_atom_def parse_atom_def truncate_atom_def Let_def)

subsection \<open>JSON with the tag first\<close>

text \<open>Iterating an object visits its keys in byte order.\<close>

definition btree_entries :: "(string \<times> json) list \<Rightarrow> (string \<times> json) list" where
  "btree_entries kvs = sort_by (\<lambda>a b. fst a \<le> fst b) kvs"

lemma set_btree_entries [simp]: "set (btree_entries kvs) = set kvs"
  by (simp add: btree_entries_def)

lemma map_of_insert_by: "map_of (insert_by (\<lambda>a b. fst a \<le> fst b) (k, v) ys) = (map_of ys)(k \<mapsto> v)"
  for k :: "'a::linorder"
  by (induction ys) auto

lemma map_of_btree_entries: "map_of (btree_entries kvs) = map_of kvs"
  unfolding btree_entries_def by (induction kvs) (auto simp: map_of_insert_by)

definition quoted_tag :: string where
  "quoted_tag = [CHR 0x22] @ ''tag'' @ [CHR 0x22]"

function to_tag_first_json :: "json_lib \<Rightarrow> json \<Rightarrow> string" where
  "to_tag_first_json jl v =
     (case v of
        JObject entries \<Rightarrow>
          (let parts =
             (case map_of entries ''tag'' of
                Some tag \<Rightarrow> [quoted_tag @ '':'' @ to_tag_first_json jl tag] | None \<Rightarrow> [])
             @ map (\<lambda>e. jl_print jl (JString (fst e)) @ '':'' @ to_tag_first_json jl (snd e))
                 (filter (\<lambda>e. fst e \<noteq> ''tag'') (btree_entries entries))
           in ''{'' @ str_join '','' parts @ ''}'')
      | JArray arr \<Rightarrow> ''['' @ str_join '','' (map (\<lambda>w. to_tag_first_json jl w) arr) @ '']''
      | other \<Rightarrow> jl_print jl other)"
  by pat_completeness auto
termination
  by (relation "measure (\<lambda>(jl, v). size v)")
    (auto simp del: json.size dest!: map_of_SomeD intro: size_in_entries size_in_list)

declare to_tag_first_json.simps [simp del]

function tag_first :: "json \<Rightarrow> json" where
  "tag_first v =
     (case v of
        JObject entries \<Rightarrow> JObject
          ((case map_of entries ''tag'' of Some tag \<Rightarrow> [(''tag'', tag_first tag)] | None \<Rightarrow> [])
           @ map (\<lambda>e. (fst e, tag_first (snd e)))
               (filter (\<lambda>e. fst e \<noteq> ''tag'') (btree_entries entries)))
      | JArray arr \<Rightarrow> JArray (map (\<lambda>w. tag_first w) arr)
      | other \<Rightarrow> other)"
  by pat_completeness auto
termination
  by (relation "measure size")
    (auto simp del: json.size dest!: map_of_SomeD intro: size_in_entries size_in_list)

declare tag_first.simps [simp del]

text \<open>A JSON document, its members in the order written; leaves are printed by the library.\<close>

function json_text :: "json_lib \<Rightarrow> json \<Rightarrow> string" where
  "json_text jl v =
     (case v of
        JObject members \<Rightarrow>
          ''{'' @ str_join '',''
            (map (\<lambda>e. jl_print jl (JString (fst e)) @ '':'' @ json_text jl (snd e)) members) @ ''}''
      | JArray arr \<Rightarrow> ''['' @ str_join '','' (map (\<lambda>w. json_text jl w) arr) @ '']''
      | other \<Rightarrow> jl_print jl other)"
  by pat_completeness auto
termination
  by (relation "measure (\<lambda>(jl, v). size v)")
    (auto simp del: json.size intro: size_in_entries size_in_list)

declare json_text.simps [simp del]

lemma map_of_map_filter:
  "map_of (map (\<lambda>e. (fst e, f (snd e))) (filter (\<lambda>e. fst e \<noteq> t) kvs)) k =
     (if k = t then None else map_option f (map_of kvs k))"
  by (induction kvs) auto

lemma jget_tag_first: "jget k (tag_first v) = map_option tag_first (jget k v)"
proof (cases v)
  case (JObject kvs)
  then show ?thesis
    by (subst tag_first.simps) (auto simp: map_of_map_filter map_of_btree_entries split: option.splits)
qed (subst tag_first.simps, simp add: jget_def)+

lemma json_leaves [simp]:
  "tag_first JNull = JNull" "tag_first (JBool b) = JBool b"
  "tag_first (JNumber n) = JNumber n" "tag_first (JString s) = JString s"
  "json_text jl JNull = jl_print jl JNull" "json_text jl (JBool b) = jl_print jl (JBool b)"
  "json_text jl (JNumber n) = jl_print jl (JNumber n)" "json_text jl (JString s) = jl_print jl (JString s)"
  "to_tag_first_json jl JNull = jl_print jl JNull"
  "to_tag_first_json jl (JBool b) = jl_print jl (JBool b)"
  "to_tag_first_json jl (JNumber n) = jl_print jl (JNumber n)"
  "to_tag_first_json jl (JString s) = jl_print jl (JString s)"
  by (simp_all add: tag_first.simps [of JNull] tag_first.simps [of "JBool b"] tag_first.simps [of "JNumber n"]
      tag_first.simps [of "JString s"] json_text.simps [of jl JNull] json_text.simps [of jl "JBool b"]
      json_text.simps [of jl "JNumber n"] json_text.simps [of jl "JString s"]
      to_tag_first_json.simps [of jl JNull] to_tag_first_json.simps [of jl "JBool b"]
      to_tag_first_json.simps [of jl "JNumber n"] to_tag_first_json.simps [of jl "JString s"])

lemma to_tag_first_text:
  assumes tag: "jl_print jl (JString ''tag'') = quoted_tag"
  shows "to_tag_first_json jl v = json_text jl (tag_first v)"
proof (induction v rule: tag_first.induct)
  case (1 v)
  show ?case
  proof (cases v)
    case (JObject kvs)
    have rest: "to_tag_first_json jl (snd e) = json_text jl (tag_first (snd e))"
      if "e \<in> set (filter (\<lambda>e. fst e \<noteq> ''tag'') (btree_entries kvs))" for e
      using 1(3) [OF JObject that] .
    have first: "to_tag_first_json jl t = json_text jl (tag_first t)" if "map_of kvs ''tag'' = Some t" for t
      using 1(2) [OF JObject that] .
    have parts: "map (\<lambda>e. jl_print jl (JString (fst e)) @ '':'' @ to_tag_first_json jl (snd e))
          (filter (\<lambda>e. fst e \<noteq> ''tag'') (btree_entries kvs)) =
        map (\<lambda>e. jl_print jl (JString (fst e)) @ '':'' @ json_text jl (tag_first (snd e)))
          (filter (\<lambda>e. fst e \<noteq> ''tag'') (btree_entries kvs))"
      by (rule map_cong [OF refl]) (simp only: rest)
    show ?thesis
      unfolding JObject to_tag_first_json.simps [of jl "JObject kvs"] tag_first.simps [of "JObject kvs"]
        json_text.simps [of jl "JObject _"] json.case parts Let_def
      by (simp add: first tag comp_def split: option.split)
  next
    case (JArray arr)
    have "map (to_tag_first_json jl) arr = map (\<lambda>w. json_text jl (tag_first w)) arr"
      by (rule map_cong [OF refl]) (rule 1(1) [OF JArray])
    then show ?thesis
      unfolding JArray to_tag_first_json.simps [of jl "JArray arr"] tag_first.simps [of "JArray arr"] json.case
      by (simp add: json_text.simps [of jl "JArray _"] comp_def cong: map_cong)
  qed simp_all
qed

text \<open>C39. The re-emitted text is the document whose every object opens with its \<open>tag\<close> member,
  when it has one, and which holds the same values under the same keys.\<close>

theorem tag_first_exact:
  assumes "jl_print jl (JString ''tag'') = quoted_tag"
  shows "to_tag_first_json jl v = json_text jl (tag_first v) \<and>
    jget k (tag_first v) = map_option tag_first (jget k v) \<and>
    (jget ''tag'' v \<noteq> None \<longrightarrow> (\<exists>t rest. tag_first v = JObject ((''tag'', t) # rest)))"
proof -
  have "\<exists>t rest. tag_first v = JObject ((''tag'', t) # rest)" if "jget ''tag'' v \<noteq> None"
    using that by (cases v) (auto simp: jget_def tag_first.simps [of "JObject _"])
  then show ?thesis using to_tag_first_text [OF assms] jget_tag_first by blast
qed

definition quote_json :: json_lib where
  "quote_json = \<lparr>jl_parse = (\<lambda>s. None),
     jl_print = (\<lambda>v. case v of JString s \<Rightarrow> [CHR 0x22] @ s @ [CHR 0x22] | _ \<Rightarrow> ''null'')\<rparr>"

theorem tag_first_exact_witness:
  "json_text quote_json (tag_first (JObject [(''content'', JNull), (''tag'', JString ''cell'')])) =
     ''{'' @ quoted_tag @ '':'' @ [CHR 0x22] @ ''cell'' @ [CHR 0x22] @ '','' @
       [CHR 0x22] @ ''content'' @ [CHR 0x22] @ '':null}''"
proof -
  have "to_tag_first_json quote_json (JObject [(''content'', JNull), (''tag'', JString ''cell'')]) =
      json_text quote_json (tag_first (JObject [(''content'', JNull), (''tag'', JString ''cell'')]))"
    by (rule tag_first_exact [THEN conjunct1]) code_simp
  moreover have "to_tag_first_json quote_json (JObject [(''content'', JNull), (''tag'', JString ''cell'')]) =
     ''{'' @ quoted_tag @ '':'' @ [CHR 0x22] @ ''cell'' @ [CHR 0x22] @ '','' @
       [CHR 0x22] @ ''content'' @ [CHR 0x22] @ '':null}''"
    by code_simp
  ultimately show ?thesis by simp
qed

subsection \<open>Replies\<close>

text \<open>
  What the contract functions hand back: null, the JSON object \<open>{"error": ...}\<close>, whose text is
  abstracted to the kind of the failure, or a text. A text holding a NUL becomes null.
\<close>

datatype 'e reply = NullReply | ErrorReply 'e | TextReply string

definition to_c_string :: "string \<Rightarrow> 'e reply" where
  "to_c_string s = (case cstring_new s of Some t \<Rightarrow> TextReply t | None \<Rightarrow> NullReply)"

definition to_c_hex :: "hexlib \<Rightarrow> bytes \<Rightarrow> 'e reply" where
  "to_c_hex hx bs = (case cstring_new (hx_enc hx bs) of Some t \<Rightarrow> TextReply t | None \<Rightarrow> NullReply)"

definition c_str_to_str :: "cptr \<Rightarrow> string option" where
  "c_str_to_str ptr = (case ptr of None \<Rightarrow> None | Some c \<Rightarrow> cstr_to_str c)"

definition LEDGER_VERSION :: string where
  "LEDGER_VERSION = ''8.0.3''"

definition kuira_ledger_version :: "'e reply" where
  "kuira_ledger_version = to_c_string LEDGER_VERSION"

text \<open>An entry point turns the result of its implementation into a reply.\<close>

definition reply_of :: "'e + string \<Rightarrow> 'e reply" where
  "reply_of r = (case r of Inr hex \<Rightarrow> to_c_string hex | Inl e \<Rightarrow> ErrorReply e)"

lemma to_c_hex_ok: "hex_ok hx \<Longrightarrow> to_c_hex hx bs = TextReply (hx_enc hx bs)"
  by (simp add: to_c_hex_def hex_enc_cstring)

subsection \<open>Hashes, commitments and big integers\<close>

datatype value_error =
    ValueJson | ValueShape cv_error | MissingOpening | OpeningLength nat | MissingField
  | SerializeValue | HexDecode | OutOfField | ValueDecode

record ('hash, 'fr) value_lib =
  vl_persistent_hash :: "bytes \<Rightarrow> 'hash"
  vl_hash_ser :: "'hash \<Rightarrow> bytes option"
  vl_value_repr :: "aligned_value \<Rightarrow> bytes"  \<comment> \<open>what \<open>binary_repr\<close> feeds the hasher\<close>
  vl_hash_repr :: "bytes \<Rightarrow> bytes"
  vl_finalize :: "bytes \<Rightarrow> 'hash"
  vl_value_of_hash :: "'hash \<Rightarrow> bytes list"
  vl_value_of_fr :: "'fr \<Rightarrow> bytes list"
  vl_fr_from_le :: "bytes \<Rightarrow> 'fr option"
  vl_value_print :: "bytes list \<Rightarrow> string option"
  vl_value_parse :: "string \<Rightarrow> bytes list option"

definition value_reply :: "('hash, 'fr) value_lib \<Rightarrow> bytes list \<Rightarrow> value_error reply" where
  "value_reply vl v =
     (case vl_value_print vl v of Some s \<Rightarrow> to_c_string s | None \<Rightarrow> ErrorReply SerializeValue)"

definition contract_persistent_hash ::
    "hexlib \<Rightarrow> ('hash, 'fr) value_lib \<Rightarrow> cptr \<Rightarrow> value_error reply" where
  "contract_persistent_hash hx vl input_hex =
     (case c_str_to_str input_hex of None \<Rightarrow> NullReply
      | Some input \<Rightarrow>
          (case hx_dec hx input of None \<Rightarrow> NullReply
           | Some bs \<Rightarrow>
               (case vl_hash_ser vl (vl_persistent_hash vl bs) of None \<Rightarrow> NullReply
                | Some out \<Rightarrow> to_c_hex hx out)))"

definition contract_persistent_hash_aligned ::
    "json_lib \<Rightarrow> ('hash, 'fr) value_lib \<Rightarrow> cptr \<Rightarrow> value_error reply" where
  "contract_persistent_hash_aligned jl vl aligned_value_json =
     (case c_str_to_str aligned_value_json of None \<Rightarrow> NullReply
      | Some json_str \<Rightarrow>
          (case jl_parse jl json_str of None \<Rightarrow> ErrorReply ValueJson
           | Some json_val \<Rightarrow>
               (case parse_aligned_value json_val of Inl e \<Rightarrow> ErrorReply (ValueShape e)
                | Inr aligned \<Rightarrow>
                    value_reply vl (vl_value_of_hash vl (vl_finalize vl (vl_value_repr vl aligned))))))"

text \<open>Entries of the opening that are no \<open>u64\<close> are dropped, the others keep their low byte.\<close>

definition opening_bytes :: "json list \<Rightarrow> bytes" where
  "opening_bytes arr = List.map_filter (\<lambda>v. map_option ucast (as_u64 v)) arr"

definition commit_parts :: "json \<Rightarrow> value_error + (bytes \<times> aligned_value)" where
  "commit_parts json_val =
     (case jget ''opening'' json_val of
        Some (JArray arr) \<Rightarrow>
          (let bs = opening_bytes arr in
           bindE (guardE (length bs = 32) (OpeningLength (length bs))) (\<lambda>_.
           bindE (ok_or MissingField (jget ''value'' json_val)) (\<lambda>value_json.
           case parse_aligned_value value_json of
             Inl e \<Rightarrow> Inl (ValueShape e)
           | Inr aligned \<Rightarrow> Inr (bs, aligned))))
      | _ \<Rightarrow> Inl MissingOpening)"

definition contract_persistent_commit_aligned ::
    "json_lib \<Rightarrow> ('hash, 'fr) value_lib \<Rightarrow> cptr \<Rightarrow> value_error reply" where
  "contract_persistent_commit_aligned jl vl input_json =
     (case c_str_to_str input_json of None \<Rightarrow> NullReply
      | Some json_str \<Rightarrow>
          (case jl_parse jl json_str of None \<Rightarrow> ErrorReply ValueJson
           | Some json_val \<Rightarrow>
               (case commit_parts json_val of Inl e \<Rightarrow> ErrorReply e
                | Inr (opening, aligned) \<Rightarrow>
                    value_reply vl (vl_value_of_hash vl
                      (vl_finalize vl (vl_hash_repr vl opening @ vl_value_repr vl aligned))))))"

definition contract_big_int_to_value ::
    "hexlib \<Rightarrow> ('hash, 'fr) value_lib \<Rightarrow> cptr \<Rightarrow> value_error reply" where
  "contract_big_int_to_value hx vl bigint_hex =
     (case c_str_to_str bigint_hex of None \<Rightarrow> NullReply
      | Some s \<Rightarrow>
          (let padded = (if length s mod 2 = 1 then ''0'' @ s else s) in
           case hx_dec hx padded of None \<Rightarrow> ErrorReply HexDecode
           | Some bs \<Rightarrow>
               (case vl_fr_from_le vl (rev bs) of None \<Rightarrow> ErrorReply OutOfField
                | Some fr \<Rightarrow> value_reply vl (vl_value_of_fr vl fr))))"

definition contract_value_to_big_int :: "('hash, 'fr) value_lib \<Rightarrow> cptr \<Rightarrow> value_error reply" where
  "contract_value_to_big_int vl value_json =
     (case c_str_to_str value_json of None \<Rightarrow> NullReply
      | Some s \<Rightarrow>
          (case vl_value_parse vl s of None \<Rightarrow> ErrorReply ValueDecode
           | Some atoms \<Rightarrow>
               if atoms = [] \<or> atoms ! 0 = [] then to_c_string ''0''
               else to_c_string (show_word (low_u128 (atoms ! 0)))))"

lemma le_val_mod: "le_val (take 16 bs) = le_val bs mod 2 ^ 128"
proof -
  have "le_val (take 16 bs) < 256 ^ 16"
  proof -
    have "(256::nat) ^ length (take 16 bs) \<le> 256 ^ 16" by (intro power_increasing) simp_all
    with le_val_bound [of "take 16 bs"] show ?thesis by linarith
  qed
  then show ?thesis using le_val_take_drop [of bs] by simp
qed

text \<open>C37. Reading a value as an integer gives its first atom, little-endian, modulo \<open>2^128\<close>: what is
  past the sixteenth byte is lost, so a field element of 2^128 or more does not come back.\<close>

theorem value_to_big_int_exact:
  assumes "cstr_to_str c = Some s" and "vl_value_parse vl s = Some atoms"
  shows "contract_value_to_big_int vl (Some c) =
    TextReply (show_nat (if atoms = [] then 0 else le_val (hd atoms) mod 2 ^ 128))"
proof (cases "atoms = [] \<or> atoms ! 0 = []")
  case True
  have "show_nat 0 = ''0''" by code_simp
  moreover have "le_val (hd atoms) = 0" if "atoms \<noteq> []" using True that by (simp add: hd_conv_nth)
  ultimately show ?thesis
    using True assms
    by (auto simp: contract_value_to_big_int_def c_str_to_str_def to_c_string_def cstring_new_def)
next
  case False
  then have "show_word (low_u128 (atoms ! 0)) = show_nat (le_val (hd atoms) mod 2 ^ 128)"
    by (simp add: show_word_def low_u128_val le_val_mod hd_conv_nth)
  with False assms show ?thesis
    using cstring_new_show [of "low_u128 (atoms ! 0)"]
    by (simp add: contract_value_to_big_int_def c_str_to_str_def to_c_string_def)
qed

definition demo_value_lib :: "(bytes, bytes) value_lib" where
  "demo_value_lib = \<lparr>vl_persistent_hash = (\<lambda>b. b), vl_hash_ser = Some, vl_value_repr = (\<lambda>av. concat (av_value av)),
     vl_hash_repr = (\<lambda>b. b), vl_finalize = (\<lambda>b. b), vl_value_of_hash = (\<lambda>b. [b]), vl_value_of_fr = (\<lambda>b. [b]),
     vl_fr_from_le = Some, vl_value_print = (\<lambda>v. Some ''v''),
     vl_value_parse = (\<lambda>s. Some [[1, 2] @ replicate 14 0 @ [9]])\<rparr>"

text \<open>A seventeenth byte of 9 makes no difference: the reply is 1 + 2 * 256.\<close>

theorem value_to_big_int_exact_witness:
  "contract_value_to_big_int demo_value_lib (Some ''v'') = TextReply ''513''"
proof -
  have "contract_value_to_big_int demo_value_lib (Some ''v'') =
      TextReply (show_nat (if [[1, 2] @ replicate 14 0 @ [9::u8]] = [] then 0
        else le_val (hd [[1, 2] @ replicate 14 0 @ [9::u8]]) mod 2 ^ 128))"
    by (rule value_to_big_int_exact [of "''v''" "''v''"])
      (simp_all add: demo_value_lib_def cstr_to_str_ascii is_ascii_def)
  moreover have "le_val (replicate 14 (0::u8)) = 0" by (rule le_val_zeros) (simp add: list_all_iff)
  then have "le_val ([1, 2] @ replicate 14 0 @ [9::u8]) mod 2 ^ 128 = 513"
    by (simp add: le_val_append)
  moreover have "show_nat 513 = ''513''" by code_simp
  ultimately show ?thesis by simp
qed

end
