(* ===== verification/StatePool.thy ===== *)
theory StatePool
  imports ContractValue "HOL-Library.AList"
begin

text \<open>
  The contract-state pool of \<open>contract_ffi.rs\<close>: a process-wide map from handles to contract states
  behind a mutex, with an atomic counter for fresh handles. Each entry point is a function from the
  pool to its reply and the new pool; \<open>contract_query\<close> and the allocating calls, which take the
  lock more than once or not at the moment they draw the handle, are also split into their atomic
  steps, and an inductive relation interleaves them. \<open>lock_state_pool\<close> recovers a poisoned mutex,
  so locking never fails.
\<close>

subsection \<open>The pool\<close>

record ('data, 'op, 'rest) contract_state =
  cs_data :: 'data
  cs_operations :: "string \<Rightarrow> 'op option"
  cs_rest :: 'rest

record 's pool =
  sp_entries :: "(u64 \<times> 's) list"
  sp_next :: u64

definition pool_get :: "'s pool \<Rightarrow> u64 \<Rightarrow> 's option" where
  "pool_get p h = map_of (sp_entries p) h"

definition pool_insert :: "u64 \<Rightarrow> 's \<Rightarrow> 's pool \<Rightarrow> 's pool" where
  "pool_insert h s p = p\<lparr>sp_entries := AList.update h s (sp_entries p)\<rparr>"

definition pool_remove :: "u64 \<Rightarrow> 's pool \<Rightarrow> 's pool" where
  "pool_remove h p = p\<lparr>sp_entries := AList.delete h (sp_entries p)\<rparr>"

text \<open>\<open>NEXT_HANDLE.fetch_add(1)\<close> wraps.\<close>

definition take_handle :: "'s pool \<Rightarrow> u64 \<times> 's pool" where
  "take_handle p = (sp_next p, p\<lparr>sp_next := sp_next p + 1\<rparr>)"

definition alloc :: "'s \<Rightarrow> 's pool \<Rightarrow> u64 \<times> 's pool" where
  "alloc s p = (let (handle, p1) = take_handle p in (handle, pool_insert handle s p1))"

definition empty_pool :: "'s pool" where
  "empty_pool = \<lparr>sp_entries = [], sp_next = 1\<rparr>"

subsection \<open>What the operations promise\<close>

locale handle_map =
  fixes get :: "'p \<Rightarrow> 'k \<Rightarrow> 's option"
    and ins :: "'k \<Rightarrow> 's \<Rightarrow> 'p \<Rightarrow> 'p"
    and del :: "'k \<Rightarrow> 'p \<Rightarrow> 'p"
  assumes get_ins: "get (ins h s p) k = (if k = h then Some s else get p k)"
    and get_del: "get (del h p) k = (if k = h then None else get p k)"
begin

lemma get_ins_same: "get (ins h s p) h = Some s"
  by (simp add: get_ins)

lemma get_ins_other: "k \<noteq> h \<Longrightarrow> get (ins h s p) k = get p k"
  by (simp add: get_ins)

lemma get_del_other: "k \<noteq> h \<Longrightarrow> get (del h p) k = get p k"
  by (simp add: get_del)

lemma ins_after_del: "get (ins h s (del h p)) h = Some s"
  by (simp add: get_ins)

lemma last_write_wins: "get (ins h t (ins h s p)) k = get (ins h t p) k"
  by (simp add: get_ins)

lemma del_ins_fresh: "get p h = None \<Longrightarrow> get (del h (ins h s p)) k = get p k"
  by (simp add: get_del get_ins)

end

interpretation sp: handle_map pool_get pool_insert pool_remove
  by unfold_locales
    (simp_all add: pool_get_def pool_insert_def pool_remove_def update_conv' map_of_delete
      AList.delete_conv')

definition pool_ok :: "'s pool \<Rightarrow> bool" where
  "pool_ok p \<longleftrightarrow> distinct (map fst (sp_entries p)) \<and>
     (\<forall>h \<in> fst ` set (sp_entries p). 0 < h \<and> h < sp_next p)"

lemma pool_get_None: "pool_get p h = None \<longleftrightarrow> h \<notin> fst ` set (sp_entries p)"
  by (simp add: pool_get_def map_of_eq_None_iff)

lemma pool_next_simps [simp]:
  "sp_next (pool_insert h s p) = sp_next p" "sp_next (pool_remove h p) = sp_next p"
  by (simp_all add: pool_insert_def pool_remove_def)

lemma keys_pool_insert:
  "pool_get p h = None \<Longrightarrow>
   map fst (sp_entries (pool_insert h s p)) = map fst (sp_entries p) @ [h]"
  by (simp add: pool_insert_def pool_get_None update_keys)

lemma length_pool_insert:
  "pool_get p h = None \<Longrightarrow> length (sp_entries (pool_insert h s p)) = Suc (length (sp_entries p))"
  using keys_pool_insert [of p h s] by (metis length_append_singleton length_map)

lemma pool_remove_insert: "pool_get p h = None \<Longrightarrow> pool_remove h (pool_insert h s p) = pool_remove h p"
  by (simp add: pool_remove_def pool_insert_def delete_update_same)

lemma pool_remove_fresh: "pool_get p h = None \<Longrightarrow> pool_remove h p = p"
  by (simp add: pool_remove_def pool_get_None)

lemma pool_ok_fresh: "pool_ok p \<Longrightarrow> pool_get p (sp_next p) = None"
  by (auto simp: pool_ok_def pool_get_None)

lemma less_next: "n + 1 \<noteq> 0 \<Longrightarrow> h \<le> n \<Longrightarrow> h < n + 1" for n :: u64
  using unatSuc [of n] by (simp add: word_less_nat_alt word_le_nat_alt add.commute)

lemma pool_ok_alloc:
  assumes ok: "pool_ok p" and room: "sp_next p \<noteq> 0" "sp_next p + 1 \<noteq> 0"
  shows "pool_ok (snd (alloc s p))"
proof -
  let ?q = "p\<lparr>sp_next := sp_next p + 1\<rparr>"
  have fresh: "pool_get ?q (sp_next p) = None"
    using pool_ok_fresh [OF ok] by (simp add: pool_get_def)
  have keys: "map fst (sp_entries (pool_insert (sp_next p) s ?q)) = map fst (sp_entries p) @ [sp_next p]"
    using keys_pool_insert [OF fresh] by simp
  have "distinct (map fst (sp_entries p) @ [sp_next p])"
    using ok pool_ok_fresh [OF ok] by (auto simp: pool_ok_def pool_get_None)
  moreover have "0 < h \<and> h < sp_next p + 1" if "h \<in> set (map fst (sp_entries p) @ [sp_next p])" for h
    using that ok room less_next [OF room(2)]
    by (auto simp: pool_ok_def word_gt_0 less_imp_le)
  ultimately show ?thesis
    unfolding pool_ok_def alloc_def take_handle_def prod.case Let_def snd_conv set_map [symmetric] keys
    by simp
qed

subsection \<open>The entry points\<close>

record ('data, 'op, 'rest, 'gop, 'ev, 'gas) pool_lib =
  pl_deser_tagged :: "bytes \<Rightarrow> ('data, 'op, 'rest) contract_state option"
  pl_deser_raw :: "bytes \<Rightarrow> ('data, 'op, 'rest) contract_state option"
  pl_ser :: "('data, 'op, 'rest) contract_state \<Rightarrow> bytes option"
  pl_default :: "('data, 'op, 'rest) contract_state"
  pl_charged :: "state_value \<Rightarrow> 'data"
  pl_get_ref :: "'data \<Rightarrow> state_value"
  pl_no_key :: 'op  \<comment> \<open>\<open>ContractOperation::new(None)\<close>\<close>
  pl_ops_parse :: "string \<Rightarrow> 'gop list option"
  pl_query :: "'data \<Rightarrow> u64 \<Rightarrow> 'gop list \<Rightarrow> ('data \<times> 'ev \<times> 'gas) option"
  pl_events_json :: "'ev \<Rightarrow> string option"
  pl_gas_json :: "'gas \<Rightarrow> string option"

datatype pool_error = InvalidHandle | OpcodesJson | EventsJson | GasJson | QueryFailed

definition decode_state ::
    "hexlib \<Rightarrow> ('data, 'op, 'rest, 'gop, 'ev, 'gas) pool_lib \<Rightarrow> cptr \<Rightarrow>
     ('data, 'op, 'rest) contract_state option" where
  "decode_state hx pl state_hex = do {
     hex_str \<leftarrow> c_str_to_str state_hex;
     bs \<leftarrow> hx_dec hx hex_str;
     case pl_deser_tagged pl bs of Some s \<Rightarrow> Some s | None \<Rightarrow> pl_deser_raw pl bs
   }"

definition contract_state_create ::
    "hexlib \<Rightarrow> ('data, 'op, 'rest, 'gop, 'ev, 'gas) pool_lib \<Rightarrow> cptr \<Rightarrow>
     ('data, 'op, 'rest) contract_state pool \<Rightarrow> u64 \<times> ('data, 'op, 'rest) contract_state pool" where
  "contract_state_create hx pl state_hex p =
     (case decode_state hx pl state_hex of None \<Rightarrow> (0, p) | Some state \<Rightarrow> alloc state p)"

definition contract_state_serialize ::
    "hexlib \<Rightarrow> ('data, 'op, 'rest, 'gop, 'ev, 'gas) pool_lib \<Rightarrow> u64 \<Rightarrow>
     ('data, 'op, 'rest) contract_state pool \<Rightarrow> pool_error reply" where
  "contract_state_serialize hx pl handle p =
     (case pool_get p handle of None \<Rightarrow> NullReply
      | Some state \<Rightarrow> (case pl_ser pl state of None \<Rightarrow> NullReply | Some out \<Rightarrow> to_c_hex hx out))"

definition contract_state_read_fields ::
    "hexlib \<Rightarrow> json_lib \<Rightarrow> ('data, 'op, 'rest, 'gop, 'ev, 'gas) pool_lib \<Rightarrow> u64 \<Rightarrow>
     ('data, 'op, 'rest) contract_state pool \<Rightarrow> pool_error reply" where
  "contract_state_read_fields hx jl pl handle p =
     (case pool_get p handle of None \<Rightarrow> ErrorReply InvalidHandle
      | Some state \<Rightarrow>
          to_c_string (jl_print jl (state_value_to_json hx (pl_get_ref pl (cs_data state)))))"

definition contract_state_free :: "u64 \<Rightarrow> 's pool \<Rightarrow> 's pool" where
  "contract_state_free handle p = pool_remove handle p"

definition contract_state_pool_len :: "'s pool \<Rightarrow> u64" where
  "contract_state_pool_len p = of_nat (length (sp_entries p))"

definition contract_state_clone :: "u64 \<Rightarrow> 's pool \<Rightarrow> u64 \<times> 's pool" where
  "contract_state_clone handle p =
     (case pool_get p handle of None \<Rightarrow> (0, p) | Some state \<Rightarrow> alloc state p)"

text \<open>The descriptor is JSON, or else a plain number (not capped), or else an empty array.\<close>

definition structure_value :: "json_lib \<Rightarrow> string \<Rightarrow> state_value option" where
  "structure_value jl input =
     (case jl_parse jl input of
        Some descriptor \<Rightarrow> res_ok (build_state_from_descriptor descriptor)
      | None \<Rightarrow>
          (case parse_u32 input of
             Some num \<Rightarrow> Some (SVArray (replicate (unat num) SVNull))
           | None \<Rightarrow> Some (SVArray [])))"

definition contract_state_create_with_nulls ::
    "json_lib \<Rightarrow> ('data, 'op, 'rest, 'gop, 'ev, 'gas) pool_lib \<Rightarrow> cptr \<Rightarrow>
     ('data, 'op, 'rest) contract_state pool \<Rightarrow> u64 \<times> ('data, 'op, 'rest) contract_state pool" where
  "contract_state_create_with_nulls jl pl structure_json p =
     (case do { input \<leftarrow> c_str_to_str structure_json; structure_value jl input } of
        None \<Rightarrow> (0, p)
      | Some state_value \<Rightarrow> alloc ((pl_default pl)\<lparr>cs_data := pl_charged pl state_value\<rparr>) p)"

definition set_operation :: "string \<Rightarrow> 'op \<Rightarrow> ('data, 'op, 'rest) contract_state \<Rightarrow> ('data, 'op, 'rest) contract_state" where
  "set_operation ep op state = state\<lparr>cs_operations := (cs_operations state)(ep \<mapsto> op)\<rparr>"

text \<open>
  The operations map is persistent: \<open>insert\<close> returns the extended map (the deployment assigns it,
  \<open>ops = ops.insert(..)\<close>), which this entry point drops.
\<close>

definition contract_state_set_operation ::
    "('data, 'op, 'rest, 'gop, 'ev, 'gas) pool_lib \<Rightarrow> u64 \<Rightarrow> cptr \<Rightarrow>
     ('data, 'op, 'rest) contract_state pool \<Rightarrow> ('data, 'op, 'rest) contract_state pool" where
  "contract_state_set_operation pl handle operation_name p =
     (case c_str_to_str operation_name of None \<Rightarrow> p
      | Some name \<Rightarrow>
          (case pool_get p handle of None \<Rightarrow> p
           | Some state \<Rightarrow>
               (let dropped = cs_operations (set_operation name (pl_no_key pl) state) in p)))"

lemma set_operation_lost: "contract_state_set_operation pl h name p = p"
  by (simp add: contract_state_set_operation_def split: option.split)

subsection \<open>Queries\<close>

text \<open>
  A query copies the state under the lock, runs without it, and stores the outcome under the lock
  again. \<open>query_begin\<close> is the part before the run, \<open>query_commit\<close> the store.
\<close>

definition query_begin ::
    "('data, 'op, 'rest, 'gop, 'ev, 'gas) pool_lib \<Rightarrow> u64 \<Rightarrow> cptr \<Rightarrow>
     ('data, 'op, 'rest) contract_state pool \<Rightarrow>
     pool_error reply + (('data, 'op, 'rest) contract_state \<times> 'gop list)" where
  "query_begin pl handle opcodes_json p =
     bindE (ok_or NullReply (c_str_to_str opcodes_json)) (\<lambda>opcodes_str.
     bindE (ok_or (ErrorReply InvalidHandle) (pool_get p handle)) (\<lambda>state.
     bindE (ok_or (ErrorReply OpcodesJson) (pl_ops_parse pl opcodes_str)) (\<lambda>ops.
     Inr (state, ops))))"

definition query_commit ::
    "u64 \<Rightarrow> ('data, 'op, 'rest) contract_state \<Rightarrow> 'data \<Rightarrow>
     ('data, 'op, 'rest) contract_state pool \<Rightarrow> ('data, 'op, 'rest) contract_state pool" where
  "query_commit handle state data p = pool_insert handle (state\<lparr>cs_data := data\<rparr>) p"

definition query_reply ::
    "('data, 'op, 'rest, 'gop, 'ev, 'gas) pool_lib \<Rightarrow> u64 \<Rightarrow> 'ev \<Rightarrow> 'gas \<Rightarrow> pool_error reply" where
  "query_reply pl handle events gas =
     (case pl_events_json pl events of None \<Rightarrow> ErrorReply EventsJson
      | Some events_json \<Rightarrow>
          (case pl_gas_json pl gas of None \<Rightarrow> ErrorReply GasJson
           | Some gas_json \<Rightarrow>
               to_c_string (''{'' @ [CHR 0x22] @ ''handle'' @ [CHR 0x22] @ '':'' @ show_word handle @
                 '','' @ [CHR 0x22] @ ''events'' @ [CHR 0x22] @ '':'' @ events_json @
                 '','' @ [CHR 0x22] @ ''gas'' @ [CHR 0x22] @ '':'' @ gas_json @ ''}'')))"

definition contract_query ::
    "('data, 'op, 'rest, 'gop, 'ev, 'gas) pool_lib \<Rightarrow> u64 \<Rightarrow> u64 \<Rightarrow> cptr \<Rightarrow>
     ('data, 'op, 'rest) contract_state pool \<Rightarrow>
     pool_error reply \<times> ('data, 'op, 'rest) contract_state pool" where
  "contract_query pl now_secs handle opcodes_json p =
     (case query_begin pl handle opcodes_json p of Inl r \<Rightarrow> (r, p)
      | Inr (state, ops) \<Rightarrow>
          (case pl_query pl (cs_data state) now_secs ops of
             None \<Rightarrow> (ErrorReply QueryFailed, p)
           | Some (data, events, gas) \<Rightarrow>
               (query_reply pl handle events gas, query_commit handle state data p)))"

lemma query_begin_Inr: "query_begin pl h c p = Inr (state, ops) \<Longrightarrow> pool_get p h = Some state"
  by (auto simp: query_begin_def resE)

text \<open>A query writes at most the data of its own handle: other handles, the operations and
  the rest of the state, and the handle counter stay; when it reports a failed run, nothing changes.\<close>

theorem query_isolated:
  assumes q: "contract_query pl now h c p = (r, p')"
  shows "(\<forall>k. pool_get p' k \<noteq> pool_get p k \<longrightarrow> k = h \<and> (\<exists>s d. pool_get p h = Some s \<and>
      pool_get p' h = Some (s\<lparr>cs_data := d\<rparr>))) \<and> sp_next p' = sp_next p \<and>
    (r \<in> {ErrorReply QueryFailed, ErrorReply InvalidHandle, ErrorReply OpcodesJson} \<longrightarrow> p' = p)"
proof (cases "query_begin pl h c p")
  case (Inl e)
  with q show ?thesis by (auto simp: contract_query_def)
next
  case (Inr so)
  obtain s ops where so: "so = (s, ops)" by (cases so)
  have get: "pool_get p h = Some s" using Inr so by (auto intro: query_begin_Inr)
  show ?thesis
  proof (cases "pl_query pl (cs_data s) now ops")
    case (Some deg)
    obtain d ev g where deg: "deg = (d, ev, g)" by (cases deg)
    have p': "p' = query_commit h s d p" and r: "r = query_reply pl h ev g"
      using q Inr so Some deg by (auto simp: contract_query_def)
    have "pool_get p' k = (if k = h then Some (s\<lparr>cs_data := d\<rparr>) else pool_get p k)" for k
      unfolding p' query_commit_def by (rule sp.get_ins)
    moreover have "r \<notin> {ErrorReply QueryFailed, ErrorReply InvalidHandle, ErrorReply OpcodesJson}"
      unfolding r query_reply_def by (auto simp: to_c_string_def split: option.splits)
    moreover have "sp_next p' = sp_next p" unfolding p' query_commit_def by simp
    ultimately show ?thesis using get by auto
  qed (use q Inr so in \<open>auto simp: contract_query_def\<close>)
qed

definition demo_pool_lib :: "(nat, unit, unit, nat, nat, nat) pool_lib" where
  "demo_pool_lib = \<lparr>pl_deser_tagged = (\<lambda>b. None),
     pl_deser_raw = (\<lambda>b. Some \<lparr>cs_data = length b, cs_operations = (\<lambda>k. None), cs_rest = ()\<rparr>),
     pl_ser = (\<lambda>s. Some []), pl_default = \<lparr>cs_data = 0, cs_operations = (\<lambda>k. None), cs_rest = ()\<rparr>,
     pl_charged = (\<lambda>v. 0), pl_get_ref = (\<lambda>d. SVNull), pl_no_key = (), pl_ops_parse = (\<lambda>s. Some [3]),
     pl_query = (\<lambda>d now ops. Some (d + sum_list ops, 0, 0)), pl_events_json = (\<lambda>e. Some ''[]''),
     pl_gas_json = (\<lambda>g. Some ''0'')\<rparr>"

definition demo_state :: "nat \<Rightarrow> (nat, unit, unit) contract_state" where
  "demo_state n = \<lparr>cs_data = n, cs_operations = (\<lambda>k. None), cs_rest = ()\<rparr>"

definition demo_pool :: "(nat, unit, unit) contract_state pool" where
  "demo_pool = \<lparr>sp_entries = [(1, demo_state 4), (2, demo_state 9)], sp_next = 3\<rparr>"

lemma demo_query:
  "contract_query demo_pool_lib 0 1 (Some ''[]'') demo_pool =
     (query_reply demo_pool_lib 1 0 0, query_commit 1 (demo_state 4) 7 demo_pool)"
  by (simp add: contract_query_def query_begin_def demo_pool_lib_def c_str_to_str_def cstr_to_str_ascii
      is_ascii_def demo_pool_def pool_get_def demo_state_def)

theorem query_isolated_witness:
  "pool_get (query_commit 1 (demo_state 4) 7 demo_pool) 2 = pool_get demo_pool 2 \<and>
   sp_next (query_commit 1 (demo_state 4) 7 demo_pool) = 3"
  using query_isolated [OF demo_query] by (auto simp: demo_pool_def)

subsection \<open>Creating and freeing\<close>

text \<open>C23. While the counter has not run out, a created state gets a handle nobody holds, is the
  state that was decoded, and freeing it restores the pool entry for entry: handles do not leak.\<close>

theorem create_free_no_leak:
  assumes ok: "pool_ok p" and room: "sp_next p \<noteq> 0" "sp_next p + 1 \<noteq> 0"
    and create: "contract_state_create hx pl c p = (h, p1)" and good: "h \<noteq> 0"
  shows "pool_get p h = None \<and> pool_get p1 h = decode_state hx pl c \<and> pool_ok p1 \<and>
    length (sp_entries p1) = Suc (length (sp_entries p)) \<and>
    sp_entries (contract_state_free h p1) = sp_entries p"
proof -
  obtain s where s: "decode_state hx pl c = Some s" and al: "alloc s p = (h, p1)"
    using create good by (auto simp: contract_state_create_def split: option.splits)
  let ?q = "p\<lparr>sp_next := sp_next p + 1\<rparr>"
  have h: "h = sp_next p" and p1: "p1 = pool_insert h s ?q"
    using al by (auto simp: alloc_def take_handle_def)
  have fresh: "pool_get p h = None" using pool_ok_fresh [OF ok] by (simp add: h)
  then have fresh': "pool_get ?q h = None" by (simp add: pool_get_def)
  have "pool_ok p1" using pool_ok_alloc [OF ok room, of s] al by simp
  moreover have "pool_get p1 h = Some s" unfolding p1 by (rule sp.get_ins_same)
  moreover have "length (sp_entries p1) = Suc (length (sp_entries p))"
    unfolding p1 using length_pool_insert [OF fresh'] by simp
  moreover have "contract_state_free h p1 = ?q"
    unfolding contract_state_free_def p1 pool_remove_insert [OF fresh'] by (rule pool_remove_fresh [OF fresh'])
  ultimately show ?thesis using fresh s by simp
qed

theorem create_free_no_leak_witness:
  "sp_entries (contract_state_free 3 (snd (contract_state_create ref_hex demo_pool_lib (Some ''00ff'') demo_pool)))
     = sp_entries demo_pool"
proof -
  have "contract_state_create ref_hex demo_pool_lib (Some ''00ff'') demo_pool =
      (3, snd (contract_state_create ref_hex demo_pool_lib (Some ''00ff'') demo_pool))"
    by (simp add: contract_state_create_def decode_state_def c_str_to_str_def cstr_to_str_ascii is_ascii_def
        ref_hex_def hex_val_def demo_pool_lib_def alloc_def take_handle_def demo_pool_def)
  then show ?thesis
    using create_free_no_leak [of demo_pool ref_hex demo_pool_lib "Some ''00ff''" 3] by (simp add: demo_pool_def pool_ok_def)
qed

subsection \<open>Interleaved calls\<close>

text \<open>
  Calls of several threads, by atomic step. A call that will insert first draws its handle
  (\<open>Drawn\<close>), a query carries the copy it runs on (\<open>Running\<close>). The index counts the handles drawn.
\<close>

datatype 's pending = Drawn u64 's | Running u64 's

definition drawn :: "'s pending list \<Rightarrow> u64 list" where
  "drawn ps = List.map_filter (\<lambda>q. case q of Drawn h s \<Rightarrow> Some h | Running _ _ \<Rightarrow> None) ps"

record 's system =
  sy_pool :: "'s pool"
  sy_pending :: "'s pending list"

inductive pool_reach :: "nat \<Rightarrow> 's system \<Rightarrow> bool" where
  start: "pool_reach 0 \<lparr>sy_pool = empty_pool, sy_pending = []\<rparr>"
| draw: "pool_reach n \<lparr>sy_pool = p, sy_pending = ps\<rparr> \<Longrightarrow> take_handle p = (h, p') \<Longrightarrow>
    pool_reach (Suc n) \<lparr>sy_pool = p', sy_pending = Drawn h s # ps\<rparr>"
| insert: "pool_reach n \<lparr>sy_pool = p, sy_pending = ps @ Drawn h s # qs\<rparr> \<Longrightarrow>
    pool_reach n \<lparr>sy_pool = pool_insert h s p, sy_pending = ps @ qs\<rparr>"
| query_begin: "pool_reach n \<lparr>sy_pool = p, sy_pending = ps\<rparr> \<Longrightarrow> pool_get p h = Some s \<Longrightarrow>
    pool_reach n \<lparr>sy_pool = p, sy_pending = Running h s # ps\<rparr>"
| query_commit: "pool_reach n \<lparr>sy_pool = p, sy_pending = ps @ Running h s # qs\<rparr> \<Longrightarrow>
    pool_reach n \<lparr>sy_pool = pool_insert h s' p, sy_pending = ps @ qs\<rparr>"
| query_fail: "pool_reach n \<lparr>sy_pool = p, sy_pending = ps @ Running h s # qs\<rparr> \<Longrightarrow>
    pool_reach n \<lparr>sy_pool = p, sy_pending = ps @ qs\<rparr>"
| free: "pool_reach n \<lparr>sy_pool = p, sy_pending = ps\<rparr> \<Longrightarrow>
    pool_reach n \<lparr>sy_pool = contract_state_free h p, sy_pending = ps\<rparr>"
| update: "pool_reach n \<lparr>sy_pool = p, sy_pending = ps\<rparr> \<Longrightarrow> pool_get p h = Some s \<Longrightarrow>
    pool_reach n \<lparr>sy_pool = pool_insert h s' p, sy_pending = ps\<rparr>"

inductive_cases pool_reach_zero: "pool_reach 0 sy"

text \<open>A handle is used when it is live or a query runs on it.\<close>

definition used :: "'s system \<Rightarrow> u64 \<Rightarrow> bool" where
  "used sy h \<longleftrightarrow> pool_get (sy_pool sy) h \<noteq> None \<or> (\<exists>s. Running h s \<in> set (sy_pending sy))"

definition pool_inv :: "nat \<Rightarrow> 's system \<Rightarrow> bool" where
  "pool_inv n sy \<longleftrightarrow>
     sp_next (sy_pool sy) = of_nat (Suc n) \<and>
     (\<forall>h. used sy h \<or> h \<in> set (drawn (sy_pending sy)) \<longrightarrow> 0 < unat h \<and> unat h \<le> n) \<and>
     distinct (drawn (sy_pending sy)) \<and> (\<forall>h \<in> set (drawn (sy_pending sy)). \<not> used sy h)"

lemma drawn_simps [simp]:
  "drawn [] = []" "drawn (Drawn h s # ps) = h # drawn ps" "drawn (Running h s # ps) = drawn ps"
  "drawn (ps @ qs) = drawn ps @ drawn qs"
  by (simp_all add: drawn_def map_filter_def)

lemma in_drawn: "h \<in> set (drawn ps) \<longleftrightarrow> (\<exists>s. Drawn h s \<in> set ps)"
  by (induction ps) (auto simp: drawn_def map_filter_simps split: pending.splits)

lemma pool_get_free: "pool_get (contract_state_free h p) k = (if k = h then None else pool_get p k)"
  by (simp add: contract_state_free_def sp.get_del)

lemma next_free [simp]: "sp_next (contract_state_free h p) = sp_next p"
  by (simp add: contract_state_free_def)

lemma unat_of_Suc: "Suc n < 2 ^ 64 \<Longrightarrow> unat (of_nat (Suc n) :: u64) = Suc n"
  by (simp add: unsigned_of_nat take_bit_nat_eq_self del: of_nat_Suc)

text \<open>Steps after which a handle is used only if it was, or was drawn and is no longer.\<close>

lemma pool_inv_shrink:
  assumes "pool_inv n sy" and "sp_next (sy_pool sy') = sp_next (sy_pool sy)"
    and "set (drawn (sy_pending sy')) \<subseteq> set (drawn (sy_pending sy))"
    and "distinct (drawn (sy_pending sy)) \<Longrightarrow> distinct (drawn (sy_pending sy'))"
    and "\<And>h. distinct (drawn (sy_pending sy)) \<Longrightarrow> used sy' h \<Longrightarrow>
       used sy h \<or> h \<in> set (drawn (sy_pending sy)) - set (drawn (sy_pending sy'))"
  shows "pool_inv n sy'"
proof -
  have dist: "distinct (drawn (sy_pending sy))" using assms(1) by (simp add: pool_inv_def)
  have bound: "0 < unat h \<and> unat h \<le> n" if "used sy h \<or> h \<in> set (drawn (sy_pending sy))" for h
    using assms(1) that unfolding pool_inv_def by blast
  have free: "\<not> used sy h" if "h \<in> set (drawn (sy_pending sy))" for h
    using assms(1) that by (simp add: pool_inv_def)
  have u: "used sy h \<or> h \<in> set (drawn (sy_pending sy)) - set (drawn (sy_pending sy'))" if "used sy' h" for h
    using assms(5) [OF dist that] .
  have "0 < unat h \<and> unat h \<le> n" if "used sy' h \<or> h \<in> set (drawn (sy_pending sy'))" for h
    using that u bound assms(3) by (meson DiffD1 subsetD)
  moreover have "\<not> used sy' h" if "h \<in> set (drawn (sy_pending sy'))" for h
    using that u free assms(3) by (meson DiffD2 subsetD)
  moreover have "distinct (drawn (sy_pending sy'))" by (rule assms(4) [OF dist])
  moreover have "sp_next (sy_pool sy') = of_nat (Suc n)"
    using assms(1,2) by (simp add: pool_inv_def)
  ultimately show ?thesis unfolding pool_inv_def by blast
qed

lemma pool_reach_inv: "pool_reach n sy \<Longrightarrow> n < 2 ^ 64 \<Longrightarrow> pool_inv n sy"
proof (induction rule: pool_reach.induct)
  case start
  then show ?case by (simp add: pool_inv_def used_def empty_pool_def pool_get_def)
next
  case (draw n p ps h p' s)
  have inv: "pool_inv n \<lparr>sy_pool = p, sy_pending = ps\<rparr>" using draw by simp
  have h: "h = of_nat (Suc n)" and p': "p' = p\<lparr>sp_next := sp_next p + 1\<rparr>"
    using draw.hyps(2) inv by (auto simp: take_handle_def pool_inv_def)
  have used: "used \<lparr>sy_pool = p', sy_pending = Drawn h s # ps\<rparr> k = used \<lparr>sy_pool = p, sy_pending = ps\<rparr> k" for k
    by (simp add: used_def p' pool_get_def)
  have uh: "unat h = Suc n" unfolding h using draw.prems by (rule unat_of_Suc)
  have next': "sp_next p' = of_nat (Suc (Suc n))" using inv by (simp add: p' pool_inv_def)
  have "\<not> used \<lparr>sy_pool = p, sy_pending = ps\<rparr> h" and "h \<notin> set (drawn ps)"
    using inv uh unfolding pool_inv_def by fastforce+
  then show ?case
    using inv uh next' unfolding pool_inv_def used system.simps drawn_simps
    by (auto simp: le_Suc_eq simp del: of_nat_Suc)
next
  case (insert n p ps h s qs)
  then have "pool_inv n \<lparr>sy_pool = p, sy_pending = ps @ Drawn h s # qs\<rparr>" by simp
  then show ?case by (rule pool_inv_shrink) (auto simp: used_def sp.get_ins split: if_splits)
next
  case (query_begin n p ps h s)
  then have "pool_inv n \<lparr>sy_pool = p, sy_pending = ps\<rparr>" by simp
  then show ?case by (rule pool_inv_shrink) (use query_begin in \<open>auto simp: used_def\<close>)
next
  case (query_commit n p ps h s qs s')
  then have "pool_inv n \<lparr>sy_pool = p, sy_pending = ps @ Running h s # qs\<rparr>" by simp
  then show ?case by (rule pool_inv_shrink) (auto simp: used_def sp.get_ins split: if_splits)
next
  case (query_fail n p ps h s qs)
  then have "pool_inv n \<lparr>sy_pool = p, sy_pending = ps @ Running h s # qs\<rparr>" by simp
  then show ?case by (rule pool_inv_shrink) (auto simp: used_def)
next
  case (free n p ps h)
  then have "pool_inv n \<lparr>sy_pool = p, sy_pending = ps\<rparr>" by simp
  then show ?case by (rule pool_inv_shrink) (auto simp: used_def pool_get_free split: if_splits)
next
  case (update n p ps h s s')
  then have "pool_inv n \<lparr>sy_pool = p, sy_pending = ps\<rparr>" by simp
  then show ?case by (rule pool_inv_shrink) (use update in \<open>auto simp: used_def sp.get_ins split: if_splits\<close>)
qed

text \<open>C7. However calls interleave, until 2^64 handles have been drawn a handle about to be
  inserted is not null, not live, and not drawn for any other call: no create or clone ever
  replaces a live contract state.\<close>

theorem drawn_handles_fresh:
  assumes "pool_reach n sy" and "n < 2 ^ 64" and "Drawn h s \<in> set (sy_pending sy)"
  shows "h \<noteq> 0 \<and> pool_get (sy_pool sy) h = None \<and> distinct (drawn (sy_pending sy))"
proof -
  have "h \<in> set (drawn (sy_pending sy))" using assms(3) by (auto simp: in_drawn)
  then show ?thesis
    using pool_reach_inv [OF assms(1,2)] by (auto simp: pool_inv_def used_def)
qed

theorem drawn_handles_fresh_witness:
  "(1::u64) \<noteq> 0 \<and> pool_get (empty_pool\<lparr>sp_next := 2\<rparr>) 1 = (None :: nat option) \<and> distinct (drawn [Drawn 1 (0::nat)])"
proof -
  have "pool_reach 1 \<lparr>sy_pool = empty_pool\<lparr>sp_next := 2\<rparr>, sy_pending = [Drawn 1 (0::nat)]\<rparr>"
    using pool_reach.draw [OF pool_reach.start, of 1 "empty_pool\<lparr>sp_next := 2\<rparr>" "0::nat"]
    by (simp add: take_handle_def empty_pool_def)
  from drawn_handles_fresh [OF this, of 1 0] show ?thesis by simp
qed



end
