(* ===== verification/ContractTx.thy ===== *)
theory ContractTx
  imports StatePool
begin

text \<open>
  Contract transactions in \<open>contract_ffi.rs\<close>: the unshielded offers that fund a call or receive a
  withdrawal, the gas context, the assembly of call and deploy transactions from JSON, signing an
  offer after proving, and the network's TTL ceiling. Decoding into ledger types, transcript
  partitioning, intents and transactions are the ledger's (parameters); randomness is a field.
\<close>

subsection \<open>Funding offers\<close>

record ('vk, 'tok, 'hash, 'addr, 'sk) offer_lib =
  ol_vk_deser :: "bytes \<Rightarrow> 'vk option"
  ol_tok_of :: "bytes \<Rightarrow> 'tok"
  ol_hash_deser :: "bytes \<Rightarrow> 'hash option"
  ol_addr_deser :: "bytes \<Rightarrow> 'addr option"
  ol_sk_of :: "bytes \<Rightarrow> 'sk option"
  ol_input_le :: "('vk, 'tok, 'hash) utxo_spend \<Rightarrow> ('vk, 'tok, 'hash) utxo_spend \<Rightarrow> bool"
  ol_output_le :: "('addr, 'tok) utxo_output \<Rightarrow> ('addr, 'tok) utxo_output \<Rightarrow> bool"

type_synonym ('vk, 'tok, 'hash, 'addr, 'sig) u_offer =
  "(('vk, 'tok, 'hash) utxo_spend, ('addr, 'tok) utxo_output, 'sig) unshielded_offer"

datatype offer_error =
    MissingAmount | BadAmount | MissingInputs | EmptyInputs
  | MissingInputField nat string | BadInputValue nat | BadInputHex nat string
  | BadInputLength nat string | BadInputKey nat | MixedTokens | BadInputHash nat
  | InputOverflow | InputsTooSmall u128 u128 | NoTokenType
  | MissingChangeOwner | ChangeOwnerHex | BadChangeOwner | TokenTypeHex
  | MissingNightKey | NightKeyHex | NightKeyLength | BadNightKey
  | MissingRecipient | RecipientHex | BadRecipient | MissingColor | ColorHex | ColorLength

text \<open>One entry of \<open>inputs\<close>, checked field by field; the token type must repeat the first one's.\<close>

definition funding_input ::
    "hexlib \<Rightarrow> ('vk, 'tok, 'hash, 'addr, 'sk) offer_lib \<Rightarrow> nat \<Rightarrow> json \<Rightarrow> string option \<Rightarrow>
     offer_error + (('vk, 'tok, 'hash) utxo_spend \<times> string)" where
  "funding_input hx ol i jin token_type_hex =
     bindE (ok_or (MissingInputField i ''value'') (as_str (jidx jin ''value''))) (\<lambda>value_str.
     bindE (ok_or (BadInputValue i) (parse_u128 value_str)) (\<lambda>value.
     bindE (ok_or (MissingInputField i ''owner'') (as_str (jidx jin ''owner''))) (\<lambda>owner_hex.
     bindE (ok_or (BadInputHex i ''owner'') (hx_dec hx owner_hex)) (\<lambda>owner_bytes.
     bindE (guardE (length owner_bytes = 32) (BadInputLength i ''owner'')) (\<lambda>_.
     bindE (ok_or (BadInputKey i) (ol_vk_deser ol owner_bytes)) (\<lambda>owner.
     bindE (ok_or (MissingInputField i ''type'') (as_str (jidx jin ''type''))) (\<lambda>tt_hex.
     bindE (guardE (token_type_hex = None \<or> token_type_hex = Some tt_hex) MixedTokens) (\<lambda>_.
     bindE (ok_or (BadInputHex i ''type'') (hx_dec hx tt_hex)) (\<lambda>tt_bytes.
     bindE (guardE (length tt_bytes = 32) (BadInputLength i ''type'')) (\<lambda>_.
     bindE (ok_or (MissingInputField i ''intent_hash'') (as_str (jidx jin ''intent_hash''))) (\<lambda>ih_hex.
     bindE (ok_or (BadInputHex i ''intent_hash'') (hx_dec hx ih_hex)) (\<lambda>ih_bytes.
     bindE (ok_or (BadInputHash i) (ol_hash_deser ol ih_bytes)) (\<lambda>intent_hash.
     bindE (ok_or (MissingInputField i ''output_no'') (as_u64 (jidx jin ''output_no''))) (\<lambda>output_no.
     Inr (\<lparr>us_value = value, us_owner = owner, us_type = ol_tok_of ol tt_bytes,
           us_intent_hash = intent_hash, us_output_no = ucast output_no\<rparr>, tt_hex)))))))))))))))"

fun funding_loop ::
    "hexlib \<Rightarrow> ('vk, 'tok, 'hash, 'addr, 'sk) offer_lib \<Rightarrow> nat \<Rightarrow> json list \<Rightarrow>
     u128 \<times> string option \<times> ('vk, 'tok, 'hash) utxo_spend list \<Rightarrow>
     offer_error + (u128 \<times> string option \<times> ('vk, 'tok, 'hash) utxo_spend list)" where
  "funding_loop hx ol i [] st = Inr st"
| "funding_loop hx ol i (jin # rest) (tot, token_type_hex, inputs) =
     bindE (funding_input hx ol i jin token_type_hex) (\<lambda>(spend, tt_hex).
     bindE (ok_or InputOverflow (checked_add tot (us_value spend))) (\<lambda>tot'.
     funding_loop hx ol (i + 1) rest (tot', Some tt_hex, inputs @ [spend])))"

text \<open>The change output, if there is change. The loop has decoded this token type before.\<close>

definition change_outputs ::
    "hexlib \<Rightarrow> ('vk, 'tok, 'hash, 'addr, 'sk) offer_lib \<Rightarrow> json \<Rightarrow> u128 \<Rightarrow> string \<Rightarrow>
     offer_error + ('addr, 'tok) utxo_output list" where
  "change_outputs hx ol funding change token_type_hex =
     (if change > 0 then
        bindE (ok_or MissingChangeOwner (as_str (jidx funding ''change_owner''))) (\<lambda>owner_hex.
        bindE (ok_or ChangeOwnerHex (hx_dec hx owner_hex)) (\<lambda>change_owner_bytes.
        bindE (ok_or BadChangeOwner (ol_addr_deser ol change_owner_bytes)) (\<lambda>change_owner.
        bindE (ok_or TokenTypeHex (hx_dec hx token_type_hex)) (\<lambda>tt_bytes.
        Inr [\<lparr>uo_value = change, uo_owner = change_owner, uo_type = ol_tok_of ol tt_bytes\<rparr>]))))
      else Inr [])"

definition night_keys ::
    "hexlib \<Rightarrow> ('vk, 'tok, 'hash, 'addr, 'sk) offer_lib \<Rightarrow> json \<Rightarrow> nat \<Rightarrow> offer_error + 'sk list" where
  "night_keys hx ol funding input_count =
     bindE (ok_or MissingNightKey (as_str (jidx funding ''night_private_key''))) (\<lambda>key_hex.
     bindE (ok_or NightKeyHex (hx_dec hx key_hex)) (\<lambda>night_key_bytes.
     bindE (guardE (length night_key_bytes = 32) NightKeyLength) (\<lambda>_.
     mapE (\<lambda>_. ok_or BadNightKey (ol_sk_of ol night_key_bytes)) [0..<input_count])))"

text \<open>\<open>NoTokenType\<close> stands for the \<open>expect\<close> on the token type; it cannot be reached.\<close>

definition build_funding_offer ::
    "hexlib \<Rightarrow> ('vk, 'tok, 'hash, 'addr, 'sk) offer_lib \<Rightarrow> json \<Rightarrow>
     offer_error + (('vk, 'tok, 'hash, 'addr, 'sig) u_offer \<times> 'sk list)" where
  "build_funding_offer hx ol funding =
     bindE (ok_or MissingAmount (as_str (jidx funding ''amount''))) (\<lambda>amount_str.
     bindE (ok_or BadAmount (parse_u128 amount_str)) (\<lambda>amount.
     bindE (ok_or MissingInputs (as_array (jidx funding ''inputs''))) (\<lambda>inputs_json.
     bindE (guardE (inputs_json \<noteq> []) EmptyInputs) (\<lambda>_.
     bindE (funding_loop hx ol 0 inputs_json (0, None, [])) (\<lambda>(tot, token_type, inputs).
     bindE (guardE (\<not> tot < amount) (InputsTooSmall tot amount)) (\<lambda>_.
     let change = tot - amount in
     bindE (ok_or NoTokenType token_type) (\<lambda>token_type_hex.
     bindE (change_outputs hx ol funding change token_type_hex) (\<lambda>outputs.
     let inputs = sort_by (ol_input_le ol) inputs; outputs = sort_by (ol_output_le ol) outputs in
     bindE (night_keys hx ol funding (length inputs)) (\<lambda>keys.
     Inr (\<lparr>uf_inputs = inputs, uf_outputs = outputs, uf_signatures = []\<rparr>, keys))))))))))"

definition build_withdrawal_offer ::
    "hexlib \<Rightarrow> ('vk, 'tok, 'hash, 'addr, 'sk) offer_lib \<Rightarrow> json \<Rightarrow>
     offer_error + ('vk, 'tok, 'hash, 'addr, 'sig) u_offer" where
  "build_withdrawal_offer hx ol withdrawal =
     bindE (ok_or MissingAmount (as_str (jidx withdrawal ''amount''))) (\<lambda>amount_str.
     bindE (ok_or BadAmount (parse_u128 amount_str)) (\<lambda>amount.
     bindE (ok_or MissingRecipient (as_str (jidx withdrawal ''recipient''))) (\<lambda>recipient_hex.
     bindE (ok_or RecipientHex (hx_dec hx recipient_hex)) (\<lambda>recipient_bytes.
     bindE (ok_or BadRecipient (ol_addr_deser ol recipient_bytes)) (\<lambda>recipient.
     bindE (ok_or MissingColor (as_str (jidx withdrawal ''color''))) (\<lambda>color_hex.
     bindE (ok_or ColorHex (hx_dec hx color_hex)) (\<lambda>color_bytes.
     bindE (guardE (length color_bytes = 32) ColorLength) (\<lambda>_.
     Inr \<lparr>uf_inputs = [],
          uf_outputs = [\<lparr>uo_value = amount, uo_owner = recipient, uo_type = ol_tok_of ol color_bytes\<rparr>],
          uf_signatures = []\<rparr>))))))))"

lemma funding_input_token:
  "funding_input hx ol i jin t = Inr (sp, tt) \<Longrightarrow>
   (t = None \<or> t = Some tt) \<and> (\<exists>b. hx_dec hx tt = Some b \<and> us_type sp = ol_tok_of ol b)"
  by (auto simp: funding_input_def resE)

lemma funding_loop_sum:
  assumes "funding_loop hx ol i js (n, t, ins) = Inr (n', t', ins')"
  shows "unat n' + sum_list (map (unat \<circ> us_value) ins) =
      unat n + sum_list (map (unat \<circ> us_value) ins') \<and> length ins' = length ins + length js \<and>
    (js \<noteq> [] \<or> t \<noteq> None \<longrightarrow> t' \<noteq> None) \<and> (t \<noteq> None \<longrightarrow> t' = t) \<and>
    (\<forall>tt. t' = Some tt \<longrightarrow> (\<forall>sp \<in> set ins' - set ins. \<exists>b. hx_dec hx tt = Some b \<and> us_type sp = ol_tok_of ol b))"
  using assms
proof (induction js arbitrary: i n t ins)
  case (Cons j js)
  obtain sp tt m where one: "funding_input hx ol i j t = Inr (sp, tt)"
    and m: "checked_add n (us_value sp) = Some m"
    and rest: "funding_loop hx ol (i + 1) js (m, Some tt, ins @ [sp]) = Inr (n', t', ins')"
    using Cons.prems by (auto simp: resE split: prod.splits)
  note IH = Cons.IH [OF rest]
  note tok = funding_input_token [OF one]
  have "unat m = unat n + unat (us_value sp)" using m by (rule checked_add_Some)
  moreover have "t' = Some tt" using IH by simp
  ultimately show ?case using IH tok by auto
qed auto

lemma sum_insert_by: "sum_list (map f (insert_by le x ys)) = f x + sum_list (map f ys)" for f :: "'a \<Rightarrow> nat"
  by (induction ys) auto

lemma sum_sort_by [simp]: "sum_list (map f (sort_by le xs)) = sum_list (map f xs)" for f :: "'a \<Rightarrow> nat"
  by (induction xs) (auto simp: sum_insert_by)

lemma change_outputs_Inr:
  assumes "change_outputs hx ol funding change tt = Inr outs"
  shows "sum_list (map (unat \<circ> uo_value) outs) = unat change \<and> length outs \<le> 1 \<and>
    (\<forall>ot \<in> set outs. uo_value ot > 0 \<and> (\<exists>b. hx_dec hx tt = Some b \<and> uo_type ot = ol_tok_of ol b))"
  using assms by (auto simp: change_outputs_def resE word_gt_0 split: if_splits)

lemma funding_offer_balanced:
  assumes "build_funding_offer hx ol funding = Inr (offer, keys)"
  shows "\<exists>amount_str amount tok. as_str (jidx funding ''amount'') = Some amount_str \<and>
    parse_u128 amount_str = Some amount \<and>
    sum_list (map (unat \<circ> us_value) (uf_inputs offer)) =
      unat amount + sum_list (map (unat \<circ> uo_value) (uf_outputs offer)) \<and>
    (\<forall>sp \<in> set (uf_inputs offer). us_type sp = tok) \<and>
    (\<forall>ot \<in> set (uf_outputs offer). uo_type ot = tok \<and> 0 < uo_value ot) \<and>
    length (uf_outputs offer) \<le> 1 \<and> uf_signatures offer = [] \<and>
    length keys = length (uf_inputs offer) \<and> uf_inputs offer \<noteq> []"
proof -
  obtain amount_str amount js n t ins outs where a: "as_str (jidx funding ''amount'') = Some amount_str"
      "parse_u128 amount_str = Some amount"
    and js: "js \<noteq> []" and lp: "funding_loop hx ol 0 js (0, None, []) = Inr (n, Some t, ins)"
    and enough: "\<not> n < amount" and outs: "change_outputs hx ol funding (n - amount) t = Inr outs"
    and keys: "night_keys hx ol funding (length ins) = Inr keys"
    and offer: "offer = \<lparr>uf_inputs = sort_by (ol_input_le ol) ins,
      uf_outputs = sort_by (ol_output_le ol) outs, uf_signatures = []\<rparr>"
    using assms by (auto simp: build_funding_offer_def resE Let_def split: prod.splits)
  note L = funding_loop_sum [OF lp]
  note C = change_outputs_Inr [OF outs]
  have ne: "ins \<noteq> []" using L js by (cases js) auto
  then have "\<exists>b. hx_dec hx t = Some b" using L by (cases ins) auto
  then obtain b where b: "hx_dec hx t = Some b" ..
  have "unat (n - amount) = unat n - unat amount"
    using enough by (simp add: unat_sub not_less)
  then have bal: "sum_list (map (unat \<circ> us_value) ins) = unat amount + sum_list (map (unat \<circ> uo_value) outs)"
    using L C enough by (auto simp: not_less word_le_nat_alt)
  have "length keys = length ins" using keys by (auto simp: night_keys_def resE dest!: mapE_length)
  moreover have "sort_by (ol_input_le ol) ins \<noteq> []" using ne by (metis length_0_conv length_sort_by)
  ultimately show ?thesis
    using a bal L C b by (intro exI [of _ amount_str] exI [of _ amount] exI [of _ "ol_tok_of ol b"]) (simp add: offer)
qed

text \<open>C9. A funding offer balances exactly: its inputs hold the requested amount plus the change it
  pays back, in one token, without overflow; it is unsigned and comes with a key for every input.\<close>

theorem funding_balances:
  assumes "build_funding_offer hx ol funding = Inr (offer, keys)"
  shows "\<exists>amount_str amount tok. as_str (jidx funding ''amount'') = Some amount_str \<and>
    parse_u128 amount_str = Some amount \<and>
    sum_list (map (unat \<circ> us_value) (uf_inputs offer)) =
      unat amount + sum_list (map (unat \<circ> uo_value) (uf_outputs offer)) \<and>
    (\<forall>sp \<in> set (uf_inputs offer). us_type sp = tok) \<and>
    (\<forall>ot \<in> set (uf_outputs offer). uo_type ot = tok \<and> 0 < uo_value ot) \<and>
    length (uf_outputs offer) \<le> 1 \<and> uf_signatures offer = [] \<and>
    length keys = length (uf_inputs offer) \<and> uf_inputs offer \<noteq> []"
  using assms by (rule funding_offer_balanced)

definition demo_offer_lib :: "(bytes, bytes, bytes, bytes, bytes) offer_lib" where
  "demo_offer_lib = \<lparr>ol_vk_deser = Some, ol_tok_of = (\<lambda>b. b), ol_hash_deser = Some, ol_addr_deser = Some,
     ol_sk_of = Some, ol_input_le = (\<lambda>a b. us_value a \<le> us_value b),
     ol_output_le = (\<lambda>a b. uo_value a \<le> uo_value b)\<rparr>"

definition demo_hex32 :: string where
  "demo_hex32 = replicate 64 (CHR ''0'')"

definition demo_funding_input :: "string \<Rightarrow> json" where
  "demo_funding_input v = JObject [(''intent_hash'', JString ''ab''), (''output_no'', JNumber (PosInt 0)),
     (''owner'', JString demo_hex32), (''type'', JString demo_hex32), (''value'', JString v)]"

definition demo_funding :: json where
  "demo_funding = JObject [(''amount'', JString (show_word (5 :: u128))), (''change_owner'', JString ''cd''),
     (''inputs'', JArray [demo_funding_input (show_word (4 :: u128)), demo_funding_input (show_word (3 :: u128))]),
     (''night_private_key'', JString demo_hex32)]"

lemma dec_hex32: "hx_dec ref_hex demo_hex32 = Some (replicate 32 0)"
  by code_simp

definition demo_spend :: "u128 \<Rightarrow> (bytes, bytes, bytes) utxo_spend" where
  "demo_spend v = \<lparr>us_value = v, us_owner = replicate 32 0, us_type = replicate 32 0,
     us_intent_hash = [0xab], us_output_no = 0\<rparr>"

lemma demo_funding_step:
  "t = None \<or> t = Some demo_hex32 \<Longrightarrow>
   funding_input ref_hex demo_offer_lib i (demo_funding_input (show_word v)) t = Inr (demo_spend v, demo_hex32)"
  by (auto simp: funding_input_def demo_funding_input_def jidx_def dec_hex32 demo_offer_lib_def demo_spend_def)
    (auto simp: ref_hex_def hex_val_def)

lemma demo_funding_offer:
  "build_funding_offer ref_hex demo_offer_lib demo_funding =
     Inr (\<lparr>uf_inputs = [demo_spend 3, demo_spend 4],
           uf_outputs = [\<lparr>uo_value = 2, uo_owner = [0xcd], uo_type = replicate 32 0\<rparr>],
           uf_signatures = [] :: unit list\<rparr>, [replicate 32 0, replicate 32 0])"
proof -
  have "checked_add 0 4 = Some (4 :: u128)" "checked_add 4 3 = Some (7 :: u128)"
    by (simp_all add: checked_add_def)
  then have "funding_loop ref_hex demo_offer_lib 0
      [demo_funding_input (show_word (4 :: u128)), demo_funding_input (show_word (3 :: u128))] (0, None, []) =
      Inr (7, Some demo_hex32, [demo_spend 4, demo_spend 3])"
    by (simp add: demo_funding_step) (simp add: demo_spend_def)
  moreover have "hx_dec ref_hex ''cd'' = Some [0xcd]" by code_simp
  ultimately show ?thesis
    by (simp add: build_funding_offer_def demo_funding_def jidx_def change_outputs_def night_keys_def dec_hex32)
      (simp add: demo_offer_lib_def demo_spend_def)
qed

theorem funding_balances_witness:
  "\<exists>amount_str amount tok. as_str (jidx demo_funding ''amount'') = Some amount_str \<and>
    parse_u128 amount_str = Some amount \<and>
    sum_list (map (unat \<circ> us_value) [demo_spend 3, demo_spend 4]) =
      unat amount + sum_list (map (unat \<circ> uo_value)
        [\<lparr>uo_value = 2 :: u128, uo_owner = [0xcd :: u8], uo_type = replicate 32 (0 :: u8)\<rparr>]) \<and>
    (\<forall>sp \<in> {demo_spend 3, demo_spend 4}. us_type sp = tok)"
  using funding_balances [OF demo_funding_offer] by fastforce

subsection \<open>The offer a call needs\<close>

text \<open>The error carries the token and the amount for the caller's automatic funding.\<close>

datatype unfunded = UnfundedReceive string u128 string | UnfundedSend string u128 string

definition check_unshielded_offer_present ::
    "(string \<times> u128) option \<Rightarrow> (string \<times> u128) option \<Rightarrow> bool \<Rightarrow> bool \<Rightarrow> string \<Rightarrow> unfunded + unit" where
  "check_unshielded_offer_present receives sends has_funding has_withdrawal circuit =
     (if has_funding \<or> has_withdrawal then Inr ()
      else case receives of
        Some (token, amount) \<Rightarrow> Inl (UnfundedReceive token amount circuit)
      | None \<Rightarrow>
          (case sends of
             Some (token, amount) \<Rightarrow> Inl (UnfundedSend token amount circuit)
           | None \<Rightarrow> Inr ()))"

lemma check_offer_Inr:
  "check_unshielded_offer_present r s f w c = Inr u \<longleftrightarrow> f \<or> w \<or> (r = None \<and> s = None)"
  by (auto simp: check_unshielded_offer_present_def split: option.splits)

subsection \<open>Re-running a transcript\<close>

text \<open>
  The VM's operations as the source lists them; a \<open>Popeq\<close> carries its result in a verified
  transcript and none in a gathering one. \<open>OpOther\<close> is any variant the source does not handle.
\<close>

datatype ('n, 'val, 'path, 'r, 'x) vm_op =
    OpDup 'n | OpPop | OpPopeq bool 'r | OpPush bool 'val | OpIdx bool bool 'path | OpIns bool 'n
  | OpLt | OpEq | OpAdd | OpSub | OpNeg | OpAnd | OpOr | OpType | OpSize | OpNew | OpLog | OpRoot
  | OpMember | OpCkpt | OpNoop 'n | OpBranch 'n | OpJmp 'n | OpConcat bool 'n | OpSwap 'n
  | OpRem bool | OpAddi 'n | OpSubi 'n | OpOther 'x

fun convert_op :: "('n, 'val, 'path, 'r, 'x) vm_op \<Rightarrow> 'x + ('n, 'val, 'path, unit, 'x) vm_op" where
  "convert_op (OpDup n) = Inr (OpDup n)"
| "convert_op OpPop = Inr OpPop"
| "convert_op (OpPopeq cached result) = Inr (OpPopeq cached ())"
| "convert_op (OpPush storage value) = Inr (OpPush storage value)"
| "convert_op (OpIdx cached push_path path) = Inr (OpIdx cached push_path path)"
| "convert_op (OpIns cached n) = Inr (OpIns cached n)"
| "convert_op OpLt = Inr OpLt"
| "convert_op OpEq = Inr OpEq"
| "convert_op OpAdd = Inr OpAdd"
| "convert_op OpSub = Inr OpSub"
| "convert_op OpNeg = Inr OpNeg"
| "convert_op OpAnd = Inr OpAnd"
| "convert_op OpOr = Inr OpOr"
| "convert_op OpType = Inr OpType"
| "convert_op OpSize = Inr OpSize"
| "convert_op OpNew = Inr OpNew"
| "convert_op OpLog = Inr OpLog"
| "convert_op OpRoot = Inr OpRoot"
| "convert_op OpMember = Inr OpMember"
| "convert_op OpCkpt = Inr OpCkpt"
| "convert_op (OpNoop n) = Inr (OpNoop n)"
| "convert_op (OpBranch skip) = Inr (OpBranch skip)"
| "convert_op (OpJmp skip) = Inr (OpJmp skip)"
| "convert_op (OpConcat cached n) = Inr (OpConcat cached n)"
| "convert_op (OpSwap n) = Inr (OpSwap n)"
| "convert_op (OpRem cached) = Inr (OpRem cached)"
| "convert_op (OpAddi immediate) = Inr (OpAddi immediate)"
| "convert_op (OpSubi immediate) = Inr (OpSubi immediate)"
| "convert_op (OpOther x) = Inl x"

definition convert_verify_to_gather ::
    "('n, 'val, 'path, 'r, 'x) vm_op list \<Rightarrow> 'x + ('n, 'val, 'path, unit, 'x) vm_op list" where
  "convert_verify_to_gather ops = mapE convert_op ops"

lemma convert_op_erases: "convert_op op = Inr g \<Longrightarrow> g = map_vm_op id id id (\<lambda>_. ()) id op"
  by (cases op) auto

lemma convert_erases_results:
  "convert_verify_to_gather ops = Inr gs \<Longrightarrow> gs = map (map_vm_op id id id (\<lambda>_. ()) id) ops"
proof -
  assume c: "convert_verify_to_gather ops = Inr gs"
  show ?thesis
  proof (rule nth_equalityI)
    show "length gs = length (map (map_vm_op id id id (\<lambda>_. ()) id) ops)"
      using c by (simp add: convert_verify_to_gather_def mapE_length)
    show "gs ! i = map (map_vm_op id id id (\<lambda>_. ()) id) ops ! i" if "i < length gs" for i
      using that c mapE_nth [of convert_op ops gs i] mapE_length [of convert_op ops gs]
      by (simp add: convert_verify_to_gather_def convert_op_erases)
  qed
qed

subsection \<open>The gas context\<close>

record 'data query_context =
  qc_state :: 'data
  qc_address :: bytes
  qc_tblock :: u64
  qc_tblock_err :: u32
  qc_parent_block_hash :: bytes
  qc_last_block_time :: u64

datatype gas_error = AddressHex | AddressBytes nat

text \<open>Chain time if the caller gives a positive one, else the clock (an argument).\<close>

definition build_gas_query_context ::
    "hexlib \<Rightarrow> u64 \<Rightarrow> 'data \<Rightarrow> string \<Rightarrow> int option \<Rightarrow> gas_error + 'data query_context" where
  "build_gas_query_context hx clock_secs state contract_address_hex block_time_secs =
     (let now_secs = (case block_time_secs of
                        Some t \<Rightarrow> if t > 0 then word_of_int t else clock_secs
                      | None \<Rightarrow> clock_secs) in
      bindE (ok_or AddressHex (hx_dec hx contract_address_hex)) (\<lambda>addr_bytes.
      bindE (guardE (length addr_bytes = 32) (AddressBytes (length addr_bytes))) (\<lambda>_.
      Inr \<lparr>qc_state = state, qc_address = addr_bytes, qc_tblock = now_secs, qc_tblock_err = 3,
           qc_parent_block_hash = addr_bytes, qc_last_block_time = sat_sub now_secs 6\<rparr>)))"

subsection \<open>Signing after proving\<close>

text \<open>
  Of a proven transaction the source reads the intents (a map from segments) and each intent's
  fallible offer; \<open>Intent::sign\<close> is the ledger's.
\<close>

datatype ('i, 'rest) proven_tx = StandardTx "(u16 \<times> 'i) list" 'rest | OtherTx

record ('i, 'rest, 'input, 'output, 'sig, 'sk) proven_lib =
  pv_deser :: "bytes \<Rightarrow> ('i, 'rest) proven_tx option"
  pv_fallible :: "'i \<Rightarrow> ('input, 'output, 'sig) unshielded_offer option"
  pv_sk_of :: "bytes \<Rightarrow> 'sk option"
  pv_sign :: "u16 \<Rightarrow> 'i \<Rightarrow> 'sk list \<Rightarrow> 'i option"
  pv_ser :: "('i, 'rest) proven_tx \<Rightarrow> bytes option"

datatype sign_error =
    SignJson | MissingProvenTx | MissingSignKey | SignKeyHex | SignKeyLength | ProvenTxHex
  | ProvenTxDeser | NotStandard | BadSignKey | SignOffer | NothingToSign | SignedSer

definition needs_signature :: "('i, 'rest, 'input, 'output, 'sig, 'sk) proven_lib \<Rightarrow> 'i \<Rightarrow> bool" where
  "needs_signature pv intent =
     (case pv_fallible pv intent of Some off \<Rightarrow> uf_signatures off = [] | None \<Rightarrow> False)"

definition sign_intent ::
    "('i, 'rest, 'input, 'output, 'sig, 'sk) proven_lib \<Rightarrow> bytes \<Rightarrow> 'i \<Rightarrow> sign_error + 'i" where
  "sign_intent pv nk intent =
     (case pv_fallible pv intent of
        Some off \<Rightarrow>
          if uf_signatures off = [] then
            bindE (mapE (\<lambda>_. ok_or BadSignKey (pv_sk_of pv nk)) [0..<length (uf_inputs off)]) (\<lambda>keys.
            ok_or SignOffer (pv_sign pv 1 intent keys))
          else Inr intent
      | None \<Rightarrow> Inr intent)"

definition sign_intents ::
    "('i, 'rest, 'input, 'output, 'sig, 'sk) proven_lib \<Rightarrow> bytes \<Rightarrow> (u16 \<times> 'i) list \<Rightarrow>
     sign_error + (u16 \<times> 'i) list" where
  "sign_intents pv nk intents =
     bindE (mapE (\<lambda>(seg, intent). bindE (sign_intent pv nk intent) (\<lambda>intent'. Inr (seg, intent'))) intents)
       (\<lambda>new_intents.
     bindE (guardE (\<exists>e \<in> set intents. needs_signature pv (snd e)) NothingToSign) (\<lambda>_. Inr new_intents))"

definition sign_proven_offer_impl ::
    "hexlib \<Rightarrow> json_lib \<Rightarrow> ('i, 'rest, 'input, 'output, 'sig, 'sk) proven_lib \<Rightarrow> string \<Rightarrow>
     sign_error + string" where
  "sign_proven_offer_impl hx jl pv json_str =
     bindE (ok_or SignJson (jl_parse jl json_str)) (\<lambda>params.
     bindE (ok_or MissingProvenTx (as_str (jidx params ''proven_tx_hex''))) (\<lambda>proven_hex.
     bindE (ok_or MissingSignKey (as_str (jidx params ''night_private_key''))) (\<lambda>night_key_hex.
     bindE (ok_or SignKeyHex (hx_dec hx night_key_hex)) (\<lambda>nk.
     bindE (guardE (length nk = 32) SignKeyLength) (\<lambda>_.
     bindE (ok_or ProvenTxHex (hx_dec hx proven_hex)) (\<lambda>proven_bytes.
     bindE (ok_or ProvenTxDeser (pv_deser pv proven_bytes)) (\<lambda>proven_tx.
     case proven_tx of
       OtherTx \<Rightarrow> Inl NotStandard
     | StandardTx intents rest \<Rightarrow>
         bindE (sign_intents pv nk intents) (\<lambda>new_intents.
         bindE (ok_or SignedSer (pv_ser pv (StandardTx new_intents rest))) (\<lambda>bs.
         Inr (hx_enc hx bs))))))))))"

definition contract_sign_proven_offer ::
    "hexlib \<Rightarrow> json_lib \<Rightarrow> ('i, 'rest, 'input, 'output, 'sig, 'sk) proven_lib \<Rightarrow> cptr \<Rightarrow> sign_error reply" where
  "contract_sign_proven_offer hx jl pv params_json =
     (case c_str_to_str params_json of None \<Rightarrow> NullReply
      | Some json_str \<Rightarrow> reply_of (sign_proven_offer_impl hx jl pv json_str))"

lemma sign_intent_other: "\<not> needs_signature pv i \<Longrightarrow> sign_intent pv nk i = Inr i"
  by (auto simp: needs_signature_def sign_intent_def split: option.splits)

lemma sign_intent_needed:
  assumes "needs_signature pv i" and "sign_intent pv nk i = Inr j"
  shows "\<exists>off keys. pv_fallible pv i = Some off \<and> length keys = length (uf_inputs off) \<and>
    (\<forall>k \<in> set keys. pv_sk_of pv nk = Some k) \<and> pv_sign pv 1 i keys = Some j"
proof -
  obtain off keys where off: "pv_fallible pv i = Some off"
    and keys: "mapE (\<lambda>_. ok_or BadSignKey (pv_sk_of pv nk)) [0..<length (uf_inputs off)] = Inr keys"
    and j: "pv_sign pv 1 i keys = Some j"
    using assms by (auto simp: needs_signature_def sign_intent_def resE split: option.splits)
  have "length keys = length (uf_inputs off)" using mapE_length [OF keys] by simp
  moreover have "pv_sk_of pv nk = Some k" if "k \<in> set keys" for k
    using mapE_set [OF keys that] by (auto simp: ok_or_eq_Inr)
  ultimately show ?thesis using off j by blast
qed

lemma sign_intents_nth:
  assumes "sign_intents pv nk intents = Inr new"
  shows "length new = length intents" and "\<exists>e \<in> set intents. needs_signature pv (snd e)"
    and "k < length intents \<Longrightarrow> fst (new ! k) = fst (intents ! k) \<and>
      sign_intent pv nk (snd (intents ! k)) = Inr (snd (new ! k))"
proof -
  have m: "mapE (\<lambda>(seg, intent). bindE (sign_intent pv nk intent) (\<lambda>intent'. Inr (seg, intent'))) intents = Inr new"
    and ex: "\<exists>e \<in> set intents. needs_signature pv (snd e)"
    using assms by (auto simp: sign_intents_def resE)
  show "length new = length intents" using m by (rule mapE_length)
  show "\<exists>e \<in> set intents. needs_signature pv (snd e)" by (rule ex)
  show "fst (new ! k) = fst (intents ! k) \<and>
      sign_intent pv nk (snd (intents ! k)) = Inr (snd (new ! k))" if "k < length intents"
    using mapE_nth [OF m that] by (cases "intents ! k"; cases "new ! k") (auto simp: resE)
qed


definition demo_json :: "json \<Rightarrow> json_lib" where
  "demo_json v = \<lparr>jl_parse = (\<lambda>s. Some v), jl_print = (\<lambda>v. ''v'')\<rparr>"

type_synonym demo_intent = "(nat, nat, nat) unshielded_offer option"

definition demo_proven_lib :: "(demo_intent, unit, nat, nat, nat, bytes) proven_lib" where
  "demo_proven_lib = \<lparr>
     pv_deser = (\<lambda>b. Some (StandardTx
       [(1, Some \<lparr>uf_inputs = [7], uf_outputs = [], uf_signatures = []\<rparr>), (2, None)] ())),
     pv_fallible = (\<lambda>i. i), pv_sk_of = Some,
     pv_sign = (\<lambda>seg i keys. map_option (\<lambda>off. Some (off\<lparr>uf_signatures := map length keys\<rparr>)) i),
     pv_ser = (\<lambda>t. Some [1])\<rparr>"

definition demo_sign_params :: json where
  "demo_sign_params = JObject [(''night_private_key'', JString demo_hex32), (''proven_tx_hex'', JString ''00'')]"


subsection \<open>Assembling a call\<close>

datatype 'o token_kind = TokUnshielded bytes | TokOther 'o

record ('op, 'trans, 'addr, 'fr) call_prototype =
  cp_address :: 'addr
  cp_entry_point :: string
  cp_op :: 'op
  cp_guaranteed :: "'trans option"
  cp_fallible :: "'trans option"
  cp_private_outputs :: "aligned_value list"
  cp_input :: aligned_value
  cp_output :: aligned_value
  cp_comm_rand :: 'fr
  cp_key_location :: string

datatype call_error =
    CallJson | MissingParam string | InputValue cv_error | OutputValue cv_error
  | MissingPrivateOutputs | PrivateOutput nat cv_error | TranscriptDeser | BadParamsHex | ParamsDeser
  | OpSer | OpDeser | BadInitialHandle u64 | BadStateHandle u64 | GasContext gas_error
  | Partition | NoTranscripts | AddressDecode | AddressDeser | Unfunded unfunded
  | OfferError offer_error | CallSer

text \<open>
  The ledger's side of a call. \<open>cl_add_call\<close> is \<open>Intent::empty(rng, ttl).add_call(prototype)\<close>;
  \<open>cl_call_op\<close> is \<open>ContractOperation::new(None)\<close>; \<open>cl_inputs_of\<close> and \<open>cl_outputs_of\<close> are
  the effects \<open>unshielded_inputs\<close> and \<open>unshielded_outputs\<close> in iteration order.
\<close>

record ('data, 'op, 'vop, 'params, 'trans, 'other, 'addr, 'fr, 'u, 'act, 'dust, 'bind, 'tx) call_lib =
  cl_ops_parse :: "string \<Rightarrow> 'vop list option"
  cl_op_ser :: "'vop \<Rightarrow> bytes option"
  cl_op_deser :: "bytes \<Rightarrow> ('vop \<times> bytes) option"
  cl_params_deser :: "bytes \<Rightarrow> 'params option"
  cl_initial_params :: 'params
  cl_partition :: "'data query_context \<Rightarrow> 'vop list \<Rightarrow> 'params \<Rightarrow> ('trans option \<times> 'trans option) list option"
  cl_inputs_of :: "'trans \<Rightarrow> ('other token_kind \<times> u128) list"
  cl_outputs_of :: "'trans \<Rightarrow> ('other token_kind \<times> u128) list"
  cl_addr_deser :: "bytes \<Rightarrow> 'addr option"
  cl_call_op :: 'op
  cl_random :: 'fr
  cl_add_call :: "u64 \<Rightarrow> ('op, 'trans, 'addr, 'fr) call_prototype \<Rightarrow> ('u, 'act, 'dust, 'bind) intent"
  cl_from_intents :: "string \<Rightarrow> (u16 \<times> ('u, 'act, 'dust, 'bind) intent) list \<Rightarrow> 'tx"
  cl_ser_tuple :: "'tx \<Rightarrow> bytes option"

text \<open>Every operation goes through its SCALE encoding once, all in one buffer.\<close>

fun op_deser_loop :: "(bytes \<Rightarrow> ('vop \<times> bytes) option) \<Rightarrow> nat \<Rightarrow> bytes \<Rightarrow> call_error + 'vop list" where
  "op_deser_loop deser 0 reader = Inr []"
| "op_deser_loop deser (Suc n) reader =
     bindE (ok_or OpDeser (deser reader)) (\<lambda>(op, reader').
     bindE (op_deser_loop deser n reader') (\<lambda>ops. Inr (op # ops)))"

definition normalize_ops ::
    "('data, 'op, 'vop, 'params, 'trans, 'other, 'addr, 'fr, 'u, 'act, 'dust, 'bind, 'tx) call_lib \<Rightarrow>
     'vop list \<Rightarrow> call_error + 'vop list" where
  "normalize_ops cl transcript_ops =
     bindE (mapE (\<lambda>op. ok_or OpSer (cl_op_ser cl op)) transcript_ops) (\<lambda>bufs.
     op_deser_loop (cl_op_deser cl) (length transcript_ops) (concat bufs))"

text \<open>The first unshielded entry of the effects, scanning the guaranteed transcript first.\<close>

fun first_unshielded :: "hexlib \<Rightarrow> ('other token_kind \<times> u128) list \<Rightarrow> (string \<times> u128) option" where
  "first_unshielded hx [] = None"
| "first_unshielded hx ((TokUnshielded ut, val) # rest) = Some (hx_enc hx ut, val)"
| "first_unshielded hx ((TokOther _, val) # rest) = first_unshielded hx rest"

definition scan_transcripts ::
    "hexlib \<Rightarrow> ('trans \<Rightarrow> ('other token_kind \<times> u128) list) \<Rightarrow> 'trans option \<Rightarrow> 'trans option \<Rightarrow>
     (string \<times> u128) option" where
  "scan_transcripts hx effects guaranteed fallible =
     (case (case guaranteed of Some t \<Rightarrow> first_unshielded hx (effects t) | None \<Rightarrow> None) of
        Some r \<Rightarrow> Some r
      | None \<Rightarrow> (case fallible of Some t \<Rightarrow> first_unshielded hx (effects t) | None \<Rightarrow> None))"

text \<open>A parameter that is present and not null.\<close>

definition present :: "json \<Rightarrow> string \<Rightarrow> json option" where
  "present params k = (case jget k params of Some v \<Rightarrow> if is_jnull v then None else Some v | None \<Rightarrow> None)"

lemma first_unshielded_None:
  "first_unshielded hx es = None \<longleftrightarrow> (\<forall>e \<in> set es. \<exists>k v. e = (TokOther k, v))"
  by (induction hx es rule: first_unshielded.induct) auto

definition default_ttl :: "json \<Rightarrow> u64 \<Rightarrow> u64" where
  "default_ttl params clock_secs =
     (case as_u64 (jidx params ''ttl_secs'') of Some t \<Rightarrow> t | None \<Rightarrow> clock_secs + 3600)"

definition call_values :: "json \<Rightarrow> call_error + (aligned_value \<times> aligned_value \<times> aligned_value list)" where
  "call_values proof_data =
     bindE (map_sum InputValue id (parse_aligned_value (jidx proof_data ''input''))) (\<lambda>input.
     bindE (map_sum OutputValue id (parse_aligned_value (jidx proof_data ''output''))) (\<lambda>output.
     bindE (ok_or MissingPrivateOutputs (as_array (jidx proof_data ''private_transcript_outputs''))) (\<lambda>priv_arr.
     bindE (mapE (\<lambda>(i, v). map_sum (PrivateOutput i) id (parse_aligned_value v)) (enumerate 0 priv_arr))
       (\<lambda>private_outputs. Inr (input, output, private_outputs)))))"

definition call_ledger_params ::
    "hexlib \<Rightarrow> ('data, 'op, 'vop, 'params, 'trans, 'other, 'addr, 'fr, ('vk, 'tok, 'hash, 'ua, 'sig) u_offer, 'act, 'dust, 'bind, 'tx) call_lib \<Rightarrow> json \<Rightarrow> call_error + 'params" where
  "call_ledger_params hx cl params =
     (case as_str (jidx params ''ledger_parameters_hex'') of
        Some hex_str \<Rightarrow>
          bindE (ok_or BadParamsHex (hx_dec hx hex_str)) (\<lambda>bs. ok_or ParamsDeser (cl_params_deser cl bs))
      | None \<Rightarrow> Inr (cl_initial_params cl))"

definition call_transcripts ::
    "hexlib \<Rightarrow> ('data, 'op, 'vop, 'params, 'trans, 'other, 'addr, 'fr, ('vk, 'tok, 'hash, 'ua, 'sig) u_offer, 'act, 'dust, 'bind, 'tx) call_lib \<Rightarrow> u64 \<Rightarrow> ('data, 'op, 'rest) contract_state pool \<Rightarrow> json \<Rightarrow> string \<Rightarrow> u64 \<Rightarrow> u64 \<Rightarrow>
     'vop list \<Rightarrow> 'params \<Rightarrow> call_error + ('trans option \<times> 'trans option)" where
  "call_transcripts hx cl clock_secs pool params contract_address_hex state_handle initial_state_handle
       normalized_ops ledger_params =
     bindE (ok_or (BadInitialHandle initial_state_handle) (pool_get pool initial_state_handle))
       (\<lambda>initial_state.
     bindE (guardE (pool_get pool state_handle \<noteq> None) (BadStateHandle state_handle)) (\<lambda>_.
     bindE (map_sum GasContext id (build_gas_query_context hx clock_secs (cs_data initial_state)
              contract_address_hex (as_i64 (jidx params ''block_time_secs'')))) (\<lambda>qc.
     bindE (ok_or Partition (cl_partition cl qc normalized_ops ledger_params)) (\<lambda>transcripts.
     case transcripts of [] \<Rightarrow> Inl NoTranscripts | t # _ \<Rightarrow> Inr t))))"

text \<open>Steps 7 and 8b: what the transcripts move, the check, and the offer put on the intent.\<close>

definition attach_offer ::
    "hexlib \<Rightarrow> ('data, 'op, 'vop, 'params, 'trans, 'other, 'addr, 'fr, ('vk, 'tok, 'hash, 'ua, 'sig) u_offer, 'act, 'dust, 'bind, 'tx) call_lib \<Rightarrow> ('vk, 'tok, 'hash, 'ua, 'sk) offer_lib \<Rightarrow> json \<Rightarrow> string \<Rightarrow> 'trans option \<Rightarrow> 'trans option \<Rightarrow>
     (('vk, 'tok, 'hash, 'ua, 'sig) u_offer, 'act, 'dust, 'bind) intent \<Rightarrow> call_error + (('vk, 'tok, 'hash, 'ua, 'sig) u_offer, 'act, 'dust, 'bind) intent" where
  "attach_offer hx cl ol params entry_point guaranteed fallible intent =
     (let receives = scan_transcripts hx (cl_inputs_of cl) guaranteed fallible;
          sends = scan_transcripts hx (cl_outputs_of cl) guaranteed fallible;
          has_funding = present params ''unshielded_funding'' \<noteq> None;
          has_withdrawal = present params ''unshielded_withdrawal'' \<noteq> None in
      bindE (map_sum Unfunded id
        (check_unshielded_offer_present receives sends has_funding has_withdrawal entry_point)) (\<lambda>_.
      case present params ''unshielded_funding'' of
        Some funding \<Rightarrow>
          bindE (map_sum OfferError id (build_funding_offer hx ol funding)) (\<lambda>(off, keys).
          Inr (intent\<lparr>in_fallible_offer := Some off\<rparr>))
      | None \<Rightarrow>
          (case present params ''unshielded_withdrawal'' of
             Some withdrawal \<Rightarrow>
               bindE (map_sum OfferError id (build_withdrawal_offer hx ol withdrawal)) (\<lambda>off.
               Inr (intent\<lparr>in_fallible_offer := Some off\<rparr>))
           | None \<Rightarrow> Inr intent)))"

definition call_intent ::
    "hexlib \<Rightarrow> json_lib \<Rightarrow> ('data, 'op, 'vop, 'params, 'trans, 'other, 'addr, 'fr, ('vk, 'tok, 'hash, 'ua, 'sig) u_offer, 'act, 'dust, 'bind, 'tx) call_lib \<Rightarrow> ('vk, 'tok, 'hash, 'ua, 'sk) offer_lib \<Rightarrow> u64 \<Rightarrow> u64 \<Rightarrow> ('data, 'op, 'rest) contract_state pool \<Rightarrow> json \<Rightarrow>
     call_error + (string \<times> (('vk, 'tok, 'hash, 'ua, 'sig) u_offer, 'act, 'dust, 'bind) intent)" where
  "call_intent hx jl cl ol ttl_clock gas_clock pool params =
     bindE (ok_or (MissingParam ''network_id'') (as_str (jidx params ''network_id''))) (\<lambda>network_id.
     bindE (ok_or (MissingParam ''contract_address'') (as_str (jidx params ''contract_address''))) (\<lambda>contract_address_hex.
     bindE (ok_or (MissingParam ''entry_point'') (as_str (jidx params ''entry_point''))) (\<lambda>entry_point.
     bindE (ok_or (MissingParam ''state_handle'') (as_u64 (jidx params ''state_handle''))) (\<lambda>state_handle.
     bindE (ok_or (MissingParam ''initial_state_handle'') (as_u64 (jidx params ''initial_state_handle''))) (\<lambda>initial_handle.
     let ttl_secs = default_ttl params ttl_clock; proof_data = jidx params ''proof_data'' in
     bindE (call_values proof_data) (\<lambda>(input, output, private_outputs).
     bindE (ok_or TranscriptDeser
       (cl_ops_parse cl (to_tag_first_json jl (jidx proof_data ''public_transcript'')))) (\<lambda>transcript_ops.
     bindE (call_ledger_params hx cl params) (\<lambda>ledger_params.
     bindE (normalize_ops cl transcript_ops) (\<lambda>normalized_ops.
     bindE (call_transcripts hx cl gas_clock pool params contract_address_hex state_handle initial_handle
       normalized_ops ledger_params) (\<lambda>(guaranteed, fallible).
     bindE (ok_or AddressDecode (hx_dec hx contract_address_hex)) (\<lambda>addr_bytes.
     bindE (ok_or AddressDeser (cl_addr_deser cl addr_bytes)) (\<lambda>addr.
     let prototype = \<lparr>cp_address = addr, cp_entry_point = entry_point, cp_op = cl_call_op cl,
           cp_guaranteed = guaranteed, cp_fallible = fallible, cp_private_outputs = private_outputs,
           cp_input = input, cp_output = output, cp_comm_rand = cl_random cl,
           cp_key_location = entry_point\<rparr> in
     bindE (attach_offer hx cl ol params entry_point guaranteed fallible (cl_add_call cl ttl_secs prototype))
       (\<lambda>intent. Inr (network_id, intent))))))))))))))"

definition assemble_call_tx_impl ::
    "hexlib \<Rightarrow> json_lib \<Rightarrow> ('data, 'op, 'vop, 'params, 'trans, 'other, 'addr, 'fr, ('vk, 'tok, 'hash, 'ua, 'sig) u_offer, 'act, 'dust, 'bind, 'tx) call_lib \<Rightarrow> ('vk, 'tok, 'hash, 'ua, 'sk) offer_lib \<Rightarrow> u64 \<Rightarrow> u64 \<Rightarrow> ('data, 'op, 'rest) contract_state pool \<Rightarrow>
     string \<Rightarrow> call_error + string" where
  "assemble_call_tx_impl hx jl cl ol ttl_clock gas_clock pool json_str =
     bindE (ok_or CallJson (jl_parse jl json_str)) (\<lambda>params.
     bindE (call_intent hx jl cl ol ttl_clock gas_clock pool params) (\<lambda>(network_id, intent).
     let tx = cl_from_intents cl network_id [(1, intent)] in
     bindE (ok_or CallSer (cl_ser_tuple cl tx)) (\<lambda>bs. Inr (hx_enc hx bs))))"

definition contract_assemble_call_tx ::
    "hexlib \<Rightarrow> json_lib \<Rightarrow> ('data, 'op, 'vop, 'params, 'trans, 'other, 'addr, 'fr, ('vk, 'tok, 'hash, 'ua, 'sig) u_offer, 'act, 'dust, 'bind, 'tx) call_lib \<Rightarrow> ('vk, 'tok, 'hash, 'ua, 'sk) offer_lib \<Rightarrow> u64 \<Rightarrow> u64 \<Rightarrow> ('data, 'op, 'rest) contract_state pool \<Rightarrow>
     cptr \<Rightarrow> call_error reply" where
  "contract_assemble_call_tx hx jl cl ol ttl_clock gas_clock pool params_json =
     (case c_str_to_str params_json of None \<Rightarrow> NullReply
      | Some json_str \<Rightarrow> reply_of (assemble_call_tx_impl hx jl cl ol ttl_clock gas_clock pool json_str))"

text \<open>Neither transcript has an unshielded effect.\<close>

definition moves_nothing ::
    "('data, 'op, 'vop, 'params, 'trans, 'other, 'addr, 'fr, 'u, 'act, 'dust, 'bind, 'tx) call_lib \<Rightarrow>
     'trans option \<Rightarrow> 'trans option \<Rightarrow> bool" where
  "moves_nothing cl guaranteed fallible \<longleftrightarrow>
     (\<forall>t \<in> set_option guaranteed \<union> set_option fallible.
        \<forall>e \<in> set (cl_inputs_of cl t) \<union> set (cl_outputs_of cl t). \<exists>k v. e = (TokOther k, v))"

lemma scan_None:
  "scan_transcripts hx eff g f = None \<longleftrightarrow>
     (\<forall>t \<in> set_option g \<union> set_option f. \<forall>e \<in> set (eff t). \<exists>k v. e = (TokOther k, v))"
proof -
  have F: "\<exists>e \<in> set es. \<forall>k v. e \<noteq> (TokOther k, v)" if "first_unshielded hx es = Some r"
    for es :: "('b token_kind \<times> u128) list" and r
  proof (rule ccontr)
    assume "\<not> ?thesis"
    then have "first_unshielded hx es = None" by (auto simp: first_unshielded_None)
    then show False using that by simp
  qed
  show ?thesis
    unfolding scan_transcripts_def
    by (cases g; cases f) (auto simp: first_unshielded_None dest!: F split: option.splits)
qed

lemma attach_offer_Inr:
  assumes "attach_offer hx cl ol params ep g f base = Inr i"
  shows "i = base\<lparr>in_fallible_offer := in_fallible_offer i\<rparr> \<and>
    (case present params ''unshielded_funding'' of
       Some funding \<Rightarrow> \<exists>off keys. build_funding_offer hx ol funding = Inr (off, keys) \<and> in_fallible_offer i = Some off
     | None \<Rightarrow>
         (case present params ''unshielded_withdrawal'' of
            Some withdrawal \<Rightarrow> \<exists>off. build_withdrawal_offer hx ol withdrawal = Inr off \<and> in_fallible_offer i = Some off
          | None \<Rightarrow> i = base \<and> moves_nothing cl g f))"
proof -
  show ?thesis
  proof (cases "present params ''unshielded_funding''")
    case (Some fd)
    with assms show ?thesis
      by (auto simp: attach_offer_def Let_def bindE_eq_Inr map_sum_Inr)
  next
    case None
    note noF = None
    show ?thesis
    proof (cases "present params ''unshielded_withdrawal''")
      case (Some w)
      with assms None show ?thesis
        by (auto simp: attach_offer_def Let_def bindE_eq_Inr map_sum_Inr)
    next
      case None
      with assms noF have "i = base"
        and "check_unshielded_offer_present (scan_transcripts hx (cl_inputs_of cl) g f)
          (scan_transcripts hx (cl_outputs_of cl) g f) False False ep = Inr ()"
        by (auto simp: attach_offer_def Let_def bindE_eq_Inr map_sum_Inr)
      then show ?thesis
        using noF None by (auto simp: check_offer_Inr scan_None moves_nothing_def)
    qed
  qed
qed

text \<open>C10. An assembled call is one intent at segment 1 whose fallible offer is what the caller
  declared: the funding offer if given, else the withdrawal offer; with neither, the circuit is
  known to move no unshielded value and the intent is left as the ledger built it.\<close>

theorem call_carries_declared_offer:
  assumes "assemble_call_tx_impl hx jl cl ol t1 t2 pool json_str = Inr hex"
  shows "\<exists>params network i base ttl proto bs. jl_parse jl json_str = Some params \<and>
    cl_ser_tuple cl (cl_from_intents cl network [(1, i)]) = Some bs \<and> hex = hx_enc hx bs \<and>
    base = cl_add_call cl ttl proto \<and> i = base\<lparr>in_fallible_offer := in_fallible_offer i\<rparr> \<and>
    (case present params ''unshielded_funding'' of
       Some funding \<Rightarrow> \<exists>off keys. build_funding_offer hx ol funding = Inr (off, keys) \<and> in_fallible_offer i = Some off
     | None \<Rightarrow>
         (case present params ''unshielded_withdrawal'' of
            Some withdrawal \<Rightarrow> \<exists>off. build_withdrawal_offer hx ol withdrawal = Inr off \<and> in_fallible_offer i = Some off
          | None \<Rightarrow> i = base \<and> moves_nothing cl (cp_guaranteed proto) (cp_fallible proto)))"
proof -
  obtain params network i bs where p: "jl_parse jl json_str = Some params"
    and ci: "call_intent hx jl cl ol t1 t2 pool params = Inr (network, i)"
    and bs: "cl_ser_tuple cl (cl_from_intents cl network [(1, i)]) = Some bs" "hex = hx_enc hx bs"
    using assms by (auto simp: assemble_call_tx_impl_def resE Let_def split: prod.splits)
  obtain ep g f ttl proto where at: "attach_offer hx cl ol params ep g f (cl_add_call cl ttl proto) = Inr i"
    and gf: "cp_guaranteed proto = g" "cp_fallible proto = f"
    using ci unfolding call_intent_def Let_def
    by (auto simp: resE split: prod.splits)
  from attach_offer_Inr [OF at] p bs gf show ?thesis by blast
qed

definition demo_call_lib ::
    "(nat, unit, nat, unit, unit, nat, bytes, nat, (bytes, bytes, bytes, bytes, unit) u_offer, unit, unit, nat, nat) call_lib" where
  "demo_call_lib = \<lparr>cl_ops_parse = (\<lambda>s. Some []), cl_op_ser = (\<lambda>v. Some []), cl_op_deser = (\<lambda>b. None),
     cl_params_deser = (\<lambda>b. None), cl_initial_params = (), cl_partition = (\<lambda>qc ops ps. Some [(Some (), None)]),
     cl_inputs_of = (\<lambda>t. [(TokOther 0, 5)]), cl_outputs_of = (\<lambda>t. []), cl_addr_deser = Some, cl_call_op = (),
     cl_random = 0, cl_add_call = (\<lambda>ttl proto. \<lparr>in_guaranteed_offer = None, in_fallible_offer = None,
       in_actions = [], in_dust_actions = None, in_ttl = ttl, in_binding = 0\<rparr>),
     cl_from_intents = (\<lambda>n is. length is), cl_ser_tuple = (\<lambda>t. Some [7])\<rparr>"

definition demo_empty_value :: json where
  "demo_empty_value = JObject [(''alignment'', JArray []), (''value'', JArray [])]"

definition demo_call_params :: json where
  "demo_call_params = JObject [(''contract_address'', JString demo_hex32), (''entry_point'', JString ''post''),
     (''initial_state_handle'', JNumber (PosInt 1)), (''network_id'', JString ''n''),
     (''proof_data'', JObject [(''input'', demo_empty_value), (''output'', demo_empty_value),
        (''private_transcript_outputs'', JArray []), (''public_transcript'', JArray [])]),
     (''state_handle'', JNumber (PosInt 2)), (''ttl_secs'', JNumber (PosInt 9))]"

theorem call_carries_declared_offer_witness:
  "\<exists>params network i base ttl proto bs. jl_parse (demo_json demo_call_params) ''x'' = Some params \<and>
     cl_ser_tuple demo_call_lib (cl_from_intents demo_call_lib network [(1, i)]) = Some bs \<and>
     ''07'' = hx_enc ref_hex bs \<and> base = cl_add_call demo_call_lib ttl proto \<and>
     i = base\<lparr>in_fallible_offer := in_fallible_offer i\<rparr>"
proof -
  have "assemble_call_tx_impl ref_hex (demo_json demo_call_params) demo_call_lib demo_offer_lib 0 100 demo_pool ''x'' = Inr ''07''"
    by code_simp
  from call_carries_declared_offer [OF this] show ?thesis by blast
qed

subsection \<open>Assembling a deployment\<close>

datatype deploy_error =
    DeployJson | DeployMissing string | DeployHandle u64 | KeyNotString string | KeyHex string
  | KeyDeser string | AddressSer | DeploySer

record ('data, 'op, 'rest, 'vk, 'deploy, 'addr, 'tx) deploy_lib =
  dp_vk_deser :: "bytes \<Rightarrow> 'vk option"
  dp_op_new :: "'vk \<Rightarrow> 'op"  \<comment> \<open>\<open>ContractOperation::new(Some(vk))\<close>\<close>
  dp_deploy :: "('data, 'op, 'rest) contract_state \<Rightarrow> 'deploy"
  dp_address :: "'deploy \<Rightarrow> 'addr"
  dp_addr_ser :: "'addr \<Rightarrow> bytes option"
  dp_tx :: "string \<Rightarrow> u64 \<Rightarrow> 'deploy \<Rightarrow> 'tx"  \<comment> \<open>one intent at segment 1\<close>
  dp_ser_tuple :: "'tx \<Rightarrow> bytes option"

text \<open>The verifier keys in key order; the first bad one stops the deployment.\<close>

fun register_keys ::
    "hexlib \<Rightarrow> ('data, 'op, 'rest, 'vk, 'deploy, 'addr, 'tx) deploy_lib \<Rightarrow> (string \<times> json) list \<Rightarrow>
     ('data, 'op, 'rest) contract_state \<Rightarrow> deploy_error + ('data, 'op, 'rest) contract_state" where
  "register_keys hx dp [] state = Inr state"
| "register_keys hx dp ((circuit_name, vk_hex_val) # rest) state =
     bindE (ok_or (KeyNotString circuit_name) (as_str vk_hex_val)) (\<lambda>vk_hex.
     bindE (ok_or (KeyHex circuit_name) (hx_dec hx vk_hex)) (\<lambda>vk_bytes.
     bindE (ok_or (KeyDeser circuit_name) (dp_vk_deser dp vk_bytes)) (\<lambda>vk.
     register_keys hx dp rest (set_operation circuit_name (dp_op_new dp vk) state))))"

definition deploy_text :: "hexlib \<Rightarrow> bytes \<Rightarrow> bytes \<Rightarrow> string" where
  "deploy_text hx tx addr =
     ''{'' @ [CHR 0x22] @ ''tx_hex'' @ [CHR 0x22] @ '':'' @ [CHR 0x22] @ hx_enc hx tx @ [CHR 0x22] @
     '','' @ [CHR 0x22] @ ''contract_address'' @ [CHR 0x22] @ '':'' @ [CHR 0x22] @ hx_enc hx addr @
     [CHR 0x22] @ ''}''"

definition deploy_tx ::
    "hexlib \<Rightarrow> ('data, 'op, 'rest, 'vk, 'deploy, 'addr, 'tx) deploy_lib \<Rightarrow> json \<Rightarrow> string \<Rightarrow> u64 \<Rightarrow>
     ('data, 'op, 'rest) contract_state \<Rightarrow> deploy_error + string" where
  "deploy_tx hx dp params network_id ttl_secs initial_state =
     bindE (case as_object (jidx params ''verifier_keys'') of
              Some vk_map \<Rightarrow> register_keys hx dp (btree_entries vk_map) initial_state
            | None \<Rightarrow> Inr initial_state) (\<lambda>state.
     let deploy = dp_deploy dp state in
     bindE (ok_or AddressSer (dp_addr_ser dp (dp_address dp deploy))) (\<lambda>addr_bytes.
     bindE (ok_or DeploySer (dp_ser_tuple dp (dp_tx dp network_id ttl_secs deploy))) (\<lambda>bs.
     Inr (deploy_text hx bs addr_bytes))))"

text \<open>The state leaves the pool before anything that can fail on it.\<close>

definition assemble_deploy_tx_impl ::
    "hexlib \<Rightarrow> json_lib \<Rightarrow> ('data, 'op, 'rest, 'vk, 'deploy, 'addr, 'tx) deploy_lib \<Rightarrow> u64 \<Rightarrow> string \<Rightarrow>
     ('data, 'op, 'rest) contract_state pool \<Rightarrow>
     (deploy_error + string) \<times> ('data, 'op, 'rest) contract_state pool" where
  "assemble_deploy_tx_impl hx jl dp clock_secs json_str pool =
     (case bindE (ok_or DeployJson (jl_parse jl json_str)) (\<lambda>params.
           bindE (ok_or (DeployMissing ''network_id'') (as_str (jidx params ''network_id''))) (\<lambda>network_id.
           bindE (ok_or (DeployMissing ''state_handle'') (as_u64 (jidx params ''state_handle''))) (\<lambda>handle.
           Inr (params, network_id, handle)))) of
        Inl e \<Rightarrow> (Inl e, pool)
      | Inr (params, network_id, handle) \<Rightarrow>
          (case pool_get pool handle of
             None \<Rightarrow> (Inl (DeployHandle handle), pool)
           | Some initial_state \<Rightarrow>
               (deploy_tx hx dp params network_id (default_ttl params clock_secs) initial_state,
                pool_remove handle pool)))"

definition contract_assemble_deploy_tx ::
    "hexlib \<Rightarrow> json_lib \<Rightarrow> ('data, 'op, 'rest, 'vk, 'deploy, 'addr, 'tx) deploy_lib \<Rightarrow> u64 \<Rightarrow> cptr \<Rightarrow>
     ('data, 'op, 'rest) contract_state pool \<Rightarrow>
     deploy_error reply \<times> ('data, 'op, 'rest) contract_state pool" where
  "contract_assemble_deploy_tx hx jl dp clock_secs params_json pool =
     (case c_str_to_str params_json of None \<Rightarrow> (NullReply, pool)
      | Some json_str \<Rightarrow>
          (let (r, pool') = assemble_deploy_tx_impl hx jl dp clock_secs json_str pool
           in (reply_of r, pool')))"


definition demo_deploy_lib :: "(nat, unit, unit, bytes, nat, nat, nat) deploy_lib" where
  "demo_deploy_lib = \<lparr>dp_vk_deser = (\<lambda>b. None), dp_op_new = (\<lambda>v. ()), dp_deploy = cs_data, dp_address = (\<lambda>d. d),
     dp_addr_ser = (\<lambda>a. Some [1]), dp_tx = (\<lambda>n t d. d), dp_ser_tuple = (\<lambda>t. Some [2])\<rparr>"

text \<open>A verifier key that does not decode fails the deployment, and handle 1 is gone.\<close>

definition demo_deploy_params :: json where
  "demo_deploy_params = JObject [(''network_id'', JString ''n''), (''state_handle'', JNumber (PosInt 1)),
     (''verifier_keys'', JObject [(''post'', JString ''00'')])]"


subsection \<open>The TTL ceiling\<close>

definition ledger_params_global_ttl_secs ::
    "hexlib \<Rightarrow> (bytes \<Rightarrow> 'params option) \<Rightarrow> ('params \<Rightarrow> int) \<Rightarrow> cptr \<Rightarrow> i64" where
  "ledger_params_global_ttl_secs hx params_deser global_ttl params_hex =
     (case do { hex_str \<leftarrow> c_str_to_str params_hex; bs \<leftarrow> hx_dec hx hex_str; params_deser bs } of
        None \<Rightarrow> - 1
      | Some params \<Rightarrow>
          (let secs = global_ttl params in
           if 0 \<le> secs \<and> secs \<le> 9223372036854775807 then word_of_int secs else - 1))"

lemma global_ttl_exact:
  "sint (ledger_params_global_ttl_secs hx deser ttl c) =
     (case do { hex_str \<leftarrow> c_str_to_str c; bs \<leftarrow> hx_dec hx hex_str; deser bs } of
        Some params \<Rightarrow> if 0 \<le> ttl params \<and> ttl params < 2 ^ 63 then ttl params else - 1
      | None \<Rightarrow> - 1)"
proof -
  have "sint (word_of_int n :: i64) = n" if "0 \<le> n" "n < 2 ^ 63" for n
    using that by (simp add: sint_sbintrunc' signed_take_bit_int_eq_self)
  then show ?thesis
    by (simp add: ledger_params_global_ttl_secs_def Let_def split: option.split)
qed

end
