(* ===== verification/PoolRuns.thy ===== *)
theory PoolRuns
  imports ContractTx
begin

text \<open>
  The entry points of the contract-state pool against its atomic steps: every call is a run of
  steps that leaves the other pending calls alone, so what \<open>StatePool\<close> proves of reachable
  systems holds between calls too, and pending calls can always be finished.
\<close>

subsection \<open>One atomic step\<close>

inductive pool_step :: "'s system \<Rightarrow> 's system \<Rightarrow> bool" where
  draw: "take_handle p = (h, p') \<Longrightarrow>
    pool_step \<lparr>sy_pool = p, sy_pending = ps\<rparr> \<lparr>sy_pool = p', sy_pending = Drawn h s # ps\<rparr>"
| insert: "pool_step \<lparr>sy_pool = p, sy_pending = ps @ Drawn h s # qs\<rparr>
    \<lparr>sy_pool = pool_insert h s p, sy_pending = ps @ qs\<rparr>"
| query_begin: "pool_get p h = Some s \<Longrightarrow>
    pool_step \<lparr>sy_pool = p, sy_pending = ps\<rparr> \<lparr>sy_pool = p, sy_pending = Running h s # ps\<rparr>"
| query_commit: "pool_step \<lparr>sy_pool = p, sy_pending = ps @ Running h s # qs\<rparr>
    \<lparr>sy_pool = pool_insert h s' p, sy_pending = ps @ qs\<rparr>"
| query_fail: "pool_step \<lparr>sy_pool = p, sy_pending = ps @ Running h s # qs\<rparr>
    \<lparr>sy_pool = p, sy_pending = ps @ qs\<rparr>"
| free: "pool_step \<lparr>sy_pool = p, sy_pending = ps\<rparr> \<lparr>sy_pool = contract_state_free h p, sy_pending = ps\<rparr>"

lemma pool_step_reach:
  assumes "pool_step sy sy'" and "pool_reach n sy"
  shows "\<exists>m \<le> 1. pool_reach (n + m) sy'"
  using assms
proof (cases rule: pool_step.cases)
  case (draw p h p' ps s)
  with assms(2) have "pool_reach (n + 1) sy'" by (simp add: pool_reach.draw)
  then show ?thesis by blast
next
  case (insert p ps h s qs)
  with assms(2) have "pool_reach (n + 0) sy'" by (simp add: pool_reach.insert)
  then show ?thesis by blast
next
  case (query_begin p h s ps)
  with assms(2) have "pool_reach (n + 0) sy'" by (simp add: pool_reach.query_begin)
  then show ?thesis by blast
next
  case (query_commit p ps h s qs s')
  with assms(2) pool_reach.query_commit have "pool_reach (n + 0) sy'" by force
  then show ?thesis by blast
next
  case (query_fail p ps h s qs)
  with assms(2) pool_reach.query_fail have "pool_reach (n + 0) sy'" by force
  then show ?thesis by blast
next
  case (free p ps h)
  with assms(2) have "pool_reach (n + 0) sy'" by (simp add: pool_reach.free)
  then show ?thesis by blast
qed

subsection \<open>Calls are runs\<close>

abbreviation pool_run :: "'s pool \<Rightarrow> 's pool \<Rightarrow> bool" where
  "pool_run p p' \<equiv> (\<forall>ps. pool_step\<^sup>*\<^sup>* \<lparr>sy_pool = p, sy_pending = ps\<rparr> \<lparr>sy_pool = p', sy_pending = ps\<rparr>)"

lemma run_alloc: "pool_run p (snd (alloc s p))"
proof
  fix ps
  obtain h p1 where t: "take_handle p = (h, p1)" by fastforce
  have "pool_step \<lparr>sy_pool = p1, sy_pending = Drawn h s # ps\<rparr>
      \<lparr>sy_pool = snd (alloc s p), sy_pending = ps\<rparr>"
    using pool_step.insert [of p1 "[]" h s ps] by (simp add: alloc_def t)
  with pool_step.draw [OF t, of ps s]
  show "pool_step\<^sup>*\<^sup>* \<lparr>sy_pool = p, sy_pending = ps\<rparr> \<lparr>sy_pool = snd (alloc s p), sy_pending = ps\<rparr>"
    by (meson converse_rtranclp_into_rtranclp r_into_rtranclp)
qed

lemma run_query:
  assumes "query_begin pl h c p = Inr (s, ops)"
  shows "pool_run p (query_commit h s d p)"
proof
  fix ps
  have "pool_get p h = Some s" using query_begin_Inr [OF assms] by simp
  from pool_step.query_begin [OF this, of ps]
  show "pool_step\<^sup>*\<^sup>* \<lparr>sy_pool = p, sy_pending = ps\<rparr> \<lparr>sy_pool = query_commit h s d p, sy_pending = ps\<rparr>"
    using pool_step.query_commit [of p "[]" h s ps] unfolding query_commit_def append_Nil
    by (meson converse_rtranclp_into_rtranclp r_into_rtranclp)
qed

lemma run_free: "pool_run p (contract_state_free h p)"
  using pool_step.free by blast

lemma run_deploy:
  assumes "assemble_deploy_tx_impl hx jl dp clock json_str p = (r, p')"
  shows "pool_run p p'"
proof -
  have "p' = p \<or> (\<exists>h. p' = contract_state_free h p)"
    using assms unfolding assemble_deploy_tx_impl_def contract_state_free_def
    by (auto split: sum.splits option.splits)
  then show ?thesis using run_free by blast
qed


subsection \<open>Finishing what is pending\<close>

text \<open>The last step of a pending call: a creation inserts, a query commits or fails.\<close>

inductive pool_finish :: "'s system \<Rightarrow> 's system \<Rightarrow> bool" where
  insert: "pool_finish \<lparr>sy_pool = p, sy_pending = ps @ Drawn h s # qs\<rparr>
    \<lparr>sy_pool = pool_insert h s p, sy_pending = ps @ qs\<rparr>"
| query_commit: "pool_finish \<lparr>sy_pool = p, sy_pending = ps @ Running h s # qs\<rparr>
    \<lparr>sy_pool = pool_insert h s' p, sy_pending = ps @ qs\<rparr>"
| query_fail: "pool_finish \<lparr>sy_pool = p, sy_pending = ps @ Running h s # qs\<rparr>
    \<lparr>sy_pool = p, sy_pending = ps @ qs\<rparr>"

inductive_cases pool_finishE: "pool_finish sy sy'"

lemma finish_reach: "pool_finish sy sy' \<Longrightarrow> pool_reach n sy \<Longrightarrow> pool_reach n sy'"
  by (elim pool_finishE) (auto intro: pool_reach.insert pool_reach.query_commit pool_reach.query_fail)

lemma finish_enabled:
  assumes "sy_pending sy \<noteq> []"
  shows "\<exists>sy'. pool_finish sy sy'"
proof -
  obtain p q ps where sy: "sy = \<lparr>sy_pool = p, sy_pending = q # ps\<rparr>"
    using assms by (cases sy) (auto simp: neq_Nil_conv)
  show ?thesis
    unfolding sy using pool_finish.insert [of p "[]" _ _ ps] pool_finish.query_fail [of p "[]" _ _ ps]
    by (cases q) (simp_all, blast+)
qed

text \<open>
  What a finishing run keeps of a drawn handle: it is still pending, or live with its state, and no
  query runs on it.
\<close>

definition settles :: "'s system \<Rightarrow> u64 \<Rightarrow> 's \<Rightarrow> bool" where
  "settles sy h s \<longleftrightarrow> (Drawn h s \<in> set (sy_pending sy) \<or> pool_get (sy_pool sy) h = Some s) \<and>
     (\<forall>s'. Running h s' \<notin> set (sy_pending sy)) \<and>
     (\<forall>s'. Drawn h s' \<in> set (sy_pending sy) \<longrightarrow> s' = s)"

lemma distinct_drawn_same:
  assumes "distinct (drawn ps)" and "Drawn h s \<in> set ps" and "Drawn h s' \<in> set ps"
  shows "s' = s"
  using assms
proof (induction ps)
  case (Cons q ps)
  then show ?case by (cases q) (auto simp: in_drawn)
qed simp

lemma settles_start:
  assumes "pool_inv n sy" and "Drawn h s \<in> set (sy_pending sy)"
  shows "settles sy h s"
proof -
  have "h \<in> set (drawn (sy_pending sy))" using assms(2) by (auto simp: in_drawn)
  then have unused: "\<not> used sy h" and dist: "distinct (drawn (sy_pending sy))"
    using assms(1) by (simp_all add: pool_inv_def)
  have "Running h s' \<notin> set (sy_pending sy)" for s' using unused unfolding used_def by blast
  moreover have "s' = s" if "Drawn h s' \<in> set (sy_pending sy)" for s'
    using distinct_drawn_same [OF dist assms(2) that] .
  ultimately show ?thesis using assms(2) unfolding settles_def by blast
qed

lemma settles_step:
  assumes "pool_finish sy sy'" and "settles sy h s"
  shows "settles sy' h s"
  using assms
proof (cases rule: pool_finish.cases)
  case (insert p ps h1 s1 qs)
  with assms(2) have "h1 = h \<Longrightarrow> s1 = s" by (simp add: settles_def)
  with insert assms(2) show ?thesis
    unfolding settles_def insert system.simps sp.get_ins set_append list.set by auto
next
  case (query_commit p ps h1 s1 qs s')
  with assms(2) have "h1 \<noteq> h" by (auto simp: settles_def)
  with assms(2) show ?thesis
    unfolding settles_def query_commit system.simps sp.get_ins set_append list.set by auto
next
  case (query_fail p ps h1 s1 qs)
  with assms(2) show ?thesis
    unfolding settles_def query_fail system.simps set_append list.set by auto
qed

lemma finish_shrinks: "pool_finish sy sy' \<Longrightarrow> length (sy_pending sy) = Suc (length (sy_pending sy'))"
  by (elim pool_finishE) simp_all

lemma finishing_run:
  "(pool_finish ^^ k) sy sy' \<Longrightarrow>
   length (sy_pending sy) = k + length (sy_pending sy') \<and> (settles sy h s \<longrightarrow> settles sy' h s)"
proof (induction k arbitrary: sy')
  case (Suc k)
  then obtain mid where "(pool_finish ^^ k) sy mid" and step: "pool_finish mid sy'" by auto
  with Suc.IH [of mid] finish_shrinks [OF step] settles_step [OF step] show ?case by simp
qed simp



end
