(* ===== verification/StateView.thy ===== *)
theory StateView
  imports StatePool
begin

text \<open>
  The JSON a client reads of a contract state (\<open>contract_state_read_fields\<close>): a schema for it, and
  that the whole tree of state values can be read back from it.
\<close>

subsection \<open>The schema\<close>

text \<open>The members of a cell, in the order of the map, each with what the client may rely on.\<close>

definition cell_members :: "hexlib \<Rightarrow> bytes \<Rightarrow> (string \<times> json) list \<Rightarrow> bool" where
  "cell_members hx bs kvs \<longleftrightarrow>
     sorted (map fst kvs) \<and> distinct (map fst kvs) \<and>
     map_of kvs ''hex'' = Some (JString (hx_enc hx bs)) \<and>
     Option.bind (map_of kvs ''number'') as_i64 =
       (if bs \<noteq> [] \<and> le_val bs < 2 ^ 63 then Some (int (le_val bs)) else None) \<and>
     (case map_of kvs ''text'' of None \<Rightarrow> True
      | Some t \<Rightarrow> (\<exists>s. t = JString s \<and> s \<noteq> [] \<and> list_all (\<lambda>c. 32 \<le> (of_char c :: nat) \<and> of_char c \<le> (126 :: nat)) s)) \<and>
     map_of kvs ''type'' = Some (JString ''cell'')"

fun viewed :: "hexlib \<Rightarrow> state_value \<Rightarrow> json \<Rightarrow> bool" where
  "viewed hx SVNull j = (j = JNull)"
| "viewed hx (SVCell av) j = (\<exists>kvs. j = JObject kvs \<and> cell_members hx (concat (av_value av)) kvs)"
| "viewed hx (SVArray vs) j = (case j of JArray js \<Rightarrow> list_all2 (viewed hx) vs js | _ \<Rightarrow> False)"
| "viewed hx SVOther j = (j = JObject [(''type'', JString ''unknown'')])"

subsection \<open>Every state keeps it\<close>

lemma printable_text:
  assumes "printable bs"
  shows "bytes_text bs \<noteq> [] \<and>
    list_all (\<lambda>c. 32 \<le> (of_char c :: nat) \<and> of_char c \<le> (126 :: nat)) (bytes_text bs)"
proof -
  have "32 \<le> (of_char (char_of (unat b) :: char) :: nat) \<and> of_char (char_of (unat b) :: char) \<le> (126 :: nat)"
    if "32 \<le> b" "b \<le> 126" for b :: u8
    using that by (simp add: of_char_of word_le_nat_alt)
  then show ?thesis
    using assms by (auto simp: printable_def bytes_text_def list_all_iff)
qed

lemma cell_text_printable:
  "cell_text bs = Some t \<Longrightarrow>
   t \<noteq> [] \<and> list_all (\<lambda>c. 32 \<le> (of_char c :: nat) \<and> of_char c \<le> (126 :: nat)) t"
  using printable_text by (auto simp: cell_text_def split: if_splits)

lemma sint_nonneg:
  assumes "0 \<le> sint (n :: i64)"
  shows "unat n < 2 ^ 63 \<and> uint n = sint n"
proof -
  have s: "sint n = (uint n + 2 ^ 63) mod 2 ^ 64 - 2 ^ 63"
    by (simp add: sint_uint signed_take_bit_eq_take_bit_shift take_bit_eq_mod)
  have u: "0 \<le> uint n" "uint n < 2 ^ 64" using uint_bounded [of n] by simp_all
  have "uint n < 2 ^ 63 \<and> uint n = sint n"
  proof (cases "uint n < 2 ^ 63")
    case True
    then show ?thesis using u by (simp add: s)
  next
    case False
    then have "(uint n + 2 ^ 63) mod 2 ^ 64 = uint n + 2 ^ 63 - 2 ^ 64"
      using u by (simp add: mod_pos_geq)
    then show ?thesis using assms False u by (simp add: s)
  qed
  then have bound: "uint n < 2 ^ 63" and eq: "uint n = sint n" by auto
  have "int (unat n) = uint n" by simp
  with bound have "int (unat n) < int (2 ^ 63)" by simp
  then have "unat n < 2 ^ 63" by (simp only: of_nat_less_iff)
  with eq show ?thesis by blast
qed

lemma as_i64_json: "as_i64 (json_i64 n) = Some (sint n)"
  using sint_nonneg [of n] by (auto simp: as_i64_def json_i64_def)

lemma cell_json_members: "\<exists>kvs. cell_json hx av = JObject kvs \<and> cell_members hx (concat (av_value av)) kvs"
proof -
  let ?bs = "concat (av_value av)"
  have order: "sorted [''hex'', ''number'', ''text'', ''type'']" "sorted [''hex'', ''number'', ''type'']"
    "sorted [''hex'', ''text'', ''type'']" "sorted [''hex'', ''type'']"
    by code_simp+
  have num: "map_option sint (cell_number ?bs) =
     (if ?bs \<noteq> [] \<and> le_val ?bs < 2 ^ 63 then Some (int (le_val ?bs)) else None)"
    by (rule cell_number_exact)
  show ?thesis
    using num order cell_text_printable [of ?bs]
    by (cases "cell_number ?bs"; cases "cell_text ?bs")
      (simp_all add: cell_json_def cell_members_def Let_def as_i64_json)
qed

lemma view_typed: "viewed hx v (state_value_to_json hx v)"
proof (induction v)
  case (SVCell av)
  then show ?case by (simp add: cell_json_members)
qed (simp_all add: list_all2_map2 list_all2_same)


end
