(* ===== verification/Signing.thy ===== *)
theory Signing
  imports FfiHeap
begin

text \<open>
  \<open>transaction_ffi.rs\<close> (signing keys, Schnorr signatures) and \<open>derive_shielded_keys\<close> of
  \<open>lib.rs\<close>. The signature scheme and the key derivation are the ledger's (parameters); the
  allocator's choice of capacities is one too. A nonce is the draw of \<open>OsRng\<close>.
\<close>

subsection \<open>The signature scheme\<close>

record ('sk, 'vk, 'sig, 'nonce) sig_lib =
  sg_from_bytes :: "bytes \<Rightarrow> 'sk option"
  sg_verifying_key :: "'sk \<Rightarrow> 'vk"
  sg_sign :: "'sk \<Rightarrow> 'nonce \<Rightarrow> bytes \<Rightarrow> 'sig"
  sg_verify :: "'vk \<Rightarrow> bytes \<Rightarrow> 'sig \<Rightarrow> bool"
  sg_vk_ser :: "'vk \<Rightarrow> bytes option"
  sg_vk_deser :: "bytes \<Rightarrow> 'vk option"
  sg_sig_ser :: "'sig \<Rightarrow> bytes option"
  sg_sig_deser :: "bytes \<Rightarrow> 'sig option"
  sg_capacity :: "nat \<Rightarrow> nat"  \<comment> \<open>capacity a \<open>Vec\<close> grown to that length ends with\<close>

definition MAX_DATA_LEN :: usize where "MAX_DATA_LEN = 1024 * 1024"
definition MAX_MESSAGE_LEN :: usize where "MAX_MESSAGE_LEN = 1024 * 1024"

definition create_signing_key ::
    "('sk, 'vk, 'sig, 'nonce) sig_lib \<Rightarrow> bytes option \<Rightarrow> usize \<Rightarrow> 'sk heap \<Rightarrow>
     addr option \<times> 'sk heap" where
  "create_signing_key sl private_key_ptr private_key_len h =
     (case private_key_ptr of None \<Rightarrow> (None, h)
      | Some key_mem \<Rightarrow>
          if private_key_len \<noteq> 32 then (None, h)
          else (case sg_from_bytes sl (slice_from key_mem private_key_len) of
                  None \<Rightarrow> (None, h)
                | Some signing_key \<Rightarrow>
                    (let (a, h') = heap_alloc (Boxed signing_key) h in (Some a, h'))))"

text \<open>Dereferencing a pointer that owns no key is undefined behaviour.\<close>

definition deref_key :: "addr \<Rightarrow> 'sk heap \<Rightarrow> 'sk mem" where
  "deref_key a h = (case hp_cells h a of Some (Boxed k) \<Rightarrow> Fine k | _ \<Rightarrow> UB)"

definition get_verifying_key ::
    "('sk, 'vk, 'sig, 'nonce) sig_lib \<Rightarrow> addr option \<Rightarrow> 'sk heap \<Rightarrow>
     (addr option \<times> 'sk heap) mem" where
  "get_verifying_key sl signing_key_ptr h =
     (case signing_key_ptr of None \<Rightarrow> Fine (None, h)
      | Some p \<Rightarrow> mem_bind (deref_key p h) (\<lambda>signing_key.
          case sg_vk_ser sl (sg_verifying_key sl signing_key) of
            None \<Rightarrow> Fine (None, h)
          | Some key_bytes \<Rightarrow>
              if length key_bytes \<noteq> 32 then Fine (None, h)
              else (let (a, h') = heap_alloc (ByteVec key_bytes (sg_capacity sl (length key_bytes))) h
                    in Fine (Some a, h'))))"

record signature_bytes =
  sb_data :: "addr option"
  sb_len :: usize

definition no_signature :: signature_bytes where
  "no_signature = \<lparr>sb_data = None, sb_len = 0\<rparr>"

definition sign_data ::
    "('sk, 'vk, 'sig, 'nonce) sig_lib \<Rightarrow> 'nonce \<Rightarrow> addr option \<Rightarrow> bytes option \<Rightarrow> usize \<Rightarrow>
     'sk heap \<Rightarrow> (signature_bytes \<times> 'sk heap) mem" where
  "sign_data sl nonce signing_key_ptr data_ptr data_len h =
     (case signing_key_ptr of None \<Rightarrow> Fine (no_signature, h)
      | Some p \<Rightarrow>
          if \<not> (data_len = 0 \<and> data_ptr = None) \<and> data_ptr = None then Fine (no_signature, h)
          else if data_len > MAX_DATA_LEN then Fine (no_signature, h)
          else mem_bind (deref_key p h) (\<lambda>signing_key.
            let data = (if data_len = 0 then [] else slice_from (the data_ptr) data_len) in
            case sg_sig_ser sl (sg_sign sl signing_key nonce data) of
              None \<Rightarrow> Fine (no_signature, h)
            | Some sig_bytes \<Rightarrow>
                (let (a, h') = heap_alloc (ByteVec sig_bytes (sg_capacity sl (length sig_bytes))) h
                 in Fine (\<lparr>sb_data = Some a, sb_len = of_nat (length sig_bytes)\<rparr>, h'))))"

definition verify_signature ::
    "('sk, 'vk, 'sig, 'nonce) sig_lib \<Rightarrow> bytes option \<Rightarrow> bytes option \<Rightarrow> usize \<Rightarrow> bytes option \<Rightarrow> u32" where
  "verify_signature sl public_key_ptr message_ptr message_len signature_ptr =
     (case (public_key_ptr, signature_ptr) of
        (Some pub_mem, Some sig_mem) \<Rightarrow>
          if \<not> (message_len = 0 \<and> message_ptr = None) \<and> message_ptr = None then 0
          else if message_len > MAX_MESSAGE_LEN then 0
          else
            (let pub_key_bytes = take 32 pub_mem;
                 message = (if message_len = 0 then [] else slice_from (the message_ptr) message_len);
                 sig_bytes = take 64 sig_mem in
             case sg_vk_deser sl pub_key_bytes of None \<Rightarrow> 0
             | Some verifying_key \<Rightarrow>
                 (case sg_sig_deser sl sig_bytes of None \<Rightarrow> 0
                  | Some signature \<Rightarrow> if sg_verify sl verifying_key message signature then 1 else 0))
      | _ \<Rightarrow> 0)"

definition vec_at :: "addr option \<Rightarrow> 'o heap \<Rightarrow> bytes option" where
  "vec_at p h = (case p of None \<Rightarrow> None
     | Some a \<Rightarrow> (case hp_cells h a of Some (ByteVec bs _) \<Rightarrow> Some bs | _ \<Rightarrow> None))"

text \<open>Documented behaviour of the scheme: what it signs verifies, and encodings are lossless.\<close>

definition sig_ok :: "('sk, 'vk, 'sig, 'nonce) sig_lib \<Rightarrow> bool" where
  "sig_ok sl \<longleftrightarrow>
     (\<forall>sk n d. sg_verify sl (sg_verifying_key sl sk) d (sg_sign sl sk n d)) \<and>
     (\<forall>vk b. sg_vk_ser sl vk = Some b \<longrightarrow> sg_vk_deser sl b = Some vk) \<and>
     (\<forall>sig b. sg_sig_ser sl sig = Some b \<longrightarrow> sg_sig_deser sl b = Some sig \<and> length b = 64)"

lemma get_verifying_key_ok:
  assumes "get_verifying_key sl (Some p) h = Fine (Some a, h')"
  shows "\<exists>sk kb. hp_cells h p = Some (Boxed sk) \<and> sg_vk_ser sl (sg_verifying_key sl sk) = Some kb \<and>
    length kb = 32 \<and> heap_alloc (ByteVec kb (sg_capacity sl 32)) h = (a, h')"
  using assms
  by (auto simp: get_verifying_key_def deref_key_def mem_bind_def
      split: option.splits block.splits if_splits prod.splits)

lemma sign_data_ok:
  assumes "sign_data sl n (Some p) dp dl h = Fine (sb, h')" and "sb_data sb = Some a"
  shows "\<exists>sk b. hp_cells h p = Some (Boxed sk) \<and> dl \<le> MAX_DATA_LEN \<and> (dp = None \<longrightarrow> dl = 0) \<and>
    sg_sig_ser sl (sg_sign sl sk n (if dl = 0 then [] else slice_from (the dp) dl)) = Some b \<and>
    sb_len sb = of_nat (length b) \<and> heap_alloc (ByteVec b (sg_capacity sl (length b))) h = (a, h')"
  using assms
  by (auto simp: sign_data_def deref_key_def mem_bind_def no_signature_def Let_def
      split: option.splits block.splits if_splits prod.splits)

subsection \<open>Shielded keys\<close>

record 'keys shielded_lib =
  sk_from_seed :: "bytes \<Rightarrow> 'keys"
  sk_coin_pk_ser :: "'keys \<Rightarrow> bytes option"
  sk_enc_pk_ser :: "'keys \<Rightarrow> bytes option"

definition derive_shielded_keys ::
    "hexlib \<Rightarrow> 'keys shielded_lib \<Rightarrow> bytes option \<Rightarrow> usize \<Rightarrow> 'o heap \<Rightarrow> addr option \<times> 'o heap" where
  "derive_shielded_keys hx kl seed_ptr seed_len h =
     (case do {
        seed_mem \<leftarrow> seed_ptr;
        assertO (seed_len = 32);
        let secret_keys = sk_from_seed kl (slice_from seed_mem seed_len);
        coin_pk_bytes \<leftarrow> sk_coin_pk_ser kl secret_keys;
        enc_pk_bytes \<leftarrow> sk_enc_pk_ser kl secret_keys;
        coin_cstr \<leftarrow> cstring_new (hx_enc hx coin_pk_bytes);
        enc_cstr \<leftarrow> cstring_new (hx_enc hx enc_pk_bytes);
        Some (coin_cstr, enc_cstr)
      } of
        None \<Rightarrow> (None, h)
      | Some (coin_cstr, enc_cstr) \<Rightarrow>
          (let (c, h1) = heap_alloc (CStr coin_cstr) h;
               (e, h2) = heap_alloc (CStr enc_cstr) h1;
               (k, h3) = heap_alloc (ShieldedKeys (Some c) (Some e)) h2
           in (Some k, h3)))"

lemma derive_shielded_keys_ok:
  assumes "derive_shielded_keys hx kl sp sl h = (Some k, h')"
  shows "\<exists>c e cs es. hp_cells h' = (hp_cells h)(c \<mapsto> CStr cs, e \<mapsto> CStr es, k \<mapsto> ShieldedKeys (Some c) (Some e))
    \<and> c = hp_next h \<and> e = Suc c \<and> k = Suc e \<and> (\<exists>m. sp = Some m) \<and> sl = 32"
  using assms
  by (auto simp: derive_shielded_keys_def heap_alloc_def Let_def assertO_def
      split: option.splits prod.splits bind_splits if_splits) blast

subsection \<open>A concrete scheme\<close>

text \<open>A toy scheme that keeps the laws: the signature of a message under a key is both repeated.\<close>

definition demo_sig_lib :: "(u8, u8, u8 \<times> u8, u8) sig_lib" where
  "demo_sig_lib = \<lparr>sg_from_bytes = (\<lambda>b. Some (hd b)), sg_verifying_key = (\<lambda>k. k),
     sg_sign = (\<lambda>k n d. (k, of_nat (length d))), sg_verify = (\<lambda>v d s. s = (v, of_nat (length d))),
     sg_vk_ser = (\<lambda>v. Some (replicate 32 v)), sg_vk_deser = (\<lambda>b. Some (hd b)),
     sg_sig_ser = (\<lambda>s. Some (replicate 32 (fst s) @ replicate 32 (snd s))),
     sg_sig_deser = (\<lambda>b. Some (b ! 0, b ! 32)), sg_capacity = (\<lambda>n. n)\<rparr>"

definition demo_heap :: "u8 heap" where
  "demo_heap = \<lparr>hp_cells = [0 \<mapsto> Boxed 7], hp_next = 1\<rparr>"

lemma demo_sig_ok: "sig_ok demo_sig_lib"
  by (auto simp: sig_ok_def demo_sig_lib_def nth_append)

subsection \<open>Properties\<close>

text \<open>
  C31. What \<open>sign_data\<close> writes for a live key, \<open>verify_signature\<close> accepts against the bytes
  \<open>get_verifying_key\<close> wrote for the same key, for every message up to the limit, the empty one
  (with or without a pointer) included.
\<close>

theorem sign_then_verify:
  assumes "sig_ok sl" and "heap_ok h"
    and "get_verifying_key sl (Some p) h = Fine (Some a, h1)"
    and "sign_data sl n (Some p) dp dl h1 = Fine (sb, h2)" and "sb_data sb \<noteq> None"
  shows "verify_signature sl (vec_at (Some a) h2) dp dl (vec_at (sb_data sb) h2) = 1"
proof -
  obtain sa where sa: "sb_data sb = Some sa" using assms(5) by blast
  obtain sk kb where k: "hp_cells h p = Some (Boxed sk)" "sg_vk_ser sl (sg_verifying_key sl sk) = Some kb"
    "length kb = 32" "heap_alloc (ByteVec kb (sg_capacity sl 32)) h = (a, h1)"
    using get_verifying_key_ok [OF assms(3)] by blast
  obtain sk' b where s: "hp_cells h1 p = Some (Boxed sk')" "dl \<le> MAX_DATA_LEN" "dp = None \<longrightarrow> dl = 0"
    "sg_sig_ser sl (sg_sign sl sk' n (if dl = 0 then [] else slice_from (the dp) dl)) = Some b"
    "heap_alloc (ByteVec b (sg_capacity sl (length b))) h1 = (sa, h2)"
    using sign_data_ok [OF assms(4) sa] by blast
  have pa: "p \<noteq> a" using k(1,4) assms(2) by (auto simp: heap_alloc_def heap_ok_def)
  then have "sk' = sk" using k(1,4) s(1) by (auto simp: heap_alloc_def split: if_splits)
  moreover have "vec_at (Some a) h2 = Some kb" "vec_at (Some sa) h2 = Some b"
    using k(4) s(5) by (auto simp: heap_alloc_def vec_at_def)
  moreover have "length b = 64" "sg_vk_deser sl kb = Some (sg_verifying_key sl sk)"
    using assms(1) s(4) k(2) by (auto simp: sig_ok_def)
  ultimately show ?thesis
    using assms(1) s k(3) by (auto simp: verify_signature_def sa sig_ok_def MAX_DATA_LEN_def MAX_MESSAGE_LEN_def)
qed

theorem sign_then_verify_witness:
  "\<exists>pk sg. verify_signature demo_sig_lib pk (Some [1, 2, 3]) 3 sg = 1"
proof -
  let ?h1 = "snd (heap_alloc (ByteVec (replicate 32 7) 32) demo_heap)"
  have 1: "get_verifying_key demo_sig_lib (Some 0) demo_heap = Fine (Some 1, ?h1)"
    by (simp add: get_verifying_key_def deref_key_def demo_heap_def demo_sig_lib_def heap_alloc_def)
  obtain sb h2 where 2: "sign_data demo_sig_lib 9 (Some 0) (Some [1, 2, 3]) 3 ?h1 = Fine (sb, h2)"
    "sb_data sb \<noteq> None"
    by (simp add: sign_data_def deref_key_def demo_heap_def demo_sig_lib_def heap_alloc_def MAX_DATA_LEN_def)
  have "heap_ok demo_heap" by (simp add: heap_ok_def demo_heap_def)
  from sign_then_verify [OF demo_sig_ok this 1 2] show ?thesis by blast
qed

text \<open>
  \<open>free_verifying_key\<close> rebuilds the vector with capacity 32, so it is defined on a pointer from
  \<open>get_verifying_key\<close> exactly when the allocator left the grown vector with that capacity.
\<close>

lemma verifying_key_free_layout:
  assumes "get_verifying_key sl (Some p) h = Fine (Some a, h')"
  shows "(\<exists>h2. free_verifying_key (Some a) h' = Fine h2) \<longleftrightarrow> sg_capacity sl 32 = 32"
proof -
  obtain kb where "heap_alloc (ByteVec kb (sg_capacity sl 32)) h = (a, h')"
    using get_verifying_key_ok [OF assms] by blast
  then have "hp_cells h' a = Some (ByteVec kb (sg_capacity sl 32))" by (rule heap_alloc_cell)
  then show ?thesis by (simp add: own_vk.fine_iff is_vec_cap_def)
qed

text \<open>
  \<open>free_shielded_keys\<close> undoes \<open>derive_shielded_keys\<close>: it releases the struct and both strings
  without undefined behaviour and leaves every other allocation alone.
\<close>

theorem shielded_keys_roundtrip:
  assumes "heap_ok h" and "derive_shielded_keys hx kl sp sl h = (Some k, h1)"
  shows "\<exists>h2. free_shielded_keys (Some k) h1 = Fine h2 \<and> hp_cells h2 = hp_cells h"
proof -
  obtain c e cs es where d: "hp_cells h1 = (hp_cells h)(c \<mapsto> CStr cs, e \<mapsto> CStr es,
      k \<mapsto> ShieldedKeys (Some c) (Some e))" "c = hp_next h" "e = Suc c" "k = Suc e"
    using derive_shielded_keys_ok [OF assms(2)] by blast
  then have n: "hp_cells h c = None" "hp_cells h e = None" "hp_cells h k = None"
    using assms(1) by (simp_all add: heap_ok_def)
  show ?thesis using d n
    by (auto simp: free_shielded_keys_def drop_cstring_def heap_drop_def fun_eq_iff)
qed

theorem shielded_keys_roundtrip_witness:
  "\<exists>k h1 h2. derive_shielded_keys ref_hex \<lparr>sk_from_seed = (\<lambda>b. b), sk_coin_pk_ser = Some,
      sk_enc_pk_ser = Some\<rparr> (Some (replicate 32 1)) 32 demo_heap = (Some k, h1) \<and>
    free_shielded_keys (Some k) h1 = Fine h2 \<and> hp_cells h2 = hp_cells demo_heap"
proof -
  let ?kl = "\<lparr>sk_from_seed = (\<lambda>b. b), sk_coin_pk_ser = Some, sk_enc_pk_ser = Some\<rparr>"
  obtain k h1 where d: "derive_shielded_keys ref_hex ?kl (Some (replicate 32 1)) 32 demo_heap = (Some k, h1)"
    by (simp add: derive_shielded_keys_def Let_def hex_enc_cstring ref_hex_ok heap_alloc_def)
  have "heap_ok demo_heap" by (simp add: heap_ok_def demo_heap_def)
  from shielded_keys_roundtrip [OF this d] d show ?thesis by blast
qed

end
