(* ===== verification/DustState.thy ===== *)
theory DustState
  imports DustSelect FfiHeap Json
begin

text \<open>
  The dust wallet entry points of \<open>dust_ffi.rs\<close> beside replay: key derivation, the balance, the
  length-prefixed serialised form with its free function, roots, sync time, UTXO access and
  \<open>create_dust_spend\<close>. The wallet itself is the ledger's (\<open>dust_lib\<close>, \<open>dust_state_lib\<close>).
\<close>

record ('st, 'sk, 'utxo, 'spend) dust_state_lib =
  ds_new :: 'st
  ds_public_key_ser :: "'sk \<Rightarrow> bytes option"
  ds_wallet_balance :: "'st \<Rightarrow> u64 \<Rightarrow> u128"
  ds_ser :: "'st \<Rightarrow> bytes option"
  ds_deser :: "bytes \<Rightarrow> 'st option"
  ds_commitment_root :: "'st \<Rightarrow> string option"
  ds_generation_root :: "'st \<Rightarrow> string option"
  ds_sync_time :: "'st \<Rightarrow> u64"
  ds_utxo_ser :: "'utxo \<Rightarrow> bytes option"
  ds_v_fee :: "'spend \<Rightarrow> u128"
  ds_old_nullifier_ser :: "'spend \<Rightarrow> bytes option"
  ds_new_commitment_ser :: "'spend \<Rightarrow> bytes option"
  ds_with_capacity :: "nat \<Rightarrow> nat"  \<comment> \<open>what \<open>Vec::with_capacity\<close> allocates, filled to the brim\<close>

definition derive_dust_public_key ::
    "hexlib \<Rightarrow> ('st, 'sk, 'utxo, 'spend, 'nul) dust_lib \<Rightarrow> ('st, 'sk, 'utxo, 'spend) dust_state_lib \<Rightarrow>
     bytes option \<Rightarrow> usize \<Rightarrow> cptr" where
  "derive_dust_public_key hx dl ds seed_ptr seed_len = do {
     seed_mem \<leftarrow> seed_ptr;
     assertO (seed_len = 32);
     let dust_secret_key = dl_derive dl (slice_from seed_mem seed_len);
     pk_bytes \<leftarrow> ds_public_key_ser ds dust_secret_key;
     cstring_new (hx_enc hx pk_bytes)
   }"

definition create_dust_local_state ::
    "('st, 'sk, 'utxo, 'spend) dust_state_lib \<Rightarrow> 'st heap \<Rightarrow> addr option \<times> 'st heap" where
  "create_dust_local_state ds h = (let (a, h') = heap_alloc (Boxed (ds_new ds)) h in (Some a, h'))"

definition dust_wallet_balance ::
    "('st, 'sk, 'utxo, 'spend) dust_state_lib \<Rightarrow> 'st option \<Rightarrow> i64 \<Rightarrow> cptr" where
  "dust_wallet_balance ds state_ptr time_millis = do {
     state \<leftarrow> state_ptr;
     let time_secs = millis_to_secs time_millis;
     cstring_new (show_word (ds_wallet_balance ds state time_secs))
   }"

definition serialize_dust_state ::
    "('st, 'sk, 'utxo, 'spend) dust_state_lib \<Rightarrow> 'st option \<Rightarrow> 'o heap \<Rightarrow> addr option \<times> 'o heap" where
  "serialize_dust_state ds state_ptr h =
     (case state_ptr of None \<Rightarrow> (None, h)
      | Some state \<Rightarrow>
          (case ds_ser ds state of None \<Rightarrow> (None, h)
           | Some bytes \<Rightarrow>
               (let len = of_nat (length bytes);
                    result = u64_to_le_bytes len @ bytes;
                    (a, h') = heap_alloc (ByteVec result (ds_with_capacity ds (8 + length bytes))) h
                in (Some a, h'))))"

definition deserialize_dust_state ::
    "('st, 'sk, 'utxo, 'spend) dust_state_lib \<Rightarrow> bytes option \<Rightarrow> usize \<Rightarrow> 'st option" where
  "deserialize_dust_state ds data_ptr data_len = do {
     data \<leftarrow> data_ptr;
     assertO (data_len \<noteq> 0);
     ds_deser ds (slice_from data data_len)
   }"

definition dust_commitment_root ::
    "('st, 'sk, 'utxo, 'spend) dust_state_lib \<Rightarrow> 'st option \<Rightarrow> cptr" where
  "dust_commitment_root ds state_ptr = do {
     state \<leftarrow> state_ptr; root \<leftarrow> ds_commitment_root ds state; cstring_new root }"

definition dust_generation_root ::
    "('st, 'sk, 'utxo, 'spend) dust_state_lib \<Rightarrow> 'st option \<Rightarrow> cptr" where
  "dust_generation_root ds state_ptr = do {
     state \<leftarrow> state_ptr; root \<leftarrow> ds_generation_root ds state; cstring_new root }"

text \<open>\<open>i64::saturating_mul(1000)\<close> of the seconds read as a signed number.\<close>

definition sat_millis :: "u64 \<Rightarrow> int" where
  "sat_millis secs = max (- (2 ^ 63)) (min (2 ^ 63 - 1) (sint secs * 1000))"

definition dust_sync_time :: "('st, 'sk, 'utxo, 'spend) dust_state_lib \<Rightarrow> 'st option \<Rightarrow> int" where
  "dust_sync_time ds state_ptr =
     (case state_ptr of None \<Rightarrow> - 1 | Some state \<Rightarrow> sat_millis (ds_sync_time ds state))"

definition dust_utxo_count :: "('st, 'sk, 'utxo, 'spend, 'nul) dust_lib \<Rightarrow> 'st option \<Rightarrow> usize" where
  "dust_utxo_count dl state_ptr =
     (case state_ptr of None \<Rightarrow> 0 | Some state \<Rightarrow> of_nat (length (dl_utxos dl state)))"

definition dust_get_utxo_at ::
    "hexlib \<Rightarrow> ('st, 'sk, 'utxo, 'spend, 'nul) dust_lib \<Rightarrow> ('st, 'sk, 'utxo, 'spend) dust_state_lib \<Rightarrow>
     'st option \<Rightarrow> usize \<Rightarrow> cptr" where
  "dust_get_utxo_at hx dl ds state_ptr index = do {
     state \<leftarrow> state_ptr;
     let utxos = dl_utxos dl state;
     utxo \<leftarrow> (if unat index < length utxos then Some (utxos ! unat index) else None);
     bytes \<leftarrow> ds_utxo_ser ds utxo;
     cstring_new (hx_enc hx bytes)
   }"

definition create_dust_spend ::
    "hexlib \<Rightarrow> json_lib \<Rightarrow> ('st, 'sk, 'utxo, 'spend, 'nul) dust_lib \<Rightarrow>
     ('st, 'sk, 'utxo, 'spend) dust_state_lib \<Rightarrow>
     'st option \<Rightarrow> bytes option \<Rightarrow> usize \<Rightarrow> usize \<Rightarrow> cptr \<Rightarrow> i64 \<Rightarrow> cptr" where
  "create_dust_spend hx jl dl ds state_ptr seed_ptr seed_len utxo_index v_fee_str current_time_ms = do {
     state \<leftarrow> state_ptr; seed_mem \<leftarrow> seed_ptr;
     assertO (seed_len = 32);
     v_fee_c \<leftarrow> v_fee_str;
     let sk = dl_derive dl (slice_from seed_mem seed_len);
     v_fee_cstr \<leftarrow> cstr_to_str v_fee_c;
     v_fee \<leftarrow> parse_u128 v_fee_cstr;
     let timestamp = millis_to_secs current_time_ms;
     let utxos = dl_utxos dl state;
     assertO (unat utxo_index < length utxos);
     let utxo = utxos ! unat utxo_index;
     (new_state, dust_spend) \<leftarrow> dl_spend dl state sk utxo v_fee timestamp;
     nullifier_bytes \<leftarrow> ds_old_nullifier_ser ds dust_spend;
     commitment_bytes \<leftarrow> ds_new_commitment_ser ds dust_spend;
     let spend_json = JObject [(''v_fee'', JString (show_word (ds_v_fee ds dust_spend))),
       (''old_nullifier'', JString (hx_enc hx nullifier_bytes)),
       (''new_commitment'', JString (hx_enc hx commitment_bytes)),
       (''proof'', JString ''proof-preimage'')];
     cstring_new (jl_print jl spend_json)
   }"

subsection \<open>Lemmas\<close>

lemma serialize_dust_state_ok:
  assumes "serialize_dust_state ds sp h = (Some a, h')"
  shows "\<exists>st bs. sp = Some st \<and> ds_ser ds st = Some bs \<and>
    heap_alloc (ByteVec (u64_to_le_bytes (of_nat (length bs)) @ bs) (ds_with_capacity ds (8 + length bs))) h
      = (a, h')"
  using assms by (auto simp: serialize_dust_state_def Let_def split: option.splits prod.splits)

lemma unat_8_len: "n < 2 ^ 63 \<Longrightarrow> unat (8 + (of_nat n :: u64)) = 8 + n"
  by (simp add: unat_word_ariths unat_of_nat take_bit_nat_eq_self)

subsection \<open>Properties\<close>

text \<open>
  C35. The serialised form carries its own length: the block of a dust state is the little-endian
  length followed by that many bytes, \<open>deserialize_dust_state\<close> on those bytes gives the state back
  (when the ledger's codec is lossless), and \<open>free_byte_array\<close> releases exactly this block.
\<close>

theorem dust_state_bytes_roundtrip:
  assumes "serialize_dust_state ds (Some st) h = (Some a, h')" and "heap_ok h"
    and "\<And>s b. ds_ser ds s = Some b \<Longrightarrow> ds_deser ds b = Some s \<and> b \<noteq> [] \<and> length b < 2 ^ 63"
    and "\<And>n. ds_with_capacity ds n = n"
  shows "\<exists>blob h2. hp_cells h' a = Some (ByteVec blob (length blob)) \<and>
    deserialize_dust_state ds (Some (drop 8 blob)) (u64_from_le_bytes (take 8 blob)) = Some st \<and>
    free_byte_array (Some a) h' = Fine h2 \<and> hp_cells h2 = hp_cells h"
proof -
  obtain bs where b: "ds_ser ds st = Some bs"
    "heap_alloc (ByteVec (u64_to_le_bytes (of_nat (length bs)) @ bs) (ds_with_capacity ds (8 + length bs))) h
      = (a, h')"
    using serialize_dust_state_ok [OF assms(1)] by auto
  note L = assms(3) [OF b(1)]
  have n: "unat (of_nat (length bs) :: u64) = length bs"
    using L by (simp add: unat_of_nat take_bit_nat_eq_self)
  then have z: "of_nat (length bs) \<noteq> (0::u64)" using L by (metis length_0_conv unat_0)
  let ?blob = "u64_to_le_bytes (of_nat (length bs)) @ bs"
  have cell: "hp_cells h' a = Some (ByteVec ?blob (length ?blob))"
    using b(2) assms(4) by (auto simp: heap_alloc_def)
  have "deserialize_dust_state ds (Some (drop 8 ?blob)) (u64_from_le_bytes (take 8 ?blob)) = Some st"
    using L z by (simp add: deserialize_dust_state_def slice_from_def n)
  moreover have "free_byte_array (Some a) h' = Fine (heap_drop a h')"
    using L by (simp add: free_byte_array_def cell drop_vec_def Let_def unat_8_len)
  moreover have "hp_cells (heap_drop a h') = hp_cells h"
    using b(2) assms(2) by (auto simp: heap_alloc_def heap_drop_def heap_ok_def)
  ultimately show ?thesis using cell by blast
qed

definition demo_dust_state_lib :: "(u8, bytes, u8, u8) dust_state_lib" where
  "demo_dust_state_lib = \<lparr>ds_new = 0, ds_public_key_ser = Some, ds_wallet_balance = (\<lambda>s t. ucast s),
     ds_ser = (\<lambda>s. Some [s]), ds_deser = (\<lambda>b. if length b = 1 then Some (hd b) else None),
     ds_commitment_root = (\<lambda>s. None), ds_generation_root = (\<lambda>s. None), ds_sync_time = (\<lambda>s. 7),
     ds_utxo_ser = (\<lambda>u. Some [u]), ds_v_fee = (\<lambda>s. ucast s), ds_old_nullifier_ser = (\<lambda>s. Some [s]),
     ds_new_commitment_ser = (\<lambda>s. Some [s]), ds_with_capacity = (\<lambda>n. n)\<rparr>"

theorem dust_state_bytes_roundtrip_witness:
  "\<exists>a h' h2. serialize_dust_state demo_dust_state_lib (Some 5) \<lparr>hp_cells = (\<lambda>a. None), hp_next = 0\<rparr>
      = (Some a, (h' :: unit heap)) \<and>
    free_byte_array (Some a) h' = Fine h2 \<and> hp_cells h2 = (\<lambda>a. None)"
proof -
  let ?h = "\<lparr>hp_cells = (\<lambda>a. None), hp_next = 0\<rparr> :: unit heap"
  obtain a h' where s: "serialize_dust_state demo_dust_state_lib (Some 5) ?h = (Some a, h')"
    by (simp add: serialize_dust_state_def demo_dust_state_lib_def heap_alloc_def Let_def)
  have "heap_ok ?h" by (simp add: heap_ok_def)
  from dust_state_bytes_roundtrip [OF s this] s show ?thesis
    by (auto simp: demo_dust_state_lib_def)
qed

text \<open>
  \<open>dust_sync_time\<close> reports milliseconds without wrapping: for every sync time below
  \<open>2^63 div 1000\<close> seconds it is exactly a thousand times it, and converting the answer back with
  the crate's own millisecond conversion gives the sync time again.
\<close>

theorem dust_sync_time_roundtrip:
  assumes "unat (ds_sync_time ds st) < 2 ^ 63 div 1000"
  shows "dust_sync_time ds (Some st) = 1000 * uint (ds_sync_time ds st) \<and>
    millis_to_secs (word_of_int (dust_sync_time ds (Some st))) = ds_sync_time ds st"
proof -
  let ?t = "ds_sync_time ds st"
  have u: "uint ?t < 2 ^ 63 div 1000" using assms by (metis of_nat_less_iff of_nat_numeral uint_nat zdiv_int of_nat_power)
  have s: "sint ?t = uint ?t"
    unfolding sint_uint
    by (rule signed_take_bit_int_eq_self) (use u in \<open>simp_all add: order_trans [OF _ uint_ge_0]\<close>)
  have q: "(1000 * t) sdiv 1000 = t" if "0 \<le> t" for t :: int
    using that by (cases "t = 0") (simp_all add: signed_divide_int_def sgn_mult)
  have clamp: "max (- (2 ^ 63)) (min (2 ^ 63 - 1) (t * 1000)) = 1000 * t"
    if "0 \<le> t" "t < 2 ^ 63 div 1000" for t :: int
    using that by simp
  have m: "dust_sync_time ds (Some st) = 1000 * uint ?t"
    using clamp [OF uint_ge_0 u] by (simp add: dust_sync_time_def sat_millis_def s)
  have lo: "- (2 ^ 63) \<le> 1000 * uint ?t" by (rule order_trans [of _ 0]) simp_all
  have "sint (word_of_int (1000 * uint ?t) :: i64) = 1000 * uint ?t"
    unfolding sint_sbintrunc'
    by (rule signed_take_bit_int_eq_self) (use u lo in simp_all)
  then have "sint (word_of_int (dust_sync_time ds (Some st)) :: i64) sdiv 1000 = uint ?t"
    unfolding m by (simp only: q [OF uint_ge_0])
  with m show ?thesis by (simp add: millis_to_secs_def)
qed

theorem dust_sync_time_roundtrip_witness:
  "dust_sync_time demo_dust_state_lib (Some 5) = 7000"
proof -
  have "unat (ds_sync_time demo_dust_state_lib 5) < 2 ^ 63 div 1000" by (simp add: demo_dust_state_lib_def)
  from dust_sync_time_roundtrip [OF this] show ?thesis by (simp add: demo_dust_state_lib_def)
qed

end
