(* ===== verification/FfiSession.thy ===== *)
theory FfiSession
  imports Signing DustState
begin

text \<open>
  A caller of the FFI: the pointers it holds, each with the \<open>free_*\<close> function its documentation
  names, and the calls that hand pointers out and take them back, as a step relation on the heap of
  \<open>FfiHeap\<close>. The invariant says that the blocks of the heap are exactly those of the pointers
  held, each laid out the way its free function expects.
\<close>

subsection \<open>Pointers and their free functions\<close>

datatype text_owner = OfBalance | OfContract | OfDust | OfProving | OfSerialize | OfMessage | OfZswap

datatype handle =
    Text text_owner
  | SigningKeyBox
  | VerifyingKeyBytes
  | SignatureVec usize
  | StateBytes
  | KeysStruct

fun free_text :: "text_owner \<Rightarrow> addr option \<Rightarrow> 'o heap \<Rightarrow> 'o heap mem" where
  "free_text OfBalance = free_balanced_transaction"
| "free_text OfContract = contract_free_string"
| "free_text OfDust = free_c_string"
| "free_text OfProving = free_proven_string"
| "free_text OfSerialize = free_serialized_transaction"
| "free_text OfMessage = free_signing_message"
| "free_text OfZswap = free_zswap_string"

fun release :: "handle \<Rightarrow> addr \<Rightarrow> 'o heap \<Rightarrow> 'o heap mem" where
  "release (Text m) a h = free_text m (Some a) h"
| "release SigningKeyBox a h = free_signing_key (Some a) h"
| "release VerifyingKeyBytes a h = free_verifying_key (Some a) h"
| "release (SignatureVec len) a h = free_signature (Some a) len h"
| "release StateBytes a h = free_byte_array (Some a) h"
| "release KeysStruct a h = free_shielded_keys (Some a) h"

subsection \<open>What a pointer owns\<close>

fun foot :: "'o heap \<Rightarrow> addr \<times> handle \<Rightarrow> addr set" where
  "foot h (a, KeysStruct) =
     (case hp_cells h a of Some (ShieldedKeys (Some c) (Some e)) \<Rightarrow> {a, c, e} | _ \<Rightarrow> {a})"
| "foot h (a, _) = {a}"

definition text_at :: "'o heap \<Rightarrow> addr \<Rightarrow> bool" where
  "text_at h a \<longleftrightarrow> (case hp_cells h a of Some (CStr s) \<Rightarrow> True | _ \<Rightarrow> False)"

fun owns :: "'o heap \<Rightarrow> addr \<times> handle \<Rightarrow> bool" where
  "owns h (a, Text m) = text_at h a"
| "owns h (a, SigningKeyBox) = (case hp_cells h a of Some (Boxed k) \<Rightarrow> True | _ \<Rightarrow> False)"
| "owns h (a, VerifyingKeyBytes) = (case hp_cells h a of Some (ByteVec bs c) \<Rightarrow> c = 32 | _ \<Rightarrow> False)"
| "owns h (a, SignatureVec len) =
     (case hp_cells h a of Some (ByteVec bs c) \<Rightarrow> c = unat len \<and> len \<noteq> 0 | _ \<Rightarrow> False)"
| "owns h (a, StateBytes) =
     (case hp_cells h a of
        Some (ByteVec bs c) \<Rightarrow> 8 \<le> length bs \<and> c = unat (8 + u64_from_le_bytes (take 8 bs))
      | _ \<Rightarrow> False)"
| "owns h (a, KeysStruct) =
     (case hp_cells h a of
        Some (ShieldedKeys (Some c) (Some e)) \<Rightarrow> distinct [a, c, e] \<and> text_at h c \<and> text_at h e
      | _ \<Rightarrow> False)"

lemma text_at_cell: "text_at h a \<longleftrightarrow> (\<exists>s. hp_cells h a = Some (CStr s))"
  by (auto simp: text_at_def split: option.splits block.splits)

lemma owns_keys:
  assumes "owns h (a, KeysStruct)"
  obtains c e s t where "hp_cells h a = Some (ShieldedKeys (Some c) (Some e))" "distinct [a, c, e]"
    "hp_cells h c = Some (CStr s)" "hp_cells h e = Some (CStr t)"
  using assms by (auto simp: text_at_cell split: option.splits block.splits)

lemma heap_drop_simps [simp]:
  "hp_cells (heap_drop a h) = hp_cells h |` (- {a})" "hp_next (heap_drop a h) = hp_next h"
  by (auto simp: heap_drop_def restrict_map_def fun_eq_iff)

text \<open>The free function of an owned pointer is defined, and releases just what the pointer owns.\<close>

lemma release_owned:
  assumes "owns h (a, k)"
  shows "\<exists>h'. release k a h = Fine h' \<and> hp_cells h' = hp_cells h |` (- foot h (a, k)) \<and> hp_next h' = hp_next h"
proof (cases k)
  case (Text m)
  then show ?thesis using assms
    by (cases m) (auto simp: text_at_cell string_frees)
next
  case KeysStruct
  with assms obtain c e s t where cells: "hp_cells h a = Some (ShieldedKeys (Some c) (Some e))"
    "distinct [a, c, e]" "hp_cells h c = Some (CStr s)" "hp_cells h e = Some (CStr t)"
    using owns_keys by metis
  then have "release k a h = Fine (heap_drop a (heap_drop e (heap_drop c h)))"
    by (simp add: KeysStruct free_shielded_keys_def drop_cstring_def restrict_map_def)
  then show ?thesis using cells
    by (auto simp: KeysStruct restrict_map_def fun_eq_iff)
qed (use assms in \<open>auto simp: box_frees free_verifying_key_def free_signature_def
    free_byte_array_def drop_vec_def Let_def split: option.splits block.splits\<close>)

text \<open>What a pointer owns depends on its own blocks only.\<close>

lemma foot_self: "fst ak \<in> foot h ak"
  by (cases "(h, ak)" rule: foot.cases) (auto split: option.split block.split)

lemma foot_cell: "hp_cells h' a = hp_cells h a \<Longrightarrow> foot h' (a, k) = foot h (a, k)"
  by (cases k) simp_all

lemma owns_frame:
  assumes own: "owns h (a, k)" and same: "\<And>x. x \<in> foot h (a, k) \<Longrightarrow> hp_cells h' x = hp_cells h x"
  shows "owns h' (a, k)"
proof (cases k)
  case KeysStruct
  with own obtain c e s t where "hp_cells h a = Some (ShieldedKeys (Some c) (Some e))"
    "distinct [a, c, e]" "hp_cells h c = Some (CStr s)" "hp_cells h e = Some (CStr t)"
    using owns_keys by metis
  then show ?thesis using same by (simp add: KeysStruct text_at_cell)
qed (use assms in \<open>simp_all add: text_at_def\<close>)

lemma foot_live: "owns h (a, k) \<Longrightarrow> foot h (a, k) \<subseteq> dom (hp_cells h)"
proof (cases k)
  case KeysStruct
  moreover assume "owns h (a, k)"
  ultimately obtain c e s t where "hp_cells h a = Some (ShieldedKeys (Some c) (Some e))"
    "hp_cells h c = Some (CStr s)" "hp_cells h e = Some (CStr t)"
    using owns_keys by metis
  then show ?thesis by (auto simp: KeysStruct)
qed (auto simp: text_at_cell split: option.splits)

subsection \<open>Sessions\<close>

text \<open>
  What the allocator does in practice: a vector grown to the length of a key, a signature or a
  state block ends with that capacity. (\<open>Vec\<close> only promises at least the length; with
  another capacity the free functions of keys and signatures are undefined.)
\<close>

definition exact_capacity ::
    "('sk, 'vk, 'sig, 'nonce) sig_lib \<Rightarrow> ('st, 'dsk, 'utxo, 'spend) dust_state_lib \<Rightarrow> bool" where
  "exact_capacity sl ds \<longleftrightarrow>
     sg_capacity sl 32 = 32 \<and>
     (\<forall>x b. sg_sig_ser sl x = Some b \<longrightarrow> length b = 64 \<and> sg_capacity sl 64 = 64) \<and>
     (\<forall>st b. ds_ser ds st = Some b \<longrightarrow>
        length b < 2 ^ 63 \<and> ds_with_capacity ds (8 + length b) = 8 + length b)"

definition fresh_heap :: "'o heap" where
  "fresh_heap = \<lparr>hp_cells = Map.empty, hp_next = 0\<rparr>"

text \<open>
  \<open>session\<close> says which pointers the caller may hold, and with which heap: a call hands one out
  (a text of any module, a signing key, a verifying key, a signature, a serialised state, a pair of
  shielded keys) or the caller gives one of them back, in any order.
\<close>

inductive session ::
    "('sk, 'vk, 'sig, 'nonce) sig_lib \<Rightarrow> hexlib \<Rightarrow> 'keys shielded_lib \<Rightarrow>
     ('st, 'dsk, 'utxo, 'spend) dust_state_lib \<Rightarrow> (addr \<times> handle) list \<Rightarrow> 'sk heap \<Rightarrow> bool"
  for sl :: "('sk, 'vk, 'sig, 'nonce) sig_lib" and hx :: hexlib and kl :: "'keys shielded_lib"
    and ds :: "('st, 'dsk, 'utxo, 'spend) dust_state_lib" where
  start: "session sl hx kl ds [] fresh_heap"
| hand_text: "session sl hx kl ds os h \<Longrightarrow> heap_alloc (CStr s) h = (a, h') \<Longrightarrow>
    session sl hx kl ds ((a, Text m) # os) h'"
| signing_key: "session sl hx kl ds os h \<Longrightarrow> create_signing_key sl p len h = (Some a, h') \<Longrightarrow>
    session sl hx kl ds ((a, SigningKeyBox) # os) h'"
| verifying_key: "session sl hx kl ds os h \<Longrightarrow> get_verifying_key sl p h = Fine (Some a, h') \<Longrightarrow>
    session sl hx kl ds ((a, VerifyingKeyBytes) # os) h'"
| signature: "session sl hx kl ds os h \<Longrightarrow> sign_data sl n p dp dl h = Fine (sb, h') \<Longrightarrow>
    sb_data sb = Some a \<Longrightarrow> session sl hx kl ds ((a, SignatureVec (sb_len sb)) # os) h'"
| state_bytes: "session sl hx kl ds os h \<Longrightarrow> serialize_dust_state ds p h = (Some a, h') \<Longrightarrow>
    session sl hx kl ds ((a, StateBytes) # os) h'"
| keys: "session sl hx kl ds os h \<Longrightarrow> derive_shielded_keys hx kl p len h = (Some a, h') \<Longrightarrow>
    session sl hx kl ds ((a, KeysStruct) # os) h'"
| give_back: "session sl hx kl ds (os @ (a, k) # os') h \<Longrightarrow> release k a h = Fine h' \<Longrightarrow>
    session sl hx kl ds (os @ os') h'"

definition session_inv :: "(addr \<times> handle) list \<Rightarrow> 'o heap \<Rightarrow> bool" where
  "session_inv os h \<longleftrightarrow> heap_ok h \<and> (\<forall>ak \<in> set os. owns h ak) \<and>
     sorted_wrt (\<lambda>x y. foot h x \<inter> foot h y = {}) os \<and> dom (hp_cells h) = (\<Union>ak \<in> set os. foot h ak)"

declare foot.simps [simp del] owns.simps [simp del]

lemma foot_frame:
  assumes "\<And>x. x \<in> foot h ak \<Longrightarrow> hp_cells h' x = hp_cells h x"
  shows "foot h' ak = foot h ak"
  using foot_cell [OF assms [OF foot_self], of "snd ak"] by simp

lemma owns_same:
  assumes "owns h ak" and "\<And>x. x \<in> foot h ak \<Longrightarrow> hp_cells h' x = hp_cells h x"
  shows "owns h' ak"
  using owns_frame [of h "fst ak" "snd ak" h'] assms by simp

lemma owned_live: "owns h ak \<Longrightarrow> foot h ak \<subseteq> dom (hp_cells h)"
  using foot_live [of h "fst ak" "snd ak"] by simp

lemma sorted_wrt_foot:
  assumes "\<And>ak. ak \<in> set os \<Longrightarrow> foot h' ak = foot h ak"
  shows "sorted_wrt (\<lambda>x y. foot h' x \<inter> foot h' y = {}) os \<longleftrightarrow> sorted_wrt (\<lambda>x y. foot h x \<inter> foot h y = {}) os"
  using assms by (induction os) simp_all

lemma session_invD:
  assumes "session_inv os h"
  shows "heap_ok h" "ak \<in> set os \<Longrightarrow> owns h ak"
    "sorted_wrt (\<lambda>x y. foot h x \<inter> foot h y = {}) os" "dom (hp_cells h) = (\<Union>ak \<in> set os. foot h ak)"
  using assms by (simp_all add: session_inv_def)

text \<open>A call that adds cells and hands out a pointer that owns exactly those keeps the invariant.\<close>

lemma session_inv_alloc:
  assumes inv: "session_inv os h" and ok: "heap_ok h'" and own: "owns h' ak"
    and old: "\<And>x. x \<in> dom (hp_cells h) \<Longrightarrow> x \<notin> foot h' ak \<and> hp_cells h' x = hp_cells h x"
    and new: "dom (hp_cells h') = dom (hp_cells h) \<union> foot h' ak"
  shows "session_inv (ak # os) h'"
proof -
  have sub: "foot h b \<subseteq> dom (hp_cells h)" if "b \<in> set os" for b
    by (rule owned_live) (rule session_invD(2) [OF inv that])
  have feet: "foot h' b = foot h b" if "b \<in> set os" for b
    using sub [OF that] old by (intro foot_frame) blast
  have "owns h' b" if "b \<in> set os" for b
    using old [OF subsetD [OF sub [OF that]]] session_invD(2) [OF inv that] owns_same by metis
  moreover have "foot h' ak \<inter> foot h' b = {}" if "b \<in> set os" for b
    using sub [OF that] old unfolding feet [OF that] by blast
  moreover have "dom (hp_cells h') = (\<Union>b \<in> set (ak # os). foot h' b)"
    using new feet unfolding session_invD(4) [OF inv] by (simp add: Un_commute)
  ultimately show ?thesis
    using ok own session_invD(3) [OF inv] unfolding session_inv_def
    by (simp add: sorted_wrt_foot [OF feet])
qed

lemma session_inv_release:
  assumes inv: "session_inv (os @ ak # os') h" and ok: "heap_ok h'"
    and cells: "hp_cells h' = hp_cells h |` (- foot h ak)"
  shows "session_inv (os @ os') h'"
proof -
  let ?os = "os @ os'"
  have sorted: "sorted_wrt (\<lambda>x y. foot h x \<inter> foot h y = {}) ?os"
    and "\<forall>b \<in> set os. foot h b \<inter> foot h ak = {}" "\<forall>b \<in> set os'. foot h ak \<inter> foot h b = {}"
    using session_invD(3) [OF inv] by (simp_all add: sorted_wrt_append)
  then have apart: "foot h b \<inter> foot h ak = {}" if "b \<in> set ?os" for b using that by auto
  have same: "hp_cells h' x = hp_cells h x" if "b \<in> set ?os" "x \<in> foot h b" for x b
    using apart [OF that(1)] that(2) unfolding cells restrict_map_def by auto
  have feet: "foot h' b = foot h b" if "b \<in> set ?os" for b
    by (rule foot_frame) (rule same [OF that])
  have "owns h' b" if "b \<in> set ?os" for b
  proof (rule owns_same [OF _ same [OF that]])
    show "owns h b" using that by (intro session_invD(2) [OF inv]) auto
  qed
  moreover have "dom (hp_cells h') = (\<Union>b \<in> set ?os. foot h' b)"
  proof -
    have "dom (hp_cells h') = dom (hp_cells h) - foot h ak"
      unfolding cells by auto
    also have "\<dots> = (\<Union>b \<in> set ?os. foot h b)"
      using apart unfolding session_invD(4) [OF inv] by auto
    finally show ?thesis using feet by simp
  qed
  ultimately show ?thesis
    using ok sorted_wrt_foot [of ?os h' h, OF feet] sorted unfolding session_inv_def by blast
qed

lemma session_inv_block:
  assumes "session_inv os h" and "heap_alloc b h = (a, h')"
    and "owns h' (a, k)" and "foot h' (a, k) = {a}"
  shows "session_inv ((a, k) # os) h'"
proof (rule session_inv_alloc [OF assms(1) heap_alloc_ok [OF session_invD(1) [OF assms(1)] assms(2)] assms(3)])
  have a: "a = hp_next h" and h': "hp_cells h' = (hp_cells h)(a \<mapsto> b)"
    using assms(2) by (auto simp: heap_alloc_def)
  have "a \<notin> dom (hp_cells h)" using session_invD(1) [OF assms(1)] by (auto simp: heap_ok_def a)
  then show "x \<notin> foot h' (a, k) \<and> hp_cells h' x = hp_cells h x" if "x \<in> dom (hp_cells h)" for x
    using that by (auto simp: assms(4) h')
  show "dom (hp_cells h') = dom (hp_cells h) \<union> foot h' (a, k)" by (auto simp: assms(4) h')
qed

lemma session_inv_keys:
  assumes inv: "session_inv os h" and der: "derive_shielded_keys hx kl p len h = (Some a, h')"
  shows "session_inv ((a, KeysStruct) # os) h'"
proof -
  obtain c e cs es where d: "hp_cells h' = (hp_cells h)(c \<mapsto> CStr cs, e \<mapsto> CStr es,
      a \<mapsto> ShieldedKeys (Some c) (Some e))" "c = hp_next h" "e = Suc c" "a = Suc e"
    using derive_shielded_keys_ok [OF der] by blast
  have foot: "foot h' (a, KeysStruct) = {a, c, e}" using d by (simp add: foot.simps)
  show ?thesis
  proof (rule session_inv_alloc [OF inv])
    have "hp_next h' = Suc a"
      using der d by (auto simp: derive_shielded_keys_def heap_alloc_def Let_def split: option.splits)
    then show "heap_ok h'" using session_invD(1) [OF inv] d by (auto simp: heap_ok_def)
    show "owns h' (a, KeysStruct)" using d by (simp add: owns.simps text_at_cell)
    show "dom (hp_cells h') = dom (hp_cells h) \<union> foot h' (a, KeysStruct)" using d foot by auto
    show "x \<notin> foot h' (a, KeysStruct) \<and> hp_cells h' x = hp_cells h x" if "x \<in> dom (hp_cells h)" for x
    proof -
      have "x < hp_next h" using that session_invD(1) [OF inv] by (auto simp: heap_ok_def not_le [symmetric])
      then show ?thesis using d foot by simp
    qed
  qed
qed

lemma create_signing_key_ok:
  "create_signing_key sl p len h = (Some a, h') \<Longrightarrow> \<exists>k. heap_alloc (Boxed k) h = (a, h')"
  by (auto simp: create_signing_key_def Let_def split: option.splits if_splits prod.splits)

lemma exact_capacityD:
  assumes "exact_capacity sl ds"
  shows "sg_capacity sl 32 = 32" "sg_sig_ser sl x = Some b \<Longrightarrow> length b = 64 \<and> sg_capacity sl 64 = 64"
    "ds_ser ds st = Some b' \<Longrightarrow> length b' < 2 ^ 63 \<and> ds_with_capacity ds (8 + length b') = 8 + length b'"
  using assms by (auto simp: exact_capacity_def)

lemma session_keeps_inv:
  assumes exact: "exact_capacity sl ds" and ses: "session sl hx kl ds os h"
  shows "session_inv os h"
  using ses
proof (induction rule: session.induct)
  case start
  then show ?case by (simp add: session_inv_def heap_ok_def fresh_heap_def)
next
  case (hand_text os h s a h' m)
  from heap_alloc_cell [OF hand_text.hyps(2)] show ?case
    by (intro session_inv_block [OF hand_text.IH hand_text.hyps(2)])
      (simp_all add: owns.simps foot.simps text_at_def)
next
  case (signing_key os h p len a h')
  then obtain k where k: "heap_alloc (Boxed k) h = (a, h')" using create_signing_key_ok by blast
  from heap_alloc_cell [OF k] show ?case
    by (intro session_inv_block [OF signing_key.IH k]) (simp_all add: owns.simps foot.simps)
next
  case (verifying_key os h p a h')
  then obtain q where "p = Some q" by (auto simp: get_verifying_key_def split: option.splits)
  then obtain kb where k: "heap_alloc (ByteVec kb (sg_capacity sl 32)) h = (a, h')"
    using get_verifying_key_ok verifying_key.hyps(2) by blast
  from heap_alloc_cell [OF k] show ?case
    by (intro session_inv_block [OF verifying_key.IH k])
      (simp_all add: owns.simps foot.simps exact_capacityD(1) [OF exact])
next
  case (signature os h n p dp dl sb h' a)
  then obtain q where q: "p = Some q" by (auto simp: sign_data_def no_signature_def split: option.splits)
  from sign_data_ok [OF signature.hyps(2) [unfolded q] signature.hyps(3)]
  obtain x b where b: "sg_sig_ser sl x = Some b" "sb_len sb = of_nat (length b)"
    and k: "heap_alloc (ByteVec b (sg_capacity sl (length b))) h = (a, h')"
    by blast
  from heap_alloc_cell [OF k] show ?case
    by (intro session_inv_block [OF signature.IH k])
      (simp_all add: owns.simps foot.simps b(2) exact_capacityD(2) [OF exact b(1)])
next
  case (state_bytes os h p a h')
  then obtain st bs where b: "ds_ser ds st = Some bs"
    and k: "heap_alloc (ByteVec (u64_to_le_bytes (of_nat (length bs)) @ bs)
      (ds_with_capacity ds (8 + length bs))) h = (a, h')"
    using serialize_dust_state_ok by blast
  have "unat (8 + of_nat (length bs) :: u64) = 8 + length bs"
    by (rule unat_8_len) (use exact_capacityD(3) [OF exact b] in blast)
  with exact_capacityD(3) [OF exact b] heap_alloc_cell [OF k] show ?case
    by (intro session_inv_block [OF state_bytes.IH k])
      (simp_all add: owns.simps foot.simps)
next
  case (keys os h p len a h')
  then show ?case by (intro session_inv_keys)
next
  case (give_back os a k os' h h')
  have "owns h (a, k)" by (rule session_invD(2) [OF give_back.IH]) simp
  from release_owned [OF this] give_back.hyps(2)
  have "hp_cells h' = hp_cells h |` (- foot h (a, k))" "hp_next h' = hp_next h" by auto
  then show ?case using session_invD(1) [OF give_back.IH]
    by (intro session_inv_release [OF give_back.IH]) (auto simp: heap_ok_def restrict_map_def)
qed


definition demo_session_heap :: "u8 heap" where
  "demo_session_heap = \<lparr>hp_cells = [0 \<mapsto> Boxed 7, 1 \<mapsto> ByteVec (replicate 32 7) 32], hp_next = 2\<rparr>"


end
