(* ===== verification/CallProtocol.thy ===== *)
theory CallProtocol
  imports ContractTx
begin

text \<open>
  A contract call that deposits unshielded value, from end to end in \<open>contract_ffi.rs\<close>: assembled with
  a funding offer, proved, and the offer signed after proving.
\<close>

subsection \<open>Proving in between\<close>

text \<open>What proving is documented to do to such a call: segments and offers stay as they are.\<close>

definition keeps_offers ::
    "('data, 'op, 'vop, 'params, 'trans, 'other, 'addr, 'fr, ('vk, 'tok, 'hash, 'ua, 'sig) u_offer, 'act, 'dust, 'bind, 'tx) call_lib \<Rightarrow>
     ('i, 'rest, ('vk, 'tok, 'hash) utxo_spend, ('ua, 'tok) utxo_output, 'sig, 'sk) proven_lib \<Rightarrow>
     (bytes \<Rightarrow> bytes option) \<Rightarrow> bool" where
  "keeps_offers cl pv prove \<longleftrightarrow> (\<forall>network i bs proven.
     cl_ser_tuple cl (cl_from_intents cl network [(1, i)]) = Some bs \<and> prove bs = Some proven \<longrightarrow>
     (\<exists>j rest. pv_deser pv proven = Some (StandardTx [(1, j)] rest) \<and> pv_fallible pv j = in_fallible_offer i))"

lemma call_offer:
  assumes "assemble_call_tx_impl hx jl cl ol t1 t2 pool js = Inr hex"
  obtains params network i base ep g f bs where "jl_parse jl js = Some params"
    "cl_ser_tuple cl (cl_from_intents cl network [(1, i)]) = Some bs" "hex = hx_enc hx bs"
    "attach_offer hx cl ol params ep g f base = Inr i"
proof -
  obtain params network i bs where "jl_parse jl js = Some params"
    and ci: "call_intent hx jl cl ol t1 t2 pool params = Inr (network, i)"
    and "cl_ser_tuple cl (cl_from_intents cl network [(1, i)]) = Some bs" "hex = hx_enc hx bs"
    using assms by (auto simp: assemble_call_tx_impl_def resE Let_def split: prod.splits)
  moreover from ci obtain ep g f base where "attach_offer hx cl ol params ep g f base = Inr i"
    unfolding call_intent_def Let_def by (auto simp: resE split: prod.splits)
  ultimately show ?thesis using that by blast
qed

lemma signed_alone:
  assumes "sign_proven_offer_impl hx jl pv js = Inr hex" and "jl_parse jl js = Some params"
    and "as_str (jidx params ''proven_tx_hex'') = Some (hx_enc hx proven)" and "hex_ok hx"
    and "pv_deser pv proven = Some (StandardTx [(1, j)] rest)" and "pv_fallible pv j = Some off" "uf_signatures off = []"
  shows "\<exists>nk keys signed bs. Option.bind (as_str (jidx params ''night_private_key'')) (hx_dec hx) = Some nk \<and>
    length nk = 32 \<and> length keys = length (uf_inputs off) \<and> (\<forall>k \<in> set keys. pv_sk_of pv nk = Some k) \<and>
    pv_sign pv 1 j keys = Some signed \<and> pv_ser pv (StandardTx [(1, signed)] rest) = Some bs \<and> hex = hx_enc hx bs"
proof -
  obtain nk new bs where nk: "Option.bind (as_str (jidx params ''night_private_key'')) (hx_dec hx) = Some nk"
    "length nk = 32" and new: "sign_intents pv nk [(1, j)] = Inr new"
    and bs: "pv_ser pv (StandardTx new rest) = Some bs" "hex = hx_enc hx bs"
    using assms(1,2,3,5) by (auto simp: sign_proven_offer_impl_def resE hex_dec_enc [OF assms(4)])
  have needed: "needs_signature pv j" using assms(6,7) by (simp add: needs_signature_def)
  note N = sign_intents_nth [OF new]
  obtain signed where signed: "new = [(1, signed)]" "sign_intent pv nk j = Inr signed"
    using N(1) N(3) [of 0] by (cases new) (auto simp: prod_eq_iff)
  from sign_intent_needed [OF needed signed(2)] assms(6) nk bs signed(1) show ?thesis by fastforce
qed

subsection \<open>A concrete deposit\<close>

abbreviation demo_funding_off :: "(bytes, bytes, bytes, bytes, unit) u_offer" where
  "demo_funding_off \<equiv> \<lparr>uf_inputs = [demo_spend 3, demo_spend 4],
     uf_outputs = [\<lparr>uo_value = 2, uo_owner = [0xcd], uo_type = replicate 32 0\<rparr>], uf_signatures = []\<rparr>"

definition demo_deposit_lib ::
    "(nat, unit, nat, unit, unit, nat, bytes, nat, (bytes, bytes, bytes, bytes, unit) u_offer, unit, unit, nat, nat) call_lib" where
  "demo_deposit_lib = demo_call_lib\<lparr>
     cl_from_intents := (\<lambda>n is. if map (in_fallible_offer \<circ> snd) is = [Some demo_funding_off] then 1 else 0),
     cl_ser_tuple := (\<lambda>t. if t = 1 then Some [7] else None)\<rparr>"

definition demo_deposit_params :: json where
  "demo_deposit_params = JObject ((''unshielded_funding'', demo_funding) # the (as_object demo_call_params))"

definition demo_deposit_proven ::
    "((bytes, bytes, bytes, bytes, unit) u_offer option, unit, (bytes, bytes, bytes) utxo_spend,
      (bytes, bytes) utxo_output, unit, bytes) proven_lib" where
  "demo_deposit_proven = \<lparr>pv_deser = (\<lambda>b. Some (StandardTx [(1, Some demo_funding_off)] ())),
     pv_fallible = (\<lambda>i. i), pv_sk_of = Some,
     pv_sign = (\<lambda>seg i keys. map_option (\<lambda>off. Some (off\<lparr>uf_signatures := map (\<lambda>k. ()) keys\<rparr>)) i),
     pv_ser = (\<lambda>t. Some [1])\<rparr>"

definition demo_prove :: "bytes \<Rightarrow> bytes option" where
  "demo_prove bs = Some [0]"

lemma demo_keeps_offers: "keeps_offers demo_deposit_lib demo_deposit_proven demo_prove"
  by (auto simp: keeps_offers_def demo_deposit_lib_def demo_deposit_proven_def split: if_splits)

definition demo_deposit_json :: json_lib where
  "demo_deposit_json = \<lparr>jl_parse = (\<lambda>s. if s = ''call'' then Some demo_deposit_params else Some demo_sign_params),
     jl_print = (\<lambda>v. ''v'')\<rparr>"

lemma demo_deposit_call:
  "assemble_call_tx_impl ref_hex demo_deposit_json demo_deposit_lib demo_offer_lib 0 100 demo_pool ''call''
    = Inr (hx_enc ref_hex [7])"
proof -
  have members: "as_str (jidx demo_deposit_params ''network_id'') = Some ''n''"
    "as_str (jidx demo_deposit_params ''contract_address'') = Some demo_hex32"
    "as_str (jidx demo_deposit_params ''entry_point'') = Some ''post''"
    "as_u64 (jidx demo_deposit_params ''state_handle'') = Some 2"
    "as_u64 (jidx demo_deposit_params ''initial_state_handle'') = Some 1"
    "present demo_deposit_params ''unshielded_funding'' = Some demo_funding"
    by (simp_all add: demo_deposit_params_def demo_call_params_def jidx_def present_def demo_funding_def is_jnull_def)
  have vals: "call_values (jidx demo_deposit_params ''proof_data'') = call_values (jidx demo_call_params ''proof_data'')"
    "jidx (jidx demo_deposit_params ''proof_data'') k = jidx (jidx demo_call_params ''proof_data'') k"
    "jidx demo_deposit_params ''block_time_secs'' = JNull" "jidx demo_deposit_params ''ledger_parameters_hex'' = JNull" for k
    by (simp_all add: demo_deposit_params_def demo_call_params_def jidx_def)
  have "res_ok (call_values (jidx demo_call_params ''proof_data'')) \<noteq> None" by code_simp
  then obtain v where v: "call_values (jidx demo_call_params ''proof_data'') = Inr v"
    by (cases "call_values (jidx demo_call_params ''proof_data'')") auto
  obtain input out privs where vv: "v = (input, out, privs)" by (cases v)
  have lib: "cl_ops_parse demo_deposit_lib t = Some []" "cl_initial_params demo_deposit_lib = ()"
    "cl_addr_deser demo_deposit_lib b = Some b" "cl_partition demo_deposit_lib q os par = Some [(Some (), None)]"
    "scan_transcripts ref_hex (cl_inputs_of demo_deposit_lib) g f = None"
    "scan_transcripts ref_hex (cl_outputs_of demo_deposit_lib) g f = None" for t b q os par g f
    by (simp_all add: demo_deposit_lib_def demo_call_lib_def scan_transcripts_def split: option.split)
  have ops: "normalize_ops demo_deposit_lib [] = Inr []"
    by (simp add: normalize_ops_def demo_deposit_lib_def demo_call_lib_def)
  have trans: "call_transcripts ref_hex demo_deposit_lib 100 demo_pool demo_deposit_params demo_hex32 2 1 [] ()
      = Inr (Some (), None)"
    by (simp add: call_transcripts_def lib vals(3) build_gas_query_context_def dec_hex32 demo_pool_def pool_get_def
        as_i64_def)
  have null: "as_str JNull = None" by (simp add: as_str_def)
  show ?thesis
    by (simp add: assemble_call_tx_impl_def demo_deposit_json_def call_intent_def Let_def members vals v vv lib
        call_ledger_params_def ops trans dec_hex32 attach_offer_def check_unshielded_offer_present_def
        demo_funding_offer null) (simp add: demo_deposit_lib_def)
qed

subsection \<open>Properties\<close>

text \<open>
  C11. A deposit goes through to a signed transaction: when a call declared with funding is
  assembled, proved and then signed, the signed intent at segment 1 is the ledger's signing of the
  proven one, whose fallible offer holds in one token exactly the declared amount plus what it pays
  back as change; it was signed with the night key given, once for each of the offer's inputs, and
  nothing else of the transaction changed.
\<close>

theorem funded_call_signed:
  assumes "hex_ok hx" and "keeps_offers cl pv prove"
    and call: "assemble_call_tx_impl hx jl cl ol t1 t2 pool js = Inr (hx_enc hx bs)"
    and funding: "jl_parse jl js = Some params" "present params ''unshielded_funding'' = Some funding"
    and proven: "prove bs = Some proven"
    and sign: "sign_proven_offer_impl hx jl pv js' = Inr hex" "jl_parse jl js' = Some params'"
      "as_str (jidx params' ''proven_tx_hex'') = Some (hx_enc hx proven)"
  shows "\<exists>j rest off amount tok nk key signed out.
    pv_deser pv proven = Some (StandardTx [(1, j)] rest) \<and> pv_fallible pv j = Some off \<and>
    Option.bind (as_str (jidx funding ''amount'')) parse_u128 = Some amount \<and>
    sum_list (map (unat \<circ> us_value) (uf_inputs off)) =
      unat amount + sum_list (map (unat \<circ> uo_value) (uf_outputs off)) \<and>
    us_type ` set (uf_inputs off) \<union> uo_type ` set (uf_outputs off) = {tok} \<and>
    Option.bind (as_str (jidx params' ''night_private_key'')) (hx_dec hx) = Some nk \<and>
    pv_sk_of pv nk = Some key \<and> pv_sign pv 1 j (replicate (length (uf_inputs off)) key) = Some signed \<and>
    pv_ser pv (StandardTx [(1, signed)] rest) = Some out \<and> hex = hx_enc hx out"
proof -
  obtain network i base ep g f bs' where c: "cl_ser_tuple cl (cl_from_intents cl network [(1, i)]) = Some bs'"
    "hx_enc hx bs = hx_enc hx bs'" "attach_offer hx cl ol params ep g f base = Inr i"
    using call_offer [OF call] funding(1) by (metis option.inject)
  then have bs: "bs' = bs" using hex_enc_inj [OF assms(1)] by metis
  obtain off ks where off: "build_funding_offer hx ol funding = Inr (off, ks)" "in_fallible_offer i = Some off"
    using attach_offer_Inr [OF c(3)] funding(2) by auto
  from funding_offer_balanced [OF off(1)] obtain amount_str amount tok where
    "as_str (jidx funding ''amount'') = Some amount_str" "parse_u128 amount_str = Some amount"
    and bal: "sum_list (map (unat \<circ> us_value) (uf_inputs off)) =
      unat amount + sum_list (map (unat \<circ> uo_value) (uf_outputs off))"
    and tok: "\<forall>sp \<in> set (uf_inputs off). us_type sp = tok" "\<forall>ot \<in> set (uf_outputs off). uo_type ot = tok"
    and un: "uf_signatures off = []" and ne: "uf_inputs off \<noteq> []" by blast
  then have amount: "Option.bind (as_str (jidx funding ''amount'')) parse_u128 = Some amount" by simp
  obtain j rest where j: "pv_deser pv proven = Some (StandardTx [(1, j)] rest)" "pv_fallible pv j = Some off"
    using assms(2) c(1) proven off(2) unfolding keeps_offers_def bs by metis
  from signed_alone [OF sign assms(1) j un] obtain nk keys signed out where
    s: "Option.bind (as_str (jidx params' ''night_private_key'')) (hx_dec hx) = Some nk"
      "length keys = length (uf_inputs off)" "\<forall>k \<in> set keys. pv_sk_of pv nk = Some k"
      "pv_sign pv 1 j keys = Some signed" "pv_ser pv (StandardTx [(1, signed)] rest) = Some out" "hex = hx_enc hx out"
    by blast
  have "keys \<noteq> []" using s(2) ne by auto
  then have key: "pv_sk_of pv nk = Some (hd keys)" using s(3) hd_in_set by blast
  then have "\<forall>k \<in> set keys. k = hd keys" using s(3) by fastforce
  then have "keys = replicate (length keys) (hd keys)" using replicate_length_same [of keys "hd keys"] by metis
  then have "pv_sign pv 1 j (replicate (length (uf_inputs off)) (hd keys)) = Some signed" using s(2,4) by simp
  moreover have "us_type ` set (uf_inputs off) \<union> uo_type ` set (uf_outputs off) = {tok}"
    using tok ne by (cases "uf_inputs off") auto
  ultimately show ?thesis using j amount bal s key by blast
qed

theorem funded_call_signed_witness:
  "\<exists>rest off amount tok key signed. pv_deser demo_deposit_proven [0] = Some (StandardTx [(1, Some off)] rest) \<and>
    parse_u128 (show_word (5 :: u128)) = Some amount \<and>
    sum_list (map (unat \<circ> us_value) (uf_inputs off)) =
      unat amount + sum_list (map (unat \<circ> uo_value) (uf_outputs off)) \<and>
    us_type ` set (uf_inputs off) \<union> uo_type ` set (uf_outputs off) = {tok} \<and>
    pv_sign demo_deposit_proven 1 (Some off) (replicate (length (uf_inputs off)) key) = Some signed"
proof -
  have sign: "sign_proven_offer_impl ref_hex demo_deposit_json demo_deposit_proven ''sign'' = Inr ''01''"
    by code_simp
  have proven: "as_str (jidx demo_sign_params ''proven_tx_hex'') = Some (hx_enc ref_hex [0])" by code_simp
  have params: "jl_parse demo_deposit_json ''call'' = Some demo_deposit_params"
    "jl_parse demo_deposit_json ''sign'' = Some demo_sign_params" by (simp_all add: demo_deposit_json_def)
  have funding: "present demo_deposit_params ''unshielded_funding'' = Some demo_funding"
    by (simp add: demo_deposit_params_def present_def demo_funding_def is_jnull_def)
  have amount: "as_str (jidx demo_funding ''amount'') = Some (show_word (5 :: u128))"
    by (simp add: demo_funding_def jidx_def)
  have off: "pv_fallible demo_deposit_proven j = Some off \<longleftrightarrow> j = Some off" for j off
    by (simp add: demo_deposit_proven_def)
  show ?thesis
    using funded_call_signed [OF ref_hex_ok demo_keeps_offers demo_deposit_call params(1) funding demo_prove_def sign params(2)
        proven]
    unfolding amount off by (elim exE conjE) (intro exI conjI; (assumption | simp))
qed

end
