(* ===== verification/ErrorText.thy ===== *)
theory ErrorText
  imports ContractTx
begin

text \<open>
  The text of the errors a client reads by machine: the JSON error object of the contract entry
  points, with quotes escaped the way they escape them, and the \<open>UNSHIELDED_VALUE_UNFUNDED\<close> signal
  inside it; and the client's way back from the object to the token and amount to fund.
\<close>

subsection \<open>The error object\<close>

abbreviation quot :: char where "quot \<equiv> CHR 0x22"
abbreviation bslash :: char where "bslash \<equiv> CHR 0x5C"

text \<open>\<open>e.replace('"', "\\\"")\<close>: quotes only.\<close>

fun escape_quotes :: "string \<Rightarrow> string" where
  "escape_quotes [] = []"
| "escape_quotes (c # cs) = (if c = quot then [bslash, quot] else [c]) @ escape_quotes cs"

definition error_head :: string where
  "error_head = ''{'' @ [quot] @ ''error'' @ [quot] @ '':'' @ [quot]"

definition error_object :: "string \<Rightarrow> string" where
  "error_object e = error_head @ escape_quotes e @ [quot] @ ''}''"

text \<open>The pointer behind a reply, given the text of each error.\<close>

definition reply_ptr :: "('e \<Rightarrow> string) \<Rightarrow> 'e reply \<Rightarrow> cptr" where
  "reply_ptr err_text r =
     (case r of NullReply \<Rightarrow> None | TextReply t \<Rightarrow> Some t | ErrorReply e \<Rightarrow> cstring_new (error_object (err_text e)))"

subsection \<open>The funding signal\<close>

fun unfunded_text :: "unfunded \<Rightarrow> string" where
  "unfunded_text (UnfundedReceive token amount circuit) =
     ''UNSHIELDED_VALUE_UNFUNDED:funding:'' @ token @ '':'' @ show_word amount @ ''|circuit '' @ [CHR 0x27] @
     circuit @ [CHR 0x27] @ '' receives unshielded value (receiveUnshielded) but no funding was provided. Pass '' @
     ''unshieldedFundingJson = sdk.buildUnshieldedFundingJson(amount) into MidnightContract.call(...).''"
| "unfunded_text (UnfundedSend token amount circuit) =
     ''UNSHIELDED_VALUE_UNFUNDED:withdrawal:'' @ token @ '':'' @ show_word amount @ ''|circuit '' @ [CHR 0x27] @
     circuit @ [CHR 0x27] @ '' sends unshielded value (sendUnshielded) but no withdrawal offer was provided. Pass '' @
     ''unshieldedWithdrawalJson = sdk.buildUnshieldedWithdrawalJson(recipient, amount) into '' @
     ''MidnightContract.call(...).''"

text \<open>The other messages are library output and stay a parameter.\<close>

definition call_error_text :: "(call_error \<Rightarrow> string) \<Rightarrow> call_error \<Rightarrow> string" where
  "call_error_text other e = (case e of Unfunded u \<Rightarrow> unfunded_text u | _ \<Rightarrow> other e)"

subsection \<open>Reading it back\<close>

text \<open>
  The body of a JSON string up to its closing quote, which must end the object. Control characters
  are not allowed, and of the escapes only those of one character are read.
\<close>

fun read_body :: "string \<Rightarrow> string option" where
  "read_body [] = None"
| "read_body [c] = None"
| "read_body (c # d # cs) =
     (if c = quot then (if d # cs = ''}'' then Some [] else None)
      else if c = bslash then
        (if d = quot \<or> d = bslash \<or> d = CHR ''/'' then map_option (Cons d) (read_body cs)
         else if d = CHR ''n'' then map_option (Cons (CHR 0x0A)) (read_body cs)
         else if d = CHR ''t'' then map_option (Cons (CHR 0x09)) (read_body cs)
         else if d = CHR ''r'' then map_option (Cons (CHR 0x0D)) (read_body cs)
         else None)
      else if (of_char c :: nat) < 32 then None
      else map_option (Cons c) (read_body (d # cs)))"

definition read_error :: "string \<Rightarrow> string option" where
  "read_error text =
     (if take (length error_head) text = error_head then read_body (drop (length error_head) text) else None)"

definition read_signal :: "string \<Rightarrow> (string \<times> string \<times> u128) option" where
  "read_signal msg =
     (case str_split '':'' (takeWhile (\<lambda>c. c \<noteq> CHR ''|'') msg) of
        [magic, kind, token, amount] \<Rightarrow>
          if magic = ''UNSHIELDED_VALUE_UNFUNDED''
          then map_option (\<lambda>a. (kind, token, a)) (parse_u128 amount) else None
      | _ \<Rightarrow> None)"

definition plain_text :: "string \<Rightarrow> bool" where
  "plain_text s \<longleftrightarrow> list_all (\<lambda>c. c \<noteq> bslash \<and> 32 \<le> (of_char c :: nat)) s"

lemma plain_text_simps [simp]:
  "plain_text []" "plain_text (c # s) \<longleftrightarrow> c \<noteq> bslash \<and> 32 \<le> (of_char c :: nat) \<and> plain_text s"
  "plain_text (s @ t) \<longleftrightarrow> plain_text s \<and> plain_text t"
  by (auto simp: plain_text_def)

lemma escape_quotes_append [simp]: "escape_quotes (s @ t) = escape_quotes s @ escape_quotes t"
  by (induction s) auto

lemma read_body_plain:
  assumes "c \<noteq> quot" "c \<noteq> bslash" "32 \<le> (of_char c :: nat)" "cs \<noteq> []"
  shows "read_body (c # cs) = map_option (Cons c) (read_body cs)"
  using assms by (cases cs) auto

lemma read_escaped:
  "plain_text m \<Longrightarrow> rest \<noteq> [] \<Longrightarrow> read_body (escape_quotes m @ rest) = map_option ((@) m) (read_body rest)"
proof (induction m)
  case (Cons c m)
  have ne: "escape_quotes m @ rest \<noteq> []" using Cons.prems(2) by simp
  show ?case
  proof (cases "c = quot")
    case True
    with Cons show ?thesis by (cases "read_body rest") simp_all
  next
    case False
    then have "read_body (escape_quotes (c # m) @ rest) = map_option (Cons c) (read_body (escape_quotes m @ rest))"
      using Cons.prems(1) read_body_plain [OF False _ _ ne] by simp
    with Cons show ?thesis by (cases "read_body rest") simp_all
  qed
qed (cases "read_body rest", simp_all)

lemma read_error_object: "read_error (error_object m) = read_body (escape_quotes m @ [quot] @ ''}'')"
  by (simp add: read_error_def error_object_def)

lemma read_error_plain: "plain_text m \<Longrightarrow> read_error (error_object m) = Some m"
  unfolding read_error_object by (subst read_escaped) simp_all

lemma read_error_backslash:
  assumes "plain_text pre"
  shows "read_error (error_object (pre @ [bslash, quot] @ post)) = None"
proof -
  have "escape_quotes post @ [quot] @ ''}'' \<noteq> ''}''"
    by (cases post) auto
  then show ?thesis
    unfolding read_error_object using assms
    by (simp add: read_escaped) (cases "escape_quotes post"; auto)
qed

subsection \<open>The signal reaches the client\<close>

lemma hex_no_sep:
  "hex_ok hx \<Longrightarrow> CHR '':'' \<notin> set (hx_enc hx b) \<and> CHR ''|'' \<notin> set (hx_enc hx b) \<and> plain_text (hx_enc hx b)"
proof -
  assume "hex_ok hx"
  then have s: "set (hx_enc hx b) \<subseteq> set hex_digits" by (rule hex_enc_set)
  have "CHR '':'' \<notin> set hex_digits" "CHR ''|'' \<notin> set hex_digits" "bslash \<notin> set hex_digits"
    by (simp_all add: hex_digits_def)
  with s hex_digit_range show ?thesis by (fastforce simp: plain_text_def list_all_iff)
qed

lemma show_no_sep:
  "CHR '':'' \<notin> set (show_word (w :: u128)) \<and> CHR ''|'' \<notin> set (show_word w) \<and> plain_text (show_word w)"
proof -
  have "\<forall>c \<in> set (show_word w). is_dec c" using show_nat_digits [of "unat w"] by (simp add: show_word_def)
  then show ?thesis by (auto simp: plain_text_def list_all_iff is_dec_def)
qed

lemma read_signal_parts:
  assumes kind: "CHR '':'' \<notin> set kind" "CHR ''|'' \<notin> set kind"
    and token: "CHR '':'' \<notin> set token" "CHR ''|'' \<notin> set token"
  shows "read_signal (''UNSHIELDED_VALUE_UNFUNDED:'' @ kind @ '':'' @ token @ '':'' @ show_word amount @ ''|'' @ rest)
    = Some (kind, token, amount)"
proof -
  let ?parts = "[''UNSHIELDED_VALUE_UNFUNDED'', kind, token, show_word amount]"
  have join: "str_join '':'' ?parts = ''UNSHIELDED_VALUE_UNFUNDED:'' @ kind @ '':'' @ token @ '':'' @ show_word amount"
    by simp
  have bars: "\<forall>c \<in> set (str_join '':'' ?parts). c \<noteq> CHR ''|''"
    unfolding join using assms show_no_sep [of amount] by auto
  have "takeWhile (\<lambda>c. c \<noteq> CHR ''|'') (str_join '':'' ?parts @ ''|'' @ rest) = str_join '':'' ?parts"
    using bars by (simp add: takeWhile_append2)
  moreover have "str_split '':'' (str_join '':'' ?parts) = ?parts"
    using assms show_no_sep [of amount] by (intro split_join_char) auto
  moreover have "''UNSHIELDED_VALUE_UNFUNDED:'' @ kind @ '':'' @ token @ '':'' @ show_word amount @ ''|'' @ rest
      = str_join '':'' ?parts @ ''|'' @ rest"
    unfolding join by simp
  ultimately show ?thesis unfolding read_signal_def by simp
qed

lemma first_unshielded_hex: "first_unshielded hx es = Some (t, a) \<Longrightarrow> \<exists>b. t = hx_enc hx b"
  by (induction hx es rule: first_unshielded.induct) auto

lemma scan_hex: "scan_transcripts hx eff g f = Some (t, a) \<Longrightarrow> \<exists>b. t = hx_enc hx b"
  unfolding scan_transcripts_def by (auto split: option.splits dest: first_unshielded_hex)

lemma attach_unfunded:
  assumes "attach_offer hx cl ol params ep g f it = Inl (Unfunded u)"
  shows "\<exists>b amount. (u = UnfundedReceive (hx_enc hx b) amount ep \<and>
        scan_transcripts hx (cl_inputs_of cl) g f = Some (hx_enc hx b, amount)) \<or>
      (u = UnfundedSend (hx_enc hx b) amount ep \<and> scan_transcripts hx (cl_inputs_of cl) g f = None \<and>
        scan_transcripts hx (cl_outputs_of cl) g f = Some (hx_enc hx b, amount))"
proof -
  have "check_unshielded_offer_present (scan_transcripts hx (cl_inputs_of cl) g f)
      (scan_transcripts hx (cl_outputs_of cl) g f) (present params ''unshielded_funding'' \<noteq> None)
      (present params ''unshielded_withdrawal'' \<noteq> None) ep = Inl u"
    using assms by (auto simp: attach_offer_def Let_def bindE_eq_Inl map_sum_Inl map_sum_Inr split: option.splits)
  then show ?thesis
    by (auto simp: check_unshielded_offer_present_def dest: scan_hex split: if_splits option.splits)
qed

text \<open>Only the offer check gives this error.\<close>

lemma mapE_Inl_ex: "mapE f xs = Inl e \<Longrightarrow> \<exists>x. f x = Inl e"
  by (induction xs) (auto split: sum.splits)

lemma not_unfunded:
  "call_values pd \<noteq> Inl (Unfunded u)" "call_ledger_params hx cl params \<noteq> Inl (Unfunded u)"
  "normalize_ops cl ops \<noteq> Inl (Unfunded u)"
  "call_transcripts hx cl clock pool params adr sh ih ops par \<noteq> Inl (Unfunded u)"
proof -
  have "op_deser_loop d n bs \<noteq> Inl (Unfunded u)" for d n bs and u :: unfunded
    by (induction n arbitrary: bs) (auto simp: bindE_eq_Inl ok_or_eq_Inl split: prod.splits)
  then show "normalize_ops cl ops \<noteq> Inl (Unfunded u)"
    by (auto simp: normalize_ops_def bindE_eq_Inl ok_or_eq_Inl dest!: mapE_Inl_ex)
  show "call_values pd \<noteq> Inl (Unfunded u)"
    by (auto simp: call_values_def bindE_eq_Inl ok_or_eq_Inl map_sum_Inl dest!: mapE_Inl_ex)
  show "call_ledger_params hx cl params \<noteq> Inl (Unfunded u)"
    by (auto simp: call_ledger_params_def bindE_eq_Inl ok_or_eq_Inl split: option.splits)
  show "call_transcripts hx cl clock pool params adr sh ih ops par \<noteq> Inl (Unfunded u)"
    by (auto simp: call_transcripts_def bindE_eq_Inl ok_or_eq_Inl guardE_eq_Inl map_sum_Inl split: list.splits)
qed

lemma call_unfunded:
  assumes "assemble_call_tx_impl hx jl cl ol t1 t2 pool js = Inl (Unfunded u)"
  shows "\<exists>params ep g f it. jl_parse jl js = Some params \<and> as_str (jidx params ''entry_point'') = Some ep \<and>
    (\<exists>adr sh ih ops par. call_transcripts hx cl t2 pool params adr sh ih ops par = Inr (g, f)) \<and>
    attach_offer hx cl ol params ep g f it = Inl (Unfunded u)"
  using assms
  by (clarsimp simp: assemble_call_tx_impl_def call_intent_def resE not_unfunded Let_def
      split: prod.splits) blast

lemma unfunded_shape:
  assumes "(u = UnfundedReceive token amount ep \<and> kind = ''funding'') \<or>
    (u = UnfundedSend token amount ep \<and> kind = ''withdrawal'')"
  obtains tail where "plain_text tail" "unfunded_text u =
    (''UNSHIELDED_VALUE_UNFUNDED:'' @ kind @ '':'' @ token @ '':'' @ show_word amount @ ''|'' @ ''circuit '' @
      [CHR 0x27]) @ ep @ tail"
  using assms
proof
  assume u: "u = UnfundedReceive token amount ep \<and> kind = ''funding''"
  show thesis
    by (rule that [of "[CHR 0x27] @ '' receives unshielded value (receiveUnshielded) but no funding was provided. Pass '' @
      ''unshieldedFundingJson = sdk.buildUnshieldedFundingJson(amount) into MidnightContract.call(...).''"])
      (simp_all add: u plain_text_def)
next
  assume u: "u = UnfundedSend token amount ep \<and> kind = ''withdrawal''"
  show thesis
    by (rule that [of "[CHR 0x27] @ '' sends unshielded value (sendUnshielded) but no withdrawal offer was provided. Pass '' @
      ''unshieldedWithdrawalJson = sdk.buildUnshieldedWithdrawalJson(recipient, amount) into '' @
      ''MidnightContract.call(...).''"])
      (simp_all add: u plain_text_def)
qed

lemma plain_no_nul: "plain_text s \<Longrightarrow> CHR 0x00 \<notin> set s"
  by (induction s) auto

lemma error_object_cstring: "plain_text m \<Longrightarrow> cstring_new (error_object m) = Some (error_object m)"
proof -
  assume "plain_text m"
  then have "CHR 0x00 \<notin> set (escape_quotes m)" by (induction m) auto
  then show ?thesis by (simp add: cstring_new_eq_Some error_object_def error_head_def)
qed

lemma call_reply_unfunded:
  assumes "cstr_to_str js = Some js" and "assemble_call_tx_impl hx jl cl ol t1 t2 pool js = Inl (Unfunded u)"
  shows "reply_ptr (call_error_text other) (contract_assemble_call_tx hx jl cl ol t1 t2 pool (Some js)) =
    cstring_new (error_object (unfunded_text u))"
  using assms
  by (simp add: contract_assemble_call_tx_def c_str_to_str_def reply_of_def reply_ptr_def call_error_text_def)


text \<open>A call whose one transcript takes 5 of the token 0102 and for which nothing was declared.\<close>

definition demo_unfunded_lib ::
    "(nat, unit, nat, unit, unit, nat, bytes, nat, (bytes, bytes, bytes, bytes, unit) u_offer, unit, unit, nat, nat) call_lib" where
  "demo_unfunded_lib = demo_call_lib\<lparr>cl_inputs_of := (\<lambda>t. [(TokOther 0, 3), (TokUnshielded [1, 2], 5)])\<rparr>"


end
