(* ===== verification/UnshieldedTx.thy ===== *)
theory UnshieldedTx
  imports DustSelect TagPrefix Json
begin

text \<open>
  Unshielded transactions in \<open>serialize.rs\<close>: the JSON inputs and outputs converted to ledger
  types, the intent builders with and without dust fees, the message to sign, sealing and hashing,
  and their FFI entry points. What serde derives, the ledger's types, transactions and codecs are
  a parameter (\<open>unshielded_lib\<close>); the structures the source fills in are records.
\<close>

subsection \<open>Interfaces\<close>

record json_utxo_spend =
  ju_value :: string
  ju_owner :: string
  ju_type :: string
  ju_intent_hash :: string
  ju_output_no :: u32

record json_utxo_output =
  jo_value :: string
  jo_owner :: string
  jo_type :: string

type_synonym ('vk, 'tok, 'hash, 'addr, 'sig) offer =
  "(('vk, 'tok, 'hash) utxo_spend, ('addr, 'tok) utxo_output, 'sig) unshielded_offer"

type_synonym ('vk, 'tok, 'hash, 'addr, 'sig, 'spend, 'bind) ut_intent =
  "(('vk, 'tok, 'hash, 'addr, 'sig) offer, unit, ('spend, unit) dust_actions, 'bind) intent"

record ('vk, 'tok, 'hash, 'addr, 'sig, 'fr, 'ped, 'spend, 'tx, 'ptx, 'stx, 'st, 'sk) unshielded_lib =
  ul_parse_inputs :: "string \<Rightarrow> json_utxo_spend list option"
  ul_parse_outputs :: "string \<Rightarrow> json_utxo_output list option"
  ul_parse_strings :: "string \<Rightarrow> string list option"
  ul_parse_dust :: "string \<Rightarrow> (usize \<times> string) list option"
  ul_vk_deser :: "bytes \<Rightarrow> 'vk option"
  ul_tok_of :: "bytes \<Rightarrow> 'tok"
  ul_hash_deser :: "bytes \<Rightarrow> 'hash option"
  ul_hash_of :: "bytes \<Rightarrow> 'hash"
  ul_addr_deser :: "bytes \<Rightarrow> 'addr option"
  ul_addr_of :: "bytes \<Rightarrow> 'addr"
  ul_sig_deser :: "bytes \<Rightarrow> 'sig option"
  ul_input_le :: "('vk, 'tok, 'hash) utxo_spend \<Rightarrow> ('vk, 'tok, 'hash) utxo_spend \<Rightarrow> bool"
  ul_output_le :: "('addr, 'tok) utxo_output \<Rightarrow> ('addr, 'tok) utxo_output \<Rightarrow> bool"
  ul_fr_from_le :: "bytes \<Rightarrow> 'fr option"
  ul_fr_to_bytes :: "'fr \<Rightarrow> bytes"
  ul_fr_zero :: 'fr
  ul_random_fr :: 'fr
  ul_pedersen :: "'fr \<Rightarrow> 'ped"
  ul_data_to_sign :: "u16 \<Rightarrow> ('vk, 'tok, 'hash, 'addr, 'sig, 'spend, 'ped) ut_intent \<Rightarrow> bytes"
  ul_standard_tx :: "string \<Rightarrow> (u16 \<times> ('vk, 'tok, 'hash, 'addr, 'sig, 'spend, 'fr) ut_intent) list \<Rightarrow> 'fr \<Rightarrow> 'tx"
  ul_new_tx :: "string \<Rightarrow> (u16 \<times> ('vk, 'tok, 'hash, 'addr, 'sig, 'spend, 'fr) ut_intent) list \<Rightarrow> 'tx"
  ul_merge :: "'tx \<Rightarrow> 'tx \<Rightarrow> 'tx option"
  ul_ser_tuple :: "'tx \<Rightarrow> bytes option"
  ul_segment :: u16
  ul_rekey :: "'st \<Rightarrow> 'sk \<Rightarrow> 'st"
  ul_deser_proven :: "bytes \<Rightarrow> 'ptx option"
  ul_seal_seeded :: "u64 \<Rightarrow> 'ptx \<Rightarrow> 'stx"
  ul_ser_sealed :: "'stx \<Rightarrow> bytes option"
  ul_deser_sealed :: "bytes \<Rightarrow> 'stx option"
  ul_tx_hash :: "'stx \<Rightarrow> bytes"

datatype ser_error =
    InputsJson | OutputsJson | SignaturesJson | BadValue | OwnerHex | KeyLength nat | BadKey
  | TokenHex | TokenLength nat | IntentHashHex | IntentHashLength nat | BadIntentHash
  | BadAddress | AddressLength nat | SignatureHex | BadSignature | RandomnessHex | BadRandomness
  | IndexOutOfBounds u32 nat | MergeDust | TupleSer | SealedHex | SealedDeser | SealedTxSer

subsection \<open>Converting inputs, outputs and signatures\<close>

definition key_32 :: "(bytes \<Rightarrow> 'vk option) \<Rightarrow> bytes \<Rightarrow> ser_error + 'vk" where
  "key_32 deser owner_bytes =
     bindE (guardE (length owner_bytes = 32) (KeyLength (length owner_bytes))) (\<lambda>_.
     ok_or BadKey (deser owner_bytes))"

definition token_32 :: "(bytes \<Rightarrow> 'tok) \<Rightarrow> bytes \<Rightarrow> ser_error + 'tok" where
  "token_32 tok_of token_type_bytes =
     bindE (guardE (length token_type_bytes = 32) (TokenLength (length token_type_bytes))) (\<lambda>_.
     Inr (tok_of token_type_bytes))"

definition convert_input ::
    "hexlib \<Rightarrow> ('vk, 'tok, 'hash, 'addr, 'sig, 'fr, 'ped, 'spend, 'tx, 'ptx, 'stx, 'st, 'sk) unshielded_lib \<Rightarrow>
     json_utxo_spend \<Rightarrow> ser_error + ('vk, 'tok, 'hash) utxo_spend" where
  "convert_input hx ul json_input =
     bindE (ok_or BadValue (parse_u128 (ju_value json_input))) (\<lambda>value.
     bindE (ok_or OwnerHex (hx_dec hx (ju_owner json_input))) (\<lambda>owner_bytes.
     bindE (key_32 (ul_vk_deser ul) owner_bytes) (\<lambda>verifying_key.
     bindE (ok_or TokenHex (hx_dec hx (ju_type json_input))) (\<lambda>token_type_bytes.
     bindE (token_32 (ul_tok_of ul) token_type_bytes) (\<lambda>token_type.
     bindE (ok_or IntentHashHex (hx_dec hx (ju_intent_hash json_input))) (\<lambda>intent_hash_bytes.
     bindE (ok_or BadIntentHash (ul_hash_deser ul intent_hash_bytes)) (\<lambda>intent_hash.
     Inr \<lparr>us_value = value, us_owner = verifying_key, us_type = token_type,
          us_intent_hash = intent_hash, us_output_no = ju_output_no json_input\<rparr>)))))))"

definition convert_output ::
    "hexlib \<Rightarrow> ('vk, 'tok, 'hash, 'addr, 'sig, 'fr, 'ped, 'spend, 'tx, 'ptx, 'stx, 'st, 'sk) unshielded_lib \<Rightarrow>
     json_utxo_output \<Rightarrow> ser_error + ('addr, 'tok) utxo_output" where
  "convert_output hx ul json_output =
     bindE (ok_or BadValue (parse_u128 (jo_value json_output))) (\<lambda>value.
     bindE (ok_or OwnerHex (hx_dec hx (jo_owner json_output))) (\<lambda>owner_bytes.
     bindE (ok_or BadAddress (ul_addr_deser ul owner_bytes)) (\<lambda>user_address.
     bindE (ok_or TokenHex (hx_dec hx (jo_type json_output))) (\<lambda>token_type_bytes.
     bindE (token_32 (ul_tok_of ul) token_type_bytes) (\<lambda>token_type.
     Inr \<lparr>uo_value = value, uo_owner = user_address, uo_type = token_type\<rparr>)))))"

text \<open>The variants in the dust builder wrap raw 32-byte arrays instead of deserialising.\<close>

definition convert_input_raw ::
    "hexlib \<Rightarrow> ('vk, 'tok, 'hash, 'addr, 'sig, 'fr, 'ped, 'spend, 'tx, 'ptx, 'stx, 'st, 'sk) unshielded_lib \<Rightarrow>
     json_utxo_spend \<Rightarrow> ser_error + ('vk, 'tok, 'hash) utxo_spend" where
  "convert_input_raw hx ul json_input =
     bindE (ok_or BadValue (parse_u128 (ju_value json_input))) (\<lambda>value.
     bindE (ok_or OwnerHex (hx_dec hx (ju_owner json_input))) (\<lambda>owner_bytes.
     bindE (key_32 (ul_vk_deser ul) owner_bytes) (\<lambda>verifying_key.
     bindE (ok_or TokenHex (hx_dec hx (ju_type json_input))) (\<lambda>token_type_bytes.
     bindE (token_32 (ul_tok_of ul) token_type_bytes) (\<lambda>token_type.
     bindE (ok_or IntentHashHex (hx_dec hx (ju_intent_hash json_input))) (\<lambda>intent_hash_bytes.
     bindE (guardE (length intent_hash_bytes = 32) (IntentHashLength (length intent_hash_bytes))) (\<lambda>_.
     Inr \<lparr>us_value = value, us_owner = verifying_key, us_type = token_type,
          us_intent_hash = ul_hash_of ul intent_hash_bytes, us_output_no = ju_output_no json_input\<rparr>)))))))"

definition convert_output_raw ::
    "hexlib \<Rightarrow> ('vk, 'tok, 'hash, 'addr, 'sig, 'fr, 'ped, 'spend, 'tx, 'ptx, 'stx, 'st, 'sk) unshielded_lib \<Rightarrow>
     json_utxo_output \<Rightarrow> ser_error + ('addr, 'tok) utxo_output" where
  "convert_output_raw hx ul json_output =
     bindE (ok_or BadValue (parse_u128 (jo_value json_output))) (\<lambda>value.
     bindE (ok_or OwnerHex (hx_dec hx (jo_owner json_output))) (\<lambda>user_address_bytes.
     bindE (guardE (length user_address_bytes = 32) (AddressLength (length user_address_bytes))) (\<lambda>_.
     bindE (ok_or TokenHex (hx_dec hx (jo_type json_output))) (\<lambda>token_type_bytes.
     bindE (token_32 (ul_tok_of ul) token_type_bytes) (\<lambda>token_type.
     Inr \<lparr>uo_value = value, uo_owner = ul_addr_of ul user_address_bytes, uo_type = token_type\<rparr>)))))"

definition convert_signature ::
    "hexlib \<Rightarrow> ('vk, 'tok, 'hash, 'addr, 'sig, 'fr, 'ped, 'spend, 'tx, 'ptx, 'stx, 'st, 'sk) unshielded_lib \<Rightarrow>
     string \<Rightarrow> ser_error + 'sig" where
  "convert_signature hx ul sig_hex =
     bindE (ok_or SignatureHex (hx_dec hx sig_hex)) (\<lambda>sig_bytes.
     ok_or BadSignature (ul_sig_deser ul sig_bytes))"

definition parse_randomness ::
    "hexlib \<Rightarrow> ('vk, 'tok, 'hash, 'addr, 'sig, 'fr, 'ped, 'spend, 'tx, 'ptx, 'stx, 'st, 'sk) unshielded_lib \<Rightarrow>
     string \<Rightarrow> ser_error + 'fr" where
  "parse_randomness hx ul binding_randomness_hex =
     bindE (ok_or RandomnessHex (hx_dec hx binding_randomness_hex)) (\<lambda>randomness_bytes.
     ok_or BadRandomness (ul_fr_from_le ul randomness_bytes))"

subsection \<open>The intent of an unshielded transfer\<close>

definition transfer_intent ::
    "('vk, 'tok, 'hash, 'addr, 'sig, 'fr, 'ped, 'spend, 'tx, 'ptx, 'stx, 'st, 'sk) unshielded_lib \<Rightarrow>
     ('vk, 'tok, 'hash) utxo_spend list \<Rightarrow> ('addr, 'tok) utxo_output list \<Rightarrow> 'sig list \<Rightarrow> u64 \<Rightarrow> 'b \<Rightarrow>
     ('vk, 'tok, 'hash, 'addr, 'sig, 'spend, 'b) ut_intent" where
  "transfer_intent ul inputs outputs signatures ttl_ms binding =
     \<lparr>in_guaranteed_offer = Some \<lparr>uf_inputs = sort_by (ul_input_le ul) inputs,
        uf_outputs = sort_by (ul_output_le ul) outputs, uf_signatures = signatures\<rparr>,
      in_fallible_offer = None, in_actions = [], in_dust_actions = None,
      in_ttl = ttl_ms div 1000, in_binding = binding\<rparr>"

text \<open>The part of \<open>build_and_serialize_intent\<close> up to the intent; the dust JSON is read and dropped.\<close>

definition build_intent ::
    "hexlib \<Rightarrow> ('vk, 'tok, 'hash, 'addr, 'sig, 'fr, 'ped, 'spend, 'tx, 'ptx, 'stx, 'st, 'sk) unshielded_lib \<Rightarrow>
     string \<Rightarrow> string \<Rightarrow> string \<Rightarrow> u64 \<Rightarrow> string \<Rightarrow>
     ser_error + ('vk, 'tok, 'hash, 'addr, 'sig, 'spend, 'fr) ut_intent" where
  "build_intent hx ul inputs_json outputs_json signatures_json ttl_ms binding_randomness_hex =
     bindE (ok_or InputsJson (ul_parse_inputs ul inputs_json)) (\<lambda>json_inputs.
     bindE (ok_or OutputsJson (ul_parse_outputs ul outputs_json)) (\<lambda>json_outputs.
     bindE (ok_or SignaturesJson (ul_parse_strings ul signatures_json)) (\<lambda>json_signatures.
     bindE (mapE (convert_input hx ul) json_inputs) (\<lambda>inputs.
     bindE (mapE (convert_output hx ul) json_outputs) (\<lambda>outputs.
     bindE (mapE (convert_signature hx ul) json_signatures) (\<lambda>signatures.
     bindE (parse_randomness hx ul binding_randomness_hex) (\<lambda>binding_randomness.
     Inr (transfer_intent ul inputs outputs signatures ttl_ms binding_randomness))))))))"

definition build_and_serialize_intent ::
    "hexlib \<Rightarrow> ('vk, 'tok, 'hash, 'addr, 'sig, 'fr, 'ped, 'spend, 'tx, 'ptx, 'stx, 'st, 'sk) unshielded_lib \<Rightarrow>
     string \<Rightarrow> string \<Rightarrow> string \<Rightarrow> string \<Rightarrow> u64 \<Rightarrow> string \<Rightarrow> string \<Rightarrow> ser_error + string" where
  "build_and_serialize_intent hx ul inputs_json outputs_json signatures_json dust_actions_json ttl_ms
       binding_randomness_hex network_id =
     bindE (build_intent hx ul inputs_json outputs_json signatures_json ttl_ms binding_randomness_hex)
       (\<lambda>intent.
     let transaction = ul_standard_tx ul network_id [(1, intent)] (in_binding intent) in
     bindE (ok_or TupleSer (ul_ser_tuple ul transaction)) (\<lambda>bytes. Inr (hx_enc hx bytes)))"

text \<open>The copy of the transfer with dust: the same offer, put on the base intent at segment 1.\<close>

definition base_transfer_intent ::
    "('vk, 'tok, 'hash, 'addr, 'sig, 'fr, 'ped, 'spend, 'tx, 'ptx, 'stx, 'st, 'sk) unshielded_lib \<Rightarrow>
     ('vk, 'tok, 'hash) utxo_spend list \<Rightarrow> ('addr, 'tok) utxo_output list \<Rightarrow> 'sig list \<Rightarrow> u64 \<Rightarrow> 'b \<Rightarrow>
     ('vk, 'tok, 'hash, 'addr, 'sig, 'spend, 'b) ut_intent" where
  "base_transfer_intent ul json_inputs json_outputs signatures ttl_ms binding_randomness =
     (let inputs = sort_by (ul_input_le ul) json_inputs;
          outputs = sort_by (ul_output_le ul) json_outputs;
          unshielded_offer = \<lparr>uf_inputs = inputs, uf_outputs = outputs, uf_signatures = signatures\<rparr>
      in \<lparr>in_guaranteed_offer = Some unshielded_offer, in_fallible_offer = None, in_actions = [],
          in_dust_actions = None, in_ttl = ttl_ms div 1000, in_binding = binding_randomness\<rparr>)"

definition build_base_intent ::
    "hexlib \<Rightarrow> ('vk, 'tok, 'hash, 'addr, 'sig, 'fr, 'ped, 'spend, 'tx, 'ptx, 'stx, 'st, 'sk) unshielded_lib \<Rightarrow>
     string \<Rightarrow> string \<Rightarrow> string \<Rightarrow> u64 \<Rightarrow> string \<Rightarrow>
     ser_error + ('vk, 'tok, 'hash, 'addr, 'sig, 'spend, 'fr) ut_intent" where
  "build_base_intent hx ul inputs_json outputs_json signatures_json ttl_ms binding_randomness_hex =
     bindE (ok_or InputsJson (ul_parse_inputs ul inputs_json)) (\<lambda>json_inputs.
     bindE (ok_or OutputsJson (ul_parse_outputs ul outputs_json)) (\<lambda>json_outputs.
     bindE (ok_or SignaturesJson (ul_parse_strings ul signatures_json)) (\<lambda>json_signatures.
     bindE (mapE (convert_input_raw hx ul) json_inputs) (\<lambda>inputs.
     bindE (mapE (convert_output_raw hx ul) json_outputs) (\<lambda>outputs.
     bindE (mapE (convert_signature hx ul) json_signatures) (\<lambda>signatures.
     bindE (parse_randomness hx ul binding_randomness_hex) (\<lambda>binding_randomness.
     Inr (base_transfer_intent ul inputs outputs signatures ttl_ms binding_randomness))))))))"

definition merge_dust_intent ::
    "('vk, 'tok, 'hash, 'addr, 'sig, 'fr, 'ped, 'spend, 'tx, 'ptx, 'stx, 'st, 'sk) unshielded_lib \<Rightarrow>
     'tx \<Rightarrow> string \<Rightarrow> u64 \<Rightarrow> ('spend list \<times> u64) option \<Rightarrow> ser_error + 'tx" where
  "merge_dust_intent ul base_transaction network_id ttl_ms dust_spends_opt =
     (case dust_spends_opt of None \<Rightarrow> Inr base_transaction
      | Some (dust_spends, ctime) \<Rightarrow>
          (let dust_intent = \<lparr>in_guaranteed_offer = None, in_fallible_offer = None, in_actions = [],
                 in_dust_actions = Some \<lparr>da_spends = dust_spends, da_registrations = [], da_ctime = ctime\<rparr>,
                 in_ttl = ttl_ms div 1000, in_binding = ul_fr_zero ul\<rparr>;
               dust_transaction = ul_new_tx ul network_id [(ul_segment ul, dust_intent)]
           in ok_or MergeDust (ul_merge ul base_transaction dust_transaction)))"

definition build_and_serialize_intent_with_dust ::
    "hexlib \<Rightarrow> ('vk, 'tok, 'hash, 'addr, 'sig, 'fr, 'ped, 'spend, 'tx, 'ptx, 'stx, 'st, 'sk) unshielded_lib \<Rightarrow>
     string \<Rightarrow> string \<Rightarrow> string \<Rightarrow> ('spend list \<times> u64) option \<Rightarrow> u64 \<Rightarrow> string \<Rightarrow> string \<Rightarrow>
     ser_error + string" where
  "build_and_serialize_intent_with_dust hx ul inputs_json outputs_json signatures_json dust_spends_opt
       ttl_ms binding_randomness_hex network_id =
     bindE (build_base_intent hx ul inputs_json outputs_json signatures_json ttl_ms binding_randomness_hex)
       (\<lambda>base_intent.
     bindE (merge_dust_intent ul (ul_new_tx ul network_id [(1, base_intent)]) network_id ttl_ms dust_spends_opt)
       (\<lambda>transaction.
     bindE (ok_or TupleSer (ul_ser_tuple ul transaction)) (\<lambda>bytes. Inr (hx_enc hx bytes))))"

subsection \<open>The FFI entry points\<close>

definition serialize_unshielded_transaction ::
    "hexlib \<Rightarrow> ('vk, 'tok, 'hash, 'addr, 'sig, 'fr, 'ped, 'spend, 'tx, 'ptx, 'stx, 'st, 'sk) unshielded_lib \<Rightarrow> cptr \<Rightarrow> cptr \<Rightarrow> cptr \<Rightarrow> cptr \<Rightarrow> u64 \<Rightarrow> cptr \<Rightarrow> cptr \<Rightarrow> cptr" where
  "serialize_unshielded_transaction hx ul inputs_hex outputs_hex signatures_hex dust_actions_hex ttl
       binding_randomness_hex network_id = do {
     inputs_c \<leftarrow> inputs_hex; outputs_c \<leftarrow> outputs_hex; signatures_c \<leftarrow> signatures_hex;
     dust_c \<leftarrow> dust_actions_hex; randomness_c \<leftarrow> binding_randomness_hex; network_c \<leftarrow> network_id;
     inputs_str \<leftarrow> cstr_to_str inputs_c;
     outputs_str \<leftarrow> cstr_to_str outputs_c;
     signatures_str \<leftarrow> cstr_to_str signatures_c;
     dust_actions_str \<leftarrow> cstr_to_str dust_c;
     binding_randomness_str \<leftarrow> cstr_to_str randomness_c;
     network_id_str \<leftarrow> cstr_to_str network_c;
     hex \<leftarrow> res_ok (build_and_serialize_intent hx ul inputs_str outputs_str signatures_str dust_actions_str
       ttl binding_randomness_str network_id_str);
     cstring_new hex
   }"

text \<open>
  The total fee sums every \<open>v_fee\<close> in \<open>u128\<close> (unparsable ones count 0, the sum wraps); the
  indices are not read. Then the first UTXO that can pay it all is spent.
\<close>

definition total_selection_fee :: "(usize \<times> string) list \<Rightarrow> u128" where
  "total_selection_fee sels =
     sum_list (map (\<lambda>s. case parse_u128 (snd s) of Some v \<Rightarrow> v | None \<Rightarrow> 0) sels)"

definition pay_fee ::
    "('st, 'sk, 'utxo, 'spend, 'nul) dust_lib \<Rightarrow> 'st \<Rightarrow> 'sk \<Rightarrow> u128 \<Rightarrow> u64 \<Rightarrow> ('st \<times> 'spend list) option" where
  "pay_fee dl dust_state dust_secret_key total_fee timestamp =
     (if total_fee = 0 then None
      else let (current_state, dust_spends, fee_remaining) =
             fee_loop dl dust_secret_key timestamp (dl_utxos dl dust_state) (dust_state, [], total_fee)
           in if fee_remaining > 0 then None else Some (current_state, dust_spends))"

text \<open>On success the wallet behind the pointer is the one that has spent; on failure it stays.\<close>

definition updated_state :: "'st option \<Rightarrow> (string \<times> 'st) option \<Rightarrow> cptr \<times> 'st option" where
  "updated_state dust_state_ptr result =
     (case result of
        None \<Rightarrow> (None, dust_state_ptr)
      | Some (hex, current_state) \<Rightarrow> (cstring_new hex, Some current_state))"

definition serialize_unshielded_transaction_with_dust ::
    "hexlib \<Rightarrow> ('st, 'sk, 'utxo, 'spend, 'nul) dust_lib \<Rightarrow> ('vk, 'tok, 'hash, 'addr, 'sig, 'fr, 'ped, 'spend, 'tx, 'ptx, 'stx, 'st, 'sk) unshielded_lib \<Rightarrow>
     cptr \<Rightarrow> cptr \<Rightarrow> cptr \<Rightarrow> 'st option \<Rightarrow> bytes option \<Rightarrow> usize \<Rightarrow> cptr \<Rightarrow> i64 \<Rightarrow> u64 \<Rightarrow> cptr \<Rightarrow> cptr \<Rightarrow>
     cptr \<times> 'st option" where
  "serialize_unshielded_transaction_with_dust hx dl ul inputs_hex outputs_hex signatures_hex dust_state_ptr
       seed_ptr seed_len dust_utxos_json current_time_ms ttl binding_randomness_hex network_id =
     updated_state dust_state_ptr (do {
        inputs_c \<leftarrow> inputs_hex; outputs_c \<leftarrow> outputs_hex; signatures_c \<leftarrow> signatures_hex;
        state \<leftarrow> dust_state_ptr; seed_mem \<leftarrow> seed_ptr; dust_c \<leftarrow> dust_utxos_json;
        randomness_c \<leftarrow> binding_randomness_hex; network_c \<leftarrow> network_id;
        assertO (seed_len = 32);
        inputs_str \<leftarrow> cstr_to_str inputs_c;
        outputs_str \<leftarrow> cstr_to_str outputs_c;
        signatures_str \<leftarrow> cstr_to_str signatures_c;
        dust_utxos_str \<leftarrow> cstr_to_str dust_c;
        binding_randomness_str \<leftarrow> cstr_to_str randomness_c;
        network_id_str \<leftarrow> cstr_to_str network_c;
        let dust_secret_key = dl_derive dl (slice_from seed_mem seed_len);
        let dust_state = ul_rekey ul state dust_secret_key;
        dust_selections \<leftarrow> ul_parse_dust ul dust_utxos_str;
        let timestamp = millis_to_secs current_time_ms;
        (current_state, dust_spends) \<leftarrow>
          pay_fee dl dust_state dust_secret_key (total_selection_fee dust_selections) timestamp;
        hex \<leftarrow> res_ok (build_and_serialize_intent_with_dust hx ul inputs_str outputs_str signatures_str
          (Some (dust_spends, timestamp)) ttl binding_randomness_str network_id_str);
        Some (hex, current_state)
      })"

subsection \<open>The message to sign\<close>

text \<open>The copy that is signed: no signatures yet.\<close>

definition signing_intent ::
    "('vk, 'tok, 'hash, 'addr, 'sig, 'fr, 'ped, 'spend, 'tx, 'ptx, 'stx, 'st, 'sk) unshielded_lib \<Rightarrow>
     ('vk, 'tok, 'hash) utxo_spend list \<Rightarrow> ('addr, 'tok) utxo_output list \<Rightarrow> u64 \<Rightarrow> 'b \<Rightarrow>
     ('vk, 'tok, 'hash, 'addr, 'sig, 'spend, 'b) ut_intent" where
  "signing_intent ul json_inputs json_outputs ttl_ms binding_randomness =
     (let inputs = sort_by (ul_input_le ul) json_inputs;
          outputs = sort_by (ul_output_le ul) json_outputs;
          unshielded_offer = \<lparr>uf_inputs = inputs, uf_outputs = outputs, uf_signatures = []\<rparr>
      in \<lparr>in_guaranteed_offer = Some unshielded_offer, in_fallible_offer = None, in_actions = [],
          in_dust_actions = None, in_ttl = ttl_ms div 1000, in_binding = binding_randomness\<rparr>)"

definition signature_parts ::
    "hexlib \<Rightarrow> ('vk, 'tok, 'hash, 'addr, 'sig, 'fr, 'ped, 'spend, 'tx, 'ptx, 'stx, 'st, 'sk) unshielded_lib \<Rightarrow> string \<Rightarrow> string \<Rightarrow> u32 \<Rightarrow> u64 \<Rightarrow> string option \<Rightarrow>
     ser_error + ('vk, 'tok, 'hash, 'addr, 'sig, 'spend, 'fr) ut_intent" where
  "signature_parts hx ul inputs_json outputs_json input_index ttl_ms binding_randomness_hex =
     bindE (ok_or InputsJson (ul_parse_inputs ul inputs_json)) (\<lambda>json_inputs.
     bindE (ok_or OutputsJson (ul_parse_outputs ul outputs_json)) (\<lambda>json_outputs.
     bindE (guardE (unat input_index < length json_inputs)
              (IndexOutOfBounds input_index (length json_inputs))) (\<lambda>_.
     bindE (mapE (convert_input hx ul) json_inputs) (\<lambda>inputs.
     bindE (mapE (convert_output hx ul) json_outputs) (\<lambda>outputs.
     bindE (case binding_randomness_hex of
              Some hex \<Rightarrow> parse_randomness hx ul hex
            | None \<Rightarrow> Inr (ul_random_fr ul)) (\<lambda>binding_randomness.
     Inr (signing_intent ul inputs outputs ttl_ms binding_randomness)))))))"

definition to_pedersen ::
    "('vk, 'tok, 'hash, 'addr, 'sig, 'fr, 'ped, 'spend, 'tx, 'ptx, 'stx, 'st, 'sk) unshielded_lib \<Rightarrow> ('vk, 'tok, 'hash, 'addr, 'sig, 'spend, 'fr) ut_intent \<Rightarrow>
     ('vk, 'tok, 'hash, 'addr, 'sig, 'spend, 'ped) ut_intent" where
  "to_pedersen ul intent =
     \<lparr>in_guaranteed_offer = in_guaranteed_offer intent, in_fallible_offer = in_fallible_offer intent,
      in_actions = in_actions intent, in_dust_actions = in_dust_actions intent,
      in_ttl = in_ttl intent, in_binding = ul_pedersen ul (in_binding intent)\<rparr>"

definition build_intent_and_get_signature_data ::
    "hexlib \<Rightarrow> json_lib \<Rightarrow> ('vk, 'tok, 'hash, 'addr, 'sig, 'fr, 'ped, 'spend, 'tx, 'ptx, 'stx, 'st, 'sk) unshielded_lib \<Rightarrow> string \<Rightarrow> string \<Rightarrow> u32 \<Rightarrow> u64 \<Rightarrow> string option \<Rightarrow> ser_error + string" where
  "build_intent_and_get_signature_data hx jl ul inputs_json outputs_json input_index ttl_ms
       binding_randomness_hex =
     bindE (signature_parts hx ul inputs_json outputs_json input_index ttl_ms binding_randomness_hex)
       (\<lambda>intent.
     let signature_data = ul_data_to_sign ul 1 (to_pedersen ul intent);
         randomness_bytes = ul_fr_to_bytes ul (in_binding intent)
     in Inr (jl_print jl (JObject [(''signing_message'', JString (hx_enc hx signature_data)),
                                   (''binding_randomness'', JString (hx_enc hx randomness_bytes))])))"

definition get_signing_message_for_input ::
    "hexlib \<Rightarrow> json_lib \<Rightarrow> ('vk, 'tok, 'hash, 'addr, 'sig, 'fr, 'ped, 'spend, 'tx, 'ptx, 'stx, 'st, 'sk) unshielded_lib \<Rightarrow> cptr \<Rightarrow> cptr \<Rightarrow> u32 \<Rightarrow> u64 \<Rightarrow> cptr \<Rightarrow> cptr" where
  "get_signing_message_for_input hx jl ul inputs_json outputs_json input_index ttl binding_randomness_hex = do {
     inputs_c \<leftarrow> inputs_json; outputs_c \<leftarrow> outputs_json;
     inputs_str \<leftarrow> cstr_to_str inputs_c;
     outputs_str \<leftarrow> cstr_to_str outputs_c;
     let binding_commitment_opt = (case Option.bind binding_randomness_hex cstr_to_str of
           Some s \<Rightarrow> if s \<noteq> [] then Some s else None | None \<Rightarrow> None);
     json \<leftarrow> res_ok (build_intent_and_get_signature_data hx jl ul inputs_str outputs_str input_index ttl
       binding_commitment_opt);
     cstring_new json
   }"

definition serialize_unshielded_transaction_stub :: "u64 \<Rightarrow> cptr" where
  "serialize_unshielded_transaction_stub ttl = cstring_new ''4d4e01000000000001704f2d4200000000''"

subsection \<open>Sealing and hashing\<close>

definition seal_proven_transaction_impl ::
    "hexlib \<Rightarrow> ('vk, 'tok, 'hash, 'addr, 'sig, 'fr, 'ped, 'spend, 'tx, 'ptx, 'stx, 'st, 'sk) unshielded_lib \<Rightarrow> string \<Rightarrow> ser_error + string" where
  "seal_proven_transaction_impl hx ul proven_hex =
     bindE (ok_or SealedHex (hx_dec hx proven_hex)) (\<lambda>proven_bytes.
     bindE (ok_or SealedDeser (ul_deser_proven ul proven_bytes)) (\<lambda>proven_tx.
     bindE (ok_or SealedTxSer (ul_ser_sealed ul (ul_seal_seeded ul 0 proven_tx))) (\<lambda>finalized_bytes.
     Inr (hx_enc hx finalized_bytes))))"

definition seal_proven_transaction :: "hexlib \<Rightarrow> ('vk, 'tok, 'hash, 'addr, 'sig, 'fr, 'ped, 'spend, 'tx, 'ptx, 'stx, 'st, 'sk) unshielded_lib \<Rightarrow> cptr \<Rightarrow> cptr" where
  "seal_proven_transaction hx ul proven_tx_hex = do {
     proven_c \<leftarrow> proven_tx_hex;
     proven_s \<leftarrow> cstr_to_str proven_c;
     sealed_hex \<leftarrow> res_ok (seal_proven_transaction_impl hx ul (str_trim proven_s));
     cstring_new sealed_hex
   }"

definition get_transaction_hash_impl ::
    "hexlib \<Rightarrow> ('vk, 'tok, 'hash, 'addr, 'sig, 'fr, 'ped, 'spend, 'tx, 'ptx, 'stx, 'st, 'sk) unshielded_lib \<Rightarrow> string \<Rightarrow> ser_error + string" where
  "get_transaction_hash_impl hx ul sealed_hex =
     bindE (ok_or SealedHex (hx_dec hx sealed_hex)) (\<lambda>sealed_bytes.
     bindE (ok_or SealedDeser (ul_deser_sealed ul sealed_bytes)) (\<lambda>sealed_tx.
     Inr (hx_enc hx (ul_tx_hash ul sealed_tx))))"

definition get_transaction_hash :: "hexlib \<Rightarrow> ('vk, 'tok, 'hash, 'addr, 'sig, 'fr, 'ped, 'spend, 'tx, 'ptx, 'stx, 'st, 'sk) unshielded_lib \<Rightarrow> cptr \<Rightarrow> cptr" where
  "get_transaction_hash hx ul sealed_tx_hex = do {
     sealed_c \<leftarrow> sealed_tx_hex;
     sealed_s \<leftarrow> cstr_to_str sealed_c;
     hash_hex \<leftarrow> res_ok (get_transaction_hash_impl hx ul (str_trim sealed_s));
     cstring_new hash_hex
   }"

subsection \<open>Lemmas\<close>

text \<open>The raw conversions succeed only where the deserialising ones do, with the same value.\<close>

definition raw_codecs_ok ::
    "('vk, 'tok, 'hash, 'addr, 'sig, 'fr, 'ped, 'spend, 'tx, 'ptx, 'stx, 'st, 'sk) unshielded_lib \<Rightarrow> bool" where
  "raw_codecs_ok ul \<longleftrightarrow> (\<forall>b. length b = 32 \<longrightarrow>
     ul_hash_deser ul b = Some (ul_hash_of ul b) \<and> ul_addr_deser ul b = Some (ul_addr_of ul b))"

lemma convert_input_raw_ok:
  "raw_codecs_ok ul \<Longrightarrow> convert_input_raw hx ul j = Inr x \<Longrightarrow> convert_input hx ul j = Inr x"
  by (auto simp: convert_input_raw_def convert_input_def resE raw_codecs_ok_def)

lemma convert_output_raw_ok:
  "raw_codecs_ok ul \<Longrightarrow> convert_output_raw hx ul j = Inr x \<Longrightarrow> convert_output hx ul j = Inr x"
  by (auto simp: convert_output_raw_def convert_output_def resE raw_codecs_ok_def)

lemma mapE_mono:
  "(\<And>x y. f x = Inr y \<Longrightarrow> g x = Inr y) \<Longrightarrow> mapE f xs = Inr ys \<Longrightarrow> mapE g xs = Inr ys"
  by (induction xs arbitrary: ys) (auto split: sum.splits)

lemma intent_copies_agree [simp]:
  "base_transfer_intent ul i os sigs ttl b = transfer_intent ul i os sigs ttl b"
  "signing_intent ul i os ttl b = transfer_intent ul i os [] ttl b"
  by (simp_all add: base_transfer_intent_def signing_intent_def transfer_intent_def)

lemma build_intent_ok:
  "build_intent hx ul ins outs sigs ttl rh = Inr it \<longleftrightarrow>
   (\<exists>jis jos jss inputs outputs signatures r.
      ul_parse_inputs ul ins = Some jis \<and> ul_parse_outputs ul outs = Some jos \<and>
      ul_parse_strings ul sigs = Some jss \<and> mapE (convert_input hx ul) jis = Inr inputs \<and>
      mapE (convert_output hx ul) jos = Inr outputs \<and> mapE (convert_signature hx ul) jss = Inr signatures \<and>
      parse_randomness hx ul rh = Inr r \<and> it = transfer_intent ul inputs outputs signatures ttl r)"
  by (auto simp: build_intent_def resE)

lemma build_base_intent_plain:
  assumes "raw_codecs_ok ul" and "build_base_intent hx ul ins outs sigs ttl rh = Inr it"
  shows "build_intent hx ul ins outs sigs ttl rh = Inr it"
proof -
  have i: "mapE (convert_input_raw hx ul) xs = Inr ys \<Longrightarrow> mapE (convert_input hx ul) xs = Inr ys" for xs ys
    by (rule mapE_mono [OF convert_input_raw_ok [OF assms(1)]])
  have o': "mapE (convert_output_raw hx ul) xs = Inr ys \<Longrightarrow> mapE (convert_output hx ul) xs = Inr ys" for xs ys
    by (rule mapE_mono [OF convert_output_raw_ok [OF assms(1)]])
  show ?thesis using assms(2) i o' unfolding build_intent_ok
    by (fastforce simp: build_base_intent_def resE)
qed

definition unsigned_intent ::
    "('vk, 'tok, 'hash, 'addr, 'sig, 'spend, 'b) ut_intent \<Rightarrow>
     ('vk, 'tok, 'hash, 'addr, 'sig, 'spend, 'b) ut_intent" where
  "unsigned_intent it = it\<lparr>in_guaranteed_offer :=
     map_option (\<lambda>f. f\<lparr>uf_signatures := []\<rparr>) (in_guaranteed_offer it)\<rparr>"

lemma unsigned_transfer [simp]:
  "unsigned_intent (transfer_intent ul i os sigs ttl r) = transfer_intent ul i os [] ttl r"
  by (simp add: unsigned_intent_def transfer_intent_def)

lemma signature_parts_of_intent:
  assumes "build_intent hx ul ins outs sigs ttl rh = Inr it"
    and "ul_parse_inputs ul ins = Some jis" and "unat i < length jis"
  shows "signature_parts hx ul ins outs i ttl (Some rh) = Inr (unsigned_intent it)"
  using assms by (auto simp: build_intent_ok signature_parts_def)

lemma pay_fee_ok:
  "pay_fee dl st sk fee ts = Some (st', sps) \<longleftrightarrow>
   fee \<noteq> 0 \<and> (\<exists>pre u post sp. dl_utxos dl st = pre @ u # post \<and>
     (\<forall>y \<in> set pre. dl_spend dl st sk y fee ts = None) \<and>
     dl_spend dl st sk u fee ts = Some (st', sp) \<and> sps = [sp])" (is "_ \<longleftrightarrow> fee \<noteq> 0 \<and> ?R")
proof (cases "fee = 0")
  case False
  obtain s l rem where f: "fee_loop dl sk ts (dl_utxos dl st) (st, [], fee) = (s, l, rem)"
    by (cases "fee_loop dl sk ts (dl_utxos dl st) (st, [], fee)") blast
  have att: "fee_attempt dl sk ts st fee u = (case dl_spend dl st sk u fee ts of None \<Rightarrow> None | Some r \<Rightarrow> Some (Inr r))"
    for u using False by (simp add: fee_attempt_def)
  have n: "fee_attempt dl sk ts st fee u = None \<longleftrightarrow> dl_spend dl st sk u fee ts = None"
    "fee_attempt dl sk ts st fee u = Some (Inr (a, b)) \<longleftrightarrow> dl_spend dl st sk u fee ts = Some (a, b)" for u a b
    by (simp_all add: att split: option.split)
  have "pay_fee dl st sk fee ts = Some (st', sps) \<longleftrightarrow>
      (\<exists>sp. fee_run dl sk ts st fee (dl_utxos dl st) = Inr (Some (st', sp)) \<and> sps = [sp])"
    using fee_loop_shape [OF f] False
    by (auto simp: pay_fee_def fee_run_def f word_gt_0 split: list.splits)
  also have "\<dots> \<longleftrightarrow> ?R"
    unfolding serialize_pick.run_some_iff n by blast
  finally show ?thesis using False by simp
qed (simp add: pay_fee_def)

lemma with_dust_hex:
  "build_and_serialize_intent_with_dust hx ul i os s d t r n = Inr h \<Longrightarrow> hex_ok hx \<Longrightarrow> cstring_new h = Some h"
  by (auto simp: build_and_serialize_intent_with_dust_def resE hex_enc_cstring)

lemma dust_entry_cases:
  assumes "serialize_unshielded_transaction_with_dust hx dl ul ih oh sh sp sd sl dj ct ttl rh net = (r, st2)"
  shows "(r = None \<and> st2 = sp) \<or>
    (\<exists>st seed ds sels st' sps hex i os ss t n. sp = Some st \<and> sd = Some seed \<and> st2 = Some st' \<and> r = cstring_new hex \<and>
      Option.bind dj cstr_to_str = Some ds \<and> ul_parse_dust ul ds = Some sels \<and>
      Option.bind ih cstr_to_str = Some i \<and> Option.bind oh cstr_to_str = Some os \<and>
      Option.bind sh cstr_to_str = Some ss \<and> Option.bind rh cstr_to_str = Some t \<and>
      Option.bind net cstr_to_str = Some n \<and>
      pay_fee dl (ul_rekey ul st (dl_derive dl (slice_from seed 32))) (dl_derive dl (slice_from seed 32))
        (total_selection_fee sels) (millis_to_secs ct) = Some (st', sps) \<and>
      build_and_serialize_intent_with_dust hx ul i os ss (Some (sps, millis_to_secs ct)) ttl t n = Inr hex)"
    (is "?N \<or> ?R")
proof (rule disjCI)
  assume "\<not> ?R"
  with assms show ?N
    unfolding serialize_unshielded_transaction_with_dust_def updated_state_def
    by (simp add: res_ok_eq_Some assertO_eq_Some Let_def split: option.splits bind_splits prod.splits) blast
qed

subsection \<open>A concrete ledger\<close>

definition demo_ul ::
    "(u8, u8, u8, u8, u8, u8, u8, u8, bytes, bytes, bytes, u8 list, bytes) unshielded_lib" where
  "demo_ul = \<lparr>
     ul_parse_inputs = (\<lambda>s. Some [\<lparr>ju_value = show_word (7::u128), ju_owner = hx_enc ref_hex (replicate 32 1),
        ju_type = hx_enc ref_hex (replicate 32 2), ju_intent_hash = hx_enc ref_hex (replicate 32 3),
        ju_output_no = 0\<rparr>]),
     ul_parse_outputs = (\<lambda>s. Some []), ul_parse_strings = (\<lambda>s. Some [hx_enc ref_hex [9]]),
     ul_parse_dust = (\<lambda>s. Some [(0, show_word (5::u128))]),
     ul_vk_deser = (\<lambda>b. Some (hd b)), ul_tok_of = hd, ul_hash_deser = (\<lambda>b. Some (hd b)), ul_hash_of = hd,
     ul_addr_deser = (\<lambda>b. Some (hd b)), ul_addr_of = hd, ul_sig_deser = (\<lambda>b. Some (hd b)),
     ul_input_le = (\<lambda>a b. us_value a \<le> us_value b), ul_output_le = (\<lambda>a b. uo_value a \<le> uo_value b),
     ul_fr_from_le = (\<lambda>b. case b of [r] \<Rightarrow> Some r | _ \<Rightarrow> None), ul_fr_to_bytes = (\<lambda>r. [r]), ul_fr_zero = 0,
     ul_random_fr = 6, ul_pedersen = (\<lambda>r. r + 1),
     ul_data_to_sign = (\<lambda>sg it. [ucast (in_ttl it), in_binding it]),
     ul_standard_tx = (\<lambda>n is r. [r]), ul_new_tx = (\<lambda>n is. [of_nat (length n)]),
     ul_merge = (\<lambda>a b. Some (a @ b)), ul_ser_tuple = Some, ul_segment = 2, ul_rekey = (\<lambda>st sk. st),
     ul_deser_proven = Some, ul_seal_seeded = (\<lambda>k t. t), ul_ser_sealed = Some, ul_deser_sealed = Some,
     ul_tx_hash = (\<lambda>t. t)\<rparr>"

definition demo_ul_json :: json_lib where
  "demo_ul_json = \<lparr>jl_parse = (\<lambda>s. None), jl_print = (\<lambda>v. ''json'')\<rparr>"

definition demo_ul_dust :: "(u8 list, bytes, u8, u8, u8) dust_lib" where
  "demo_ul_dust = \<lparr>dl_utxos = (\<lambda>st. st),
     dl_spend = (\<lambda>st sk u fee ts. if fee \<le> ucast u then Some (removeAll u st, u) else None),
     dl_old_nullifier = (\<lambda>sp. sp), dl_ser_nullifier = (\<lambda>n. Some [n]),
     dl_nullifier = (\<lambda>u sk. u), dl_derive = (\<lambda>b. b)\<rparr>"

subsection \<open>Properties\<close>


lemma demo_build_intent:
  "\<exists>it. build_intent ref_hex demo_ul [] [] [] 5000 (hx_enc ref_hex [4]) = Inr it"
proof -
  have "hx_dec ref_hex (hx_enc ref_hex b) = Some b" for b by (rule hex_dec_enc [OF ref_hex_ok])
  then show ?thesis
    by (simp add: build_intent_def demo_ul_def convert_input_def key_32_def token_32_def
        convert_signature_def parse_randomness_def)
qed


text \<open>
  The signing message is the same for every owner: a first call that draws fresh randomness
  returns it in its answer, and any later call, for any other input index, that is given that
  randomness returns the identical answer.
\<close>

lemma signing_message_stable:
  assumes "build_intent_and_get_signature_data hx jl ul ins outs i ttl None = Inr answer"
    and "hex_ok hx" and "\<And>r. ul_fr_from_le ul (ul_fr_to_bytes ul r) = Some r"
    and "ul_parse_inputs ul ins = Some jis" and "unat j < length jis"
  shows "build_intent_and_get_signature_data hx jl ul ins outs j ttl
    (Some (hx_enc hx (ul_fr_to_bytes ul (ul_random_fr ul)))) = Inr answer"
proof -
  have "parse_randomness hx ul (hx_enc hx (ul_fr_to_bytes ul (ul_random_fr ul))) = Inr (ul_random_fr ul)"
    using assms(3) by (simp add: parse_randomness_def hex_dec_enc [OF assms(2)])
  then show ?thesis
    using assms(1,4,5) by (auto simp: build_intent_and_get_signature_data_def signature_parts_def resE)
qed

text \<open>
  C21. A successful \<open>serialize_unshielded_transaction_with_dust\<close> pays the whole fee once: the fee is
  the (nonzero, wrapping) sum of the selections, exactly one spend is made, of the first UTXO of the
  re-keyed wallet that can pay it all, that spend goes into the transaction returned, and the wallet
  written back is the one after it. A failed call writes nothing back.
\<close>

theorem dust_tx_pays_once:
  assumes "serialize_unshielded_transaction_with_dust hx dl ul ih oh sh sp sd sl dj ct ttl rh net = (r, st2)"
    and "hex_ok hx"
  shows "(r = None \<and> st2 = sp) \<or>
    (\<exists>st seed ds sels pre u post st' spend hex. r = Some hex \<and> sp = Some st \<and> sd = Some seed \<and> st2 = Some st' \<and>
      Option.bind dj cstr_to_str = Some ds \<and> ul_parse_dust ul ds = Some sels \<and>
      (let sk = dl_derive dl (slice_from seed 32); wallet = ul_rekey ul st sk;
           fee = total_selection_fee sels; now = millis_to_secs ct in
       fee \<noteq> 0 \<and> dl_utxos dl wallet = pre @ u # post \<and>
       (\<forall>y \<in> set pre. dl_spend dl wallet sk y fee now = None) \<and>
       dl_spend dl wallet sk u fee now = Some (st', spend) \<and>
       (\<exists>i os ss t n. Option.bind ih cstr_to_str = Some i \<and> Option.bind oh cstr_to_str = Some os \<and>
          Option.bind sh cstr_to_str = Some ss \<and> Option.bind rh cstr_to_str = Some t \<and>
          Option.bind net cstr_to_str = Some n \<and>
          build_and_serialize_intent_with_dust hx ul i os ss (Some ([spend], now)) ttl t n = Inr hex)))"
proof (cases "r = None \<and> st2 = sp")
  case False
  from dust_entry_cases [OF assms(1)] False obtain st seed ds sels st' sps hex i os ss t n where
    e: "sp = Some st" "sd = Some seed" "st2 = Some st'" "r = cstring_new hex"
      "Option.bind dj cstr_to_str = Some ds" "ul_parse_dust ul ds = Some sels"
    and strings: "Option.bind ih cstr_to_str = Some i" "Option.bind oh cstr_to_str = Some os"
      "Option.bind sh cstr_to_str = Some ss" "Option.bind rh cstr_to_str = Some t"
      "Option.bind net cstr_to_str = Some n"
    and pay: "pay_fee dl (ul_rekey ul st (dl_derive dl (slice_from seed 32))) (dl_derive dl (slice_from seed 32))
       (total_selection_fee sels) (millis_to_secs ct) = Some (st', sps)"
    and build: "build_and_serialize_intent_with_dust hx ul i os ss (Some (sps, millis_to_secs ct)) ttl t n = Inr hex"
    by blast
  have "r = Some hex" using with_dust_hex [OF build assms(2)] e(4) by simp
  moreover obtain pre u post spend where
    "total_selection_fee sels \<noteq> 0"
    "dl_utxos dl (ul_rekey ul st (dl_derive dl (slice_from seed 32))) = pre @ u # post"
    "\<forall>y \<in> set pre. dl_spend dl (ul_rekey ul st (dl_derive dl (slice_from seed 32)))
       (dl_derive dl (slice_from seed 32)) y (total_selection_fee sels) (millis_to_secs ct) = None"
    "dl_spend dl (ul_rekey ul st (dl_derive dl (slice_from seed 32)))
       (dl_derive dl (slice_from seed 32)) u (total_selection_fee sels) (millis_to_secs ct)
      = Some (st', spend)" "sps = [spend]"
    using pay unfolding pay_fee_ok by blast
  ultimately show ?thesis using e strings build unfolding Let_def by blast
qed simp

theorem dust_tx_pays_once_witness:
  "\<exists>h pre u post. serialize_unshielded_transaction_with_dust ref_hex demo_ul_dust demo_ul (Some []) (Some []) (Some [])
      (Some [3, 8]) (Some (replicate 32 0)) 32 (Some []) 5000 5000 (Some (hx_enc ref_hex [4])) (Some ''n'')
      = (Some h, Some [3]) \<and> [3, 8::u8] = pre @ u # post \<and>
    dl_spend demo_ul_dust [3, 8] (replicate 32 0) u 5 (millis_to_secs 5000) \<noteq> None"
proof -
  have d: "hx_dec ref_hex (hx_enc ref_hex b) = Some b" for b by (rule hex_dec_enc [OF ref_hex_ok])
  have c: "cstr_to_str (hx_enc ref_hex b) = Some (hx_enc ref_hex b)" for b
    by (rule cstr_to_str_ascii [OF hex_enc_plain(5) [OF ref_hex_ok]])
  have c2: "cstr_to_str [] = Some []" "cstr_to_str ''n'' = Some ''n''" by code_simp+
  have p: "pay_fee demo_ul_dust [3, 8] sk 5 ts = Some ([3], [8])" for sk ts
    by (simp add: pay_fee_def demo_ul_dust_def)
  have t: "total_selection_fee [(0, show_word (5::u128))] = 5" by (simp add: total_selection_fee_def)
  have s: "ul_rekey demo_ul st k = st" "ul_parse_dust demo_ul x = Some [(0, show_word (5::u128))]"
    "dl_derive demo_ul_dust y = y" for st k x y by (simp_all add: demo_ul_def demo_ul_dust_def)
  obtain h where "build_and_serialize_intent_with_dust ref_hex demo_ul [] [] [] (Some ([8], millis_to_secs 5000)) 5000
      (hx_enc ref_hex [4]) ''n'' = Inr h"
    by (simp add: build_and_serialize_intent_with_dust_def build_base_intent_def demo_ul_def d convert_input_raw_def
        key_32_def token_32_def convert_signature_def parse_randomness_def merge_dust_intent_def)
  moreover from this have "cstring_new h = Some h" by (rule with_dust_hex [OF _ ref_hex_ok])
  ultimately have e: "serialize_unshielded_transaction_with_dust ref_hex demo_ul_dust demo_ul (Some []) (Some []) (Some [])
      (Some [3, 8]) (Some (replicate 32 0)) 32 (Some []) 5000 5000 (Some (hx_enc ref_hex [4])) (Some ''n'')
      = (Some h, Some [3])"
    by (simp add: serialize_unshielded_transaction_with_dust_def updated_state_def c c2 p t s)
  obtain seed sels pre u post spend where "Some (replicate 32 (0::u8)) = Some seed"
    "[3, 8] = pre @ u # post" "total_selection_fee sels \<noteq> 0"
    "dl_spend demo_ul_dust [3, 8] (slice_from seed 32) u (total_selection_fee sels) (millis_to_secs 5000)
      = Some ([3], spend)"
    using dust_tx_pays_once [OF e ref_hex_ok]
    by (auto simp: s Let_def demo_ul_dust_def [THEN arg_cong [of _ _ dl_utxos]])
  then have u: "[3, 8::u8] = pre @ u # post" "u = 8"
    by (auto simp: demo_ul_dust_def Cons_eq_append_conv split: if_splits)
  then have "dl_spend demo_ul_dust [3, 8] (replicate 32 0) u 5 (millis_to_secs 5000) \<noteq> None"
    by (simp add: demo_ul_dust_def)
  with e u show ?thesis by blast
qed

text \<open>
  The offer of a transfer is in canonical order: its inputs and outputs are sorted by the
  ledger's order and are, with multiplicity, the converted ones; its signatures are the converted
  ones in the order given, so they do not follow their inputs when sorting moves them.
\<close>

lemma offer_in_canonical_order:
  assumes "build_intent hx ul ins outs sigs ttl rh = Inr it"
    and "total_order (ul_input_le ul)" and "total_order (ul_output_le ul)"
  shows "\<exists>f jis jos jss ins' outs' sigs'. in_guaranteed_offer it = Some f \<and>
    ul_parse_inputs ul ins = Some jis \<and> ul_parse_outputs ul outs = Some jos \<and> ul_parse_strings ul sigs = Some jss \<and>
    mapE (convert_input hx ul) jis = Inr ins' \<and> mapE (convert_output hx ul) jos = Inr outs' \<and>
    mapE (convert_signature hx ul) jss = Inr sigs' \<and>
    sorted_wrt (ul_input_le ul) (uf_inputs f) \<and> (\<forall>x. count_list (uf_inputs f) x = count_list ins' x) \<and>
    sorted_wrt (ul_output_le ul) (uf_outputs f) \<and> (\<forall>x. count_list (uf_outputs f) x = count_list outs' x) \<and>
    uf_signatures f = sigs'"
proof -
  from assms(1) obtain jis jos jss ins' outs' sigs' r where p: "ul_parse_inputs ul ins = Some jis"
    "ul_parse_outputs ul outs = Some jos" "ul_parse_strings ul sigs = Some jss"
    "mapE (convert_input hx ul) jis = Inr ins'" "mapE (convert_output hx ul) jos = Inr outs'"
    "mapE (convert_signature hx ul) jss = Inr sigs'" "it = transfer_intent ul ins' outs' sigs' ttl r"
    unfolding build_intent_ok by blast
  then show ?thesis
    by (simp add: transfer_intent_def sorted_sort_by [OF assms(2)] sorted_sort_by [OF assms(3)] count_sort_by)
qed

end
