(* ===== verification/DustRegistration.thy ===== *)
theory DustRegistration
  imports UnshieldedTx
begin

text \<open>
  Registering a NIGHT key for dust (\<open>serialize.rs\<close>): choosing the NIGHT UTXO with the most
  generated dust, building and signing the registration intent, the maturity gate with its sentinel
  result, and the filter of UTXOs not yet generating. Keys, signing, the ledger's intents, fees and
  codecs are a parameter.
\<close>

record json_dust_utxo =
  jd_value :: string
  jd_intent_hash :: string
  jd_output_no :: u32
  jd_ctime :: u64

type_synonym ('vk, 'tok, 'hash, 'addr, 'sig, 'dpk, 'bind) reg_intent =
  "(('vk, 'tok, 'hash, 'addr, 'sig) offer, unit, (unit, ('vk, 'dpk, 'sig) dust_registration) dust_actions, 'bind) intent"

record ('nsk, 'vk, 'tok, 'hash, 'addr, 'sig, 'dpk, 'fr, 'ped, 'par, 'tx, 'st) reg_lib =
  rg_key_from_bytes :: "bytes \<Rightarrow> 'nsk option"
  rg_verifying_key :: "'nsk \<Rightarrow> 'vk"
  rg_dpk_deser :: "bytes \<Rightarrow> 'dpk option"
  rg_random_fr :: 'fr
  rg_pedersen :: "'fr \<Rightarrow> 'ped"
  rg_parse_utxos :: "string \<Rightarrow> json_dust_utxo list option"
  rg_print_utxos :: "json_dust_utxo list \<Rightarrow> string option"
  rg_address_of :: "'vk \<Rightarrow> 'addr"
  rg_night :: 'tok
  rg_hash_deser :: "bytes \<Rightarrow> 'hash option"
  rg_data_to_sign :: "u16 \<Rightarrow> ('vk, 'tok, 'hash, 'addr, 'sig, 'dpk, 'ped) reg_intent \<Rightarrow> bytes"
  rg_sign :: "'nsk \<Rightarrow> bytes \<Rightarrow> 'sig"
  rg_new_tx :: "string \<Rightarrow> (u16 \<times> ('vk, 'tok, 'hash, 'addr, 'sig, 'dpk, 'fr) reg_intent) list \<Rightarrow> 'tx"
  rg_params_tagged :: "bytes \<Rightarrow> 'par option"
  rg_params_raw :: "bytes \<Rightarrow> 'par option"
  rg_fees :: "'tx \<Rightarrow> 'par \<Rightarrow> usize \<Rightarrow> u128 option"
  rg_ser_tuple :: "'tx \<Rightarrow> bytes option"
  rg_backing_nights :: "'st \<Rightarrow> bytes list"
  rg_initial_nonce :: "('vk, 'tok, 'hash) utxo_spend \<Rightarrow> bytes"

datatype reg_error =
    RegKey | RegDustKeyHex | RegDustKey | RegUtxosJson | RegNoUtxo | RegValue | RegHashHex | RegHash
  | RegParamsHex | RegParams | RegFee | RegSer | NotMatured u128

definition DUST_NOT_MATURED_PREFIX :: string where
  "DUST_NOT_MATURED_PREFIX = ''DUST_NOT_MATURED:''"

definition NIGHT_DUST_RATIO :: u128 where "NIGHT_DUST_RATIO = 5000000000"
definition GENERATION_DECAY_RATE :: u128 where "GENERATION_DECAY_RATE = 8267"
definition DUST_REGISTRATION_FEE_BLOCKS_MARGIN :: usize where "DUST_REGISTRATION_FEE_BLOCKS_MARGIN = 5"

subsection \<open>The UTXO with the most dust\<close>

definition generated_dust :: "u64 \<Rightarrow> u64 \<Rightarrow> u128 \<Rightarrow> u128" where
  "generated_dust current_time_secs ctime value =
     (let vfull = sat_mul value NIGHT_DUST_RATIO;
          rate = sat_mul value GENERATION_DECAY_RATE;
          dt = ucast (sat_sub current_time_secs ctime) :: u128
      in min (sat_mul dt rate) vfull)"

definition night_spend ::
    "hexlib \<Rightarrow> ('nsk, 'vk, 'tok, 'hash, 'addr, 'sig, 'dpk, 'fr, 'ped, 'par, 'tx, 'st) reg_lib \<Rightarrow> 'vk \<Rightarrow> u64 \<Rightarrow>
     json_dust_utxo \<Rightarrow> reg_error + (('vk, 'tok, 'hash) utxo_spend \<times> u128 \<times> u128)" where
  "night_spend hx rg verifying_key current_time_secs json_utxo =
     bindE (ok_or RegValue (parse_u128 (jd_value json_utxo))) (\<lambda>value.
     bindE (ok_or RegHashHex (hx_dec hx (jd_intent_hash json_utxo))) (\<lambda>intent_hash_bytes.
     bindE (ok_or RegHash (rg_hash_deser rg intent_hash_bytes)) (\<lambda>intent_hash.
     Inr (\<lparr>us_value = value, us_owner = verifying_key, us_type = rg_night rg,
            us_intent_hash = intent_hash, us_output_no = jd_output_no json_utxo\<rparr>,
          value, generated_dust current_time_secs (jd_ctime json_utxo) value))))"

fun best_utxo ::
    "(json_dust_utxo \<Rightarrow> reg_error + ('spend \<times> u128 \<times> u128)) \<Rightarrow> json_dust_utxo list \<Rightarrow>
     ('spend \<times> u128 \<times> u128) option \<Rightarrow> reg_error + ('spend \<times> u128 \<times> u128) option" where
  "best_utxo f [] best = Inr best"
| "best_utxo f (u # us) best =
     (case f u of
        Inl e \<Rightarrow> Inl e
      | Inr (spend, value, generated) \<Rightarrow>
          best_utxo f us
            (if (case best of None \<Rightarrow> True | Some (_, _, d) \<Rightarrow> generated > d)
             then Some (spend, value, generated) else best))"

subsection \<open>The registration intent\<close>

definition registration_intent ::
    "('nsk, 'vk, 'tok, 'hash, 'addr, 'sig, 'dpk, 'fr, 'ped, 'par, 'tx, 'st) reg_lib \<Rightarrow>
     'vk \<Rightarrow> 'dpk \<Rightarrow> ('vk, 'tok, 'hash) utxo_spend \<Rightarrow> u128 \<Rightarrow> u128 \<Rightarrow> u64 \<Rightarrow> u64 \<Rightarrow> 'sig option \<Rightarrow> 'b \<Rightarrow>
     ('vk, 'tok, 'hash, 'addr, 'sig, 'dpk, 'b) reg_intent" where
  "registration_intent rg verifying_key dust_pk selected_spend total_night_value allow_fee_payment
       ctime ttl signature binding =
     \<lparr>in_guaranteed_offer = Some \<lparr>uf_inputs = [selected_spend],
        uf_outputs = [\<lparr>uo_value = total_night_value, uo_owner = rg_address_of rg verifying_key,
                      uo_type = rg_night rg\<rparr>],
        uf_signatures = (case signature of None \<Rightarrow> [] | Some s \<Rightarrow> [s])\<rparr>,
      in_fallible_offer = None, in_actions = [],
      in_dust_actions = Some \<lparr>da_spends = [],
        da_registrations = [\<lparr>dr_night_key = verifying_key, dr_dust_address = Some dust_pk,
          dr_allow_fee_payment = allow_fee_payment, dr_signature = signature\<rparr>],
        da_ctime = ctime\<rparr>,
      in_ttl = ttl, in_binding = binding\<rparr>"

definition reg_params ::
    "('nsk, 'vk, 'tok, 'hash, 'addr, 'sig, 'dpk, 'fr, 'ped, 'par, 'tx, 'st) reg_lib \<Rightarrow> bytes \<Rightarrow> reg_error + 'par" where
  "reg_params rg params_bytes =
     (case rg_params_tagged rg params_bytes of Some p \<Rightarrow> Inr p
      | None \<Rightarrow> ok_or RegParams (rg_params_raw rg (serialize_strip_tag_prefix params_bytes)))"

text \<open>The gate: no parameters, no check; otherwise the fee must be covered.\<close>

definition maturity_gate ::
    "hexlib \<Rightarrow> ('nsk, 'vk, 'tok, 'hash, 'addr, 'sig, 'dpk, 'fr, 'ped, 'par, 'tx, 'st) reg_lib \<Rightarrow>
     string \<Rightarrow> 'tx \<Rightarrow> u128 \<Rightarrow> reg_error + unit" where
  "maturity_gate hx rg params_hex transaction allow_fee_payment =
     (if params_hex = [] then Inr ()
      else bindE (ok_or RegParamsHex (hx_dec hx params_hex)) (\<lambda>params_bytes.
           bindE (reg_params rg params_bytes) (\<lambda>params.
           bindE (ok_or RegFee (rg_fees rg transaction params DUST_REGISTRATION_FEE_BLOCKS_MARGIN)) (\<lambda>fee.
           if allow_fee_payment < fee then Inl (NotMatured (fee - allow_fee_payment)) else Inr ()))))"

definition registration_tx ::
    "('nsk, 'vk, 'tok, 'hash, 'addr, 'sig, 'dpk, 'fr, 'ped, 'par, 'tx, 'st) reg_lib \<Rightarrow>
     'nsk \<Rightarrow> 'dpk \<Rightarrow> ('vk, 'tok, 'hash) utxo_spend \<Rightarrow> u128 \<Rightarrow> u128 \<Rightarrow> u64 \<Rightarrow> u64 \<Rightarrow> string \<Rightarrow> 'tx" where
  "registration_tx rg signing_key dust_pk selected_spend total_night_value allow_fee_payment ctime ttl
       network_id =
     (let verifying_key = rg_verifying_key rg signing_key;
          binding_randomness = rg_random_fr rg;
          mk = registration_intent rg verifying_key dust_pk selected_spend total_night_value
                 allow_fee_payment ctime ttl;
          intent_pedersen = registration_intent rg verifying_key dust_pk selected_spend total_night_value
                 allow_fee_payment ctime ttl None (rg_pedersen rg binding_randomness);
          signature = rg_sign rg signing_key (rg_data_to_sign rg 1 intent_pedersen)
      in rg_new_tx rg network_id [(1, mk (Some signature) binding_randomness)])"

definition serialize_registration ::
    "hexlib \<Rightarrow> ('nsk, 'vk, 'tok, 'hash, 'addr, 'sig, 'dpk, 'fr, 'ped, 'par, 'tx, 'st) reg_lib \<Rightarrow> 'tx \<Rightarrow> reg_error + string" where
  [simp]: "serialize_registration hx rg transaction =
     bindE (ok_or RegSer (rg_ser_tuple rg transaction)) (\<lambda>bytes. Inr (hx_enc hx bytes))"

definition build_dust_registration_transaction_impl ::
    "hexlib \<Rightarrow> ('nsk, 'vk, 'tok, 'hash, 'addr, 'sig, 'dpk, 'fr, 'ped, 'par, 'tx, 'st) reg_lib \<Rightarrow>
     bytes \<Rightarrow> string \<Rightarrow> u64 \<Rightarrow> i64 \<Rightarrow> string \<Rightarrow> string \<Rightarrow> string \<Rightarrow> reg_error + string" where
  "build_dust_registration_transaction_impl hx rg night_private_key dust_public_key_hex ttl_millis
       current_time_millis utxos_json network_id params_hex =
     bindE (ok_or RegKey (rg_key_from_bytes rg night_private_key)) (\<lambda>signing_key.
     bindE (ok_or RegDustKeyHex (hx_dec hx dust_public_key_hex)) (\<lambda>dust_pk_bytes.
     bindE (ok_or RegDustKey (rg_dpk_deser rg dust_pk_bytes)) (\<lambda>dust_pk.
     let current_time_secs = millis_to_secs current_time_millis;
         ttl = ttl_millis div 1000 in
     bindE (ok_or RegUtxosJson (rg_parse_utxos rg utxos_json)) (\<lambda>json_utxos.
     bindE (guardE (json_utxos \<noteq> []) RegNoUtxo) (\<lambda>_.
     bindE (best_utxo (night_spend hx rg (rg_verifying_key rg signing_key) current_time_secs) json_utxos None)
       (\<lambda>best.
     bindE (ok_or RegNoUtxo best) (\<lambda>(selected_spend, total_night_value, allow_fee_payment).
     let transaction = registration_tx rg signing_key dust_pk selected_spend total_night_value
                         allow_fee_payment current_time_secs ttl network_id in
     bindE (maturity_gate hx rg params_hex transaction allow_fee_payment) (\<lambda>_.
     serialize_registration hx rg transaction))))))))"

text \<open>The sentinel is the one error that becomes a string; every other error is null.\<close>

definition reg_payload :: "reg_error + string \<Rightarrow> string option" where
  "reg_payload result =
     (case result of
        Inr hex \<Rightarrow> Some hex
      | Inl (NotMatured shortfall) \<Rightarrow> Some (DUST_NOT_MATURED_PREFIX @ show_word shortfall)
      | Inl _ \<Rightarrow> None)"

definition build_dust_registration_transaction ::
    "hexlib \<Rightarrow> ('nsk, 'vk, 'tok, 'hash, 'addr, 'sig, 'dpk, 'fr, 'ped, 'par, 'tx, 'st) reg_lib \<Rightarrow>
     bytes option \<Rightarrow> usize \<Rightarrow> cptr \<Rightarrow> cptr \<Rightarrow> u64 \<Rightarrow> i64 \<Rightarrow> cptr \<Rightarrow> cptr \<Rightarrow> cptr \<Rightarrow> cptr" where
  "build_dust_registration_transaction hx rg night_private_key_ptr night_private_key_len
       dust_public_key_hex allow_fee_payment_str ttl_millis current_time_millis utxos_json network_id
       params_hex = do {
     key_mem \<leftarrow> night_private_key_ptr;
     assertO (night_private_key_len = 32);
     dpk_c \<leftarrow> dust_public_key_hex; fee_c \<leftarrow> allow_fee_payment_str;
     utxos_c \<leftarrow> utxos_json; network_c \<leftarrow> network_id;
     let key_buf = take 32 key_mem;
     dust_pk_str \<leftarrow> cstr_to_str dpk_c;
     fee_str \<leftarrow> cstr_to_str fee_c;
     utxos_str \<leftarrow> cstr_to_str utxos_c;
     network_id_str \<leftarrow> cstr_to_str network_c;
     params_str \<leftarrow> (case params_hex of None \<Rightarrow> Some [] | Some p \<Rightarrow> cstr_to_str p);
     payload \<leftarrow> reg_payload (build_dust_registration_transaction_impl hx rg key_buf dust_pk_str ttl_millis
       current_time_millis utxos_str network_id_str params_str);
     cstring_new payload
   }"

subsection \<open>UTXOs that do not generate yet\<close>

definition not_generating ::
    "hexlib \<Rightarrow> ('nsk, 'vk, 'tok, 'hash, 'addr, 'sig, 'dpk, 'fr, 'ped, 'par, 'tx, 'st) reg_lib \<Rightarrow>
     bytes set \<Rightarrow> 'vk \<Rightarrow> json_dust_utxo \<Rightarrow> bool" where
  "not_generating hx rg generating dummy_owner u =
     (case Option.bind (hx_dec hx (jd_intent_hash u)) (rg_hash_deser rg) of
        None \<Rightarrow> False
      | Some intent_hash \<Rightarrow>
          rg_initial_nonce rg \<lparr>us_value = 0, us_owner = dummy_owner, us_type = rg_night rg,
            us_intent_hash = intent_hash, us_output_no = jd_output_no u\<rparr> \<notin> generating)"

definition dust_filter_unregistered_night ::
    "hexlib \<Rightarrow> ('nsk, 'vk, 'tok, 'hash, 'addr, 'sig, 'dpk, 'fr, 'ped, 'par, 'tx, 'st) reg_lib \<Rightarrow>
     'st option \<Rightarrow> cptr \<Rightarrow> cptr" where
  "dust_filter_unregistered_night hx rg dust_state_ptr night_utxos_json = do {
     state \<leftarrow> dust_state_ptr; json_c \<leftarrow> night_utxos_json;
     json_str \<leftarrow> cstr_to_str json_c;
     night_utxos \<leftarrow> rg_parse_utxos rg json_str;
     let generating = set (rg_backing_nights rg state);
     dummy_key \<leftarrow> rg_key_from_bytes rg (replicate 32 1);
     let unregistered = filter (not_generating hx rg generating (rg_verifying_key rg dummy_key)) night_utxos;
     let out = (case rg_print_utxos rg unregistered of Some t \<Rightarrow> t | None \<Rightarrow> ''[]'');
     cstring_new out
   }"

subsection \<open>Lemmas\<close>

text \<open>\<open>(sp, v, g)\<close> belongs to the first element whose dust no other exceeds.\<close>

definition dust_at_most :: "(json_dust_utxo \<Rightarrow> reg_error + ('spend \<times> u128 \<times> u128)) \<Rightarrow> u128 \<Rightarrow> json_dust_utxo \<Rightarrow> bool" where
  "dust_at_most f g x \<longleftrightarrow> (\<exists>s w d. f x = Inr (s, w, d) \<and> d \<le> g)"

definition dust_below :: "(json_dust_utxo \<Rightarrow> reg_error + ('spend \<times> u128 \<times> u128)) \<Rightarrow> u128 \<Rightarrow> json_dust_utxo \<Rightarrow> bool" where
  "dust_below f g x \<longleftrightarrow> (\<exists>s w d. f x = Inr (s, w, d) \<and> d < g)"

definition first_max ::
    "(json_dust_utxo \<Rightarrow> reg_error + ('spend \<times> u128 \<times> u128)) \<Rightarrow> json_dust_utxo list \<Rightarrow> 'spend \<times> u128 \<times> u128 \<Rightarrow> bool" where
  "first_max f us r \<longleftrightarrow> (\<exists>pre u post. us = pre @ u # post \<and> f u = Inr r \<and>
     list_all (dust_below f (snd (snd r))) pre \<and> list_all (dust_at_most f (snd (snd r))) post)"

lemma first_max_here:
  "f u = Inr r \<Longrightarrow> list_all (dust_at_most f (snd (snd r))) us \<Longrightarrow> first_max f (u # us) r"
  unfolding first_max_def by (intro exI [of _ "[]"] exI [of _ u] exI [of _ us]) simp

lemma first_max_later:
  assumes "dust_below f (snd (snd r)) u" and "first_max f us r"
  shows "first_max f (u # us) r"
proof -
  obtain pre w post where "us = pre @ w # post" "f w = Inr r"
    "list_all (dust_below f (snd (snd r))) pre" "list_all (dust_at_most f (snd (snd r))) post"
    using assms(2) by (auto simp: first_max_def)
  with assms(1) show ?thesis
    unfolding first_max_def by (intro exI [of _ "u # pre"] exI [of _ w] exI [of _ post]) simp
qed

lemma best_utxo_acc:
  assumes "best_utxo f us (Some (s0, v0, g0)) = Inr (Some (sp, v, g))"
  shows "((sp, v, g) = (s0, v0, g0) \<and> list_all (dust_at_most f g) us) \<or>
    (g0 < g \<and> first_max f us (sp, v, g))"
  using assms
proof (induction us arbitrary: s0 v0 g0)
  case (Cons u us)
  obtain s1 v1 g1 where f: "f u = Inr (s1, v1, g1)"
    using Cons.prems by (auto split: sum.splits)
  show ?case
  proof (cases "g0 < g1")
    case True
    with Cons.prems f have "best_utxo f us (Some (s1, v1, g1)) = Inr (Some (sp, v, g))" by simp
    from Cons.IH [OF this] show ?thesis
    proof
      assume "(sp, v, g) = (s1, v1, g1) \<and> list_all (dust_at_most f g) us"
      with True f have "g0 < g \<and> first_max f (u # us) (sp, v, g)" by (auto intro: first_max_here)
      then show ?thesis ..
    next
      assume "g1 < g \<and> first_max f us (sp, v, g)"
      with True f have "g0 < g \<and> first_max f (u # us) (sp, v, g)"
        by (auto simp: dust_below_def intro: first_max_later)
      then show ?thesis ..
    qed
  next
    case False
    with Cons.prems f have "best_utxo f us (Some (s0, v0, g0)) = Inr (Some (sp, v, g))" by simp
    from Cons.IH [OF this] show ?thesis
    proof
      assume "(sp, v, g) = (s0, v0, g0) \<and> list_all (dust_at_most f g) us"
      moreover have "dust_at_most f g0 u" using False f by (simp add: dust_at_most_def)
      ultimately show ?thesis by auto
    next
      assume "g0 < g \<and> first_max f us (sp, v, g)"
      with False f have "g0 < g \<and> first_max f (u # us) (sp, v, g)"
        by (auto simp: dust_below_def intro: first_max_later)
      then show ?thesis ..
    qed
  qed
qed simp

lemma best_utxo_first_max:
  assumes "best_utxo f us None = Inr (Some (sp, v, g))"
  shows "first_max f us (sp, v, g)"
proof (cases us)
  case (Cons u us')
  then obtain s1 v1 g1 where f: "f u = Inr (s1, v1, g1)" using assms by (auto split: sum.splits)
  with assms Cons have "best_utxo f us' (Some (s1, v1, g1)) = Inr (Some (sp, v, g))" by simp
  from best_utxo_acc [OF this] show ?thesis
    unfolding Cons
  proof
    assume "(sp, v, g) = (s1, v1, g1) \<and> list_all (dust_at_most f g) us'"
    with f show "first_max f (u # us') (sp, v, g)" by (intro first_max_here) auto
  next
    assume "g1 < g \<and> first_max f us' (sp, v, g)"
    with f show "first_max f (u # us') (sp, v, g)" by (intro first_max_later) (auto simp: dust_below_def)
  qed
qed (use assms in simp)

lemma unat_ucast_up: "unat (ucast (w :: u64) :: u128) = unat w"
proof -
  have "unat w < 2 ^ 128" using unat_bound [of w] by simp
  then show ?thesis by (simp add: unsigned_ucast_eq take_bit_nat_eq_self)
qed

lemma unat_min: "unat (min a b) = min (unat a) (unat b)" for a b :: "'a::len word"
  by (simp add: min_def word_le_nat_alt)

lemma unat_generated_dust:
  assumes "unat value * 5000000000 < 2 ^ 128"
  shows "unat (generated_dust now ct value) =
    min ((unat now - unat ct) * (unat value * 8267)) (unat value * 5000000000)"
proof -
  let ?M = "2 ^ 128 - 1 :: nat"
  have v: "unat (sat_mul value NIGHT_DUST_RATIO) = unat value * 5000000000"
    using assms by (simp add: unat_sat_mul NIGHT_DUST_RATIO_def)
  have r: "unat (sat_mul value GENERATION_DECAY_RATE) = unat value * 8267"
    using assms by (simp add: unat_sat_mul GENERATION_DECAY_RATE_def)
  have "unat (sat_mul (ucast (sat_sub now ct)) (sat_mul value GENERATION_DECAY_RATE)) =
      min ((unat now - unat ct) * (unat value * 8267)) ?M"
    by (simp only: unat_sat_mul [of "ucast (sat_sub now ct)"] r unat_ucast_up unat_sat_sub) simp
  then show ?thesis using assms by (simp add: generated_dust_def Let_def unat_min v)
qed

lemma prefix_not_hex: "set h \<subseteq> set hex_digits \<Longrightarrow> take 17 h \<noteq> DUST_NOT_MATURED_PREFIX"
proof
  assume h: "set h \<subseteq> set hex_digits" and t: "take 17 h = DUST_NOT_MATURED_PREFIX"
  have "CHR ''D'' \<in> set (take 17 h)" unfolding t by (simp add: DUST_NOT_MATURED_PREFIX_def)
  then have "CHR ''D'' \<in> set hex_digits" using h by (meson in_set_takeD subsetD)
  then show False by (simp add: hex_digits_def)
qed

lemma impl_ok:
  assumes "build_dust_registration_transaction_impl hx rg key dpkh ttl ct uj net ph = Inr h"
  shows "\<exists>sk dpk jus spend night allow bytes.
    rg_key_from_bytes rg key = Some sk \<and> rg_parse_utxos rg uj = Some jus \<and>
    best_utxo (night_spend hx rg (rg_verifying_key rg sk) (millis_to_secs ct)) jus None = Inr (Some (spend, night, allow)) \<and>
    maturity_gate hx rg ph (registration_tx rg sk dpk spend night allow (millis_to_secs ct) (ttl div 1000) net) allow = Inr () \<and>
    rg_ser_tuple rg (registration_tx rg sk dpk spend night allow (millis_to_secs ct) (ttl div 1000) net) = Some bytes \<and>
    h = hx_enc hx bytes"
  using assms by (clarsimp simp: build_dust_registration_transaction_impl_def resE Let_def) blast

subsection \<open>A concrete ledger\<close>

text \<open>Two NIGHT UTXOs of different age; the registration costs \<open>cost\<close>.\<close>

definition demo_night :: "json_dust_utxo list" where
  "demo_night = [\<lparr>jd_value = show_word (10::u128), jd_intent_hash = ''01'', jd_output_no = 0, jd_ctime = 90\<rparr>,
     \<lparr>jd_value = show_word (10::u128), jd_intent_hash = ''02'', jd_output_no = 1, jd_ctime = 50\<rparr>]"

definition demo_reg :: "u128 \<Rightarrow>
    (u8, u8, unit, u8, u8, u8, u8, u8, u8, unit, bytes, bytes list) reg_lib" where
  "demo_reg cost = \<lparr>rg_key_from_bytes = (\<lambda>b. Some (hd b)), rg_verifying_key = (\<lambda>k. k),
     rg_dpk_deser = (\<lambda>b. Some 0), rg_random_fr = 6, rg_pedersen = (\<lambda>r. r),
     rg_parse_utxos = (\<lambda>s. Some (filter (\<lambda>u. s = [] \<or> last (jd_intent_hash u) \<in> set s) demo_night)),
     rg_print_utxos = (\<lambda>us. Some (''['' @ map (\<lambda>u. last (jd_intent_hash u)) us @ '']'')), rg_address_of = (\<lambda>k. k), rg_night = (),
     rg_hash_deser = (\<lambda>b. Some (hd b)), rg_data_to_sign = (\<lambda>s i. []), rg_sign = (\<lambda>k d. k),
     rg_new_tx = (\<lambda>n is. [5]), rg_params_tagged = (\<lambda>b. Some ()), rg_params_raw = (\<lambda>b. None),
     rg_fees = (\<lambda>t p m. Some cost), rg_ser_tuple = Some, rg_backing_nights = (\<lambda>st. st),
     rg_initial_nonce = (\<lambda>s. [us_intent_hash s])\<rparr>"

lemma demo_hex: "hx_dec ref_hex ''01'' = Some [1]" "hx_dec ref_hex ''02'' = Some [2]" "hx_dec ref_hex ''00'' = Some [0]"
  by code_simp+

lemma demo_secs: "millis_to_secs 100000 = 100"
  by code_simp

lemma demo_generated: "generated_dust 100 90 10 = 826700" "generated_dust 100 50 10 = 4133500"
  by (simp_all add: generated_dust_def sat_mul_def sat_sub_def NIGHT_DUST_RATIO_def GENERATION_DECAY_RATE_def)

lemma demo_reg_simps [simp]:
  "rg_key_from_bytes (demo_reg c) k = Some (hd k)" "rg_dpk_deser (demo_reg c) b = Some 0"
  "rg_parse_utxos (demo_reg c) [] = Some demo_night" "rg_verifying_key (demo_reg c) v = v"
  "rg_hash_deser (demo_reg c) b = Some (hd b)" "rg_night (demo_reg c) = ()"
  "rg_ser_tuple (demo_reg c) t = Some t" "rg_new_tx (demo_reg c) n is = [5]"
  "rg_fees (demo_reg c) t p m = Some c" "rg_params_tagged (demo_reg c) b = Some ()"
  by (simp_all add: demo_reg_def)

lemma demo_best:
  "best_utxo (night_spend ref_hex (demo_reg cost) vk 100) demo_night None = Inr (Some
     (\<lparr>us_value = 10, us_owner = vk, us_type = (), us_intent_hash = 2, us_output_no = 1\<rparr>, 10, 4133500))"
  by (simp add: demo_night_def night_spend_def demo_hex demo_generated)

subsection \<open>Properties\<close>

text \<open>
  The dust a NIGHT UTXO is credited with is exactly the ledger's formula while the cap fits in
  128 bits: elapsed seconds (none if the clock is behind the UTXO) times value times 8267, capped at
  value times five billion; saturation never shows.
\<close>

theorem generated_dust_exact:
  assumes "unat value * 5000000000 < 2 ^ 128"
  shows "unat (generated_dust now ct value) =
    min ((unat now - unat ct) * (unat value * 8267)) (unat value * 5000000000)"
  by (rule unat_generated_dust [OF assms])

theorem generated_dust_exact_witness:
  "unat (generated_dust 100 40 (3::u128)) = min ((100 - 40) * (3 * 8267)) (3 * 5000000000)"
  using generated_dust_exact [of 3 100 40] by simp

text \<open>
  A registration spends one UTXO: the first of those with the most generated dust, each UTXO
  being credited with its own dust at the given time, and any UTXO that does not convert fails the
  whole call.
\<close>

theorem registration_picks_best:
  assumes "best_utxo (night_spend hx rg vk now) jus None = Inr (Some (spend, night, allow))"
  shows "\<exists>pre u post h. jus = pre @ u # post \<and> parse_u128 (jd_value u) = Some night \<and>
    allow = generated_dust now (jd_ctime u) night \<and>
    spend = \<lparr>us_value = night, us_owner = vk, us_type = rg_night rg, us_intent_hash = h,
             us_output_no = jd_output_no u\<rparr> \<and>
    (\<forall>x \<in> set pre. \<exists>w. parse_u128 (jd_value x) = Some w \<and> generated_dust now (jd_ctime x) w < allow) \<and>
    (\<forall>x \<in> set post. \<exists>w. parse_u128 (jd_value x) = Some w \<and> generated_dust now (jd_ctime x) w \<le> allow)"
proof -
  have ns: "night_spend hx rg vk now x = Inr (s, w, d) \<Longrightarrow> parse_u128 (jd_value x) = Some w \<and>
      d = generated_dust now (jd_ctime x) w \<and> (\<exists>h. s = \<lparr>us_value = w, us_owner = vk,
        us_type = rg_night rg, us_intent_hash = h, us_output_no = jd_output_no x\<rparr>)" for x s w d
    by (auto simp: night_spend_def resE)
  obtain pre u post where p: "jus = pre @ u # post" "night_spend hx rg vk now u = Inr (spend, night, allow)"
    "\<forall>x \<in> set pre. dust_below (night_spend hx rg vk now) allow x"
    "\<forall>x \<in> set post. dust_at_most (night_spend hx rg vk now) allow x"
    using best_utxo_first_max [OF assms] by (auto simp: first_max_def list_all_iff)
  have "\<forall>x \<in> set pre. \<exists>w. parse_u128 (jd_value x) = Some w \<and> generated_dust now (jd_ctime x) w < allow"
    using p(3) ns unfolding dust_below_def by blast
  moreover have "\<forall>x \<in> set post. \<exists>w. parse_u128 (jd_value x) = Some w \<and> generated_dust now (jd_ctime x) w \<le> allow"
    using p(4) ns unfolding dust_at_most_def by blast
  ultimately show ?thesis using p(1) ns [OF p(2)] by blast
qed

theorem registration_picks_best_witness:
  "\<exists>pre u post. demo_night = pre @ u # post \<and> parse_u128 (jd_value u) = Some 10 \<and>
     4133500 = generated_dust 100 (jd_ctime u) 10"
  using registration_picks_best [OF demo_best [of 0 0]] by blast

lemma demo_impl:
  "build_dust_registration_transaction_impl ref_hex (demo_reg cost) (replicate 32 1) ''00'' 0 100000 [] [] ''00''
     = (if 4133500 < cost then Inl (NotMatured (cost - 4133500)) else Inr (hx_enc ref_hex [5]))"
proof -
  have "demo_night \<noteq> []" by (simp add: demo_night_def)
  moreover have "registration_tx (demo_reg cost) sk dpk spend night allow ct ttl net = [5]"
    for sk dpk spend night allow ct ttl net by (simp add: registration_tx_def)
  moreover have "maturity_gate ref_hex (demo_reg cost) ''00'' tx 4133500 =
      (if 4133500 < cost then Inl (NotMatured (cost - 4133500)) else Inr ())" for tx
    by (simp add: maturity_gate_def demo_hex reg_params_def)
  ultimately show ?thesis
    by (simp add: build_dust_registration_transaction_impl_def demo_hex demo_secs demo_best)
qed

text \<open>
  C29. With ledger parameters, a registration transaction is only emitted when the dust it allows,
  what the best UTXO has generated by now, covers the fee those parameters give for that very
  transaction.
\<close>

theorem registration_covers_fee:
  assumes "build_dust_registration_transaction_impl hx rg key dpkh ttl ct uj net ph = Inr h" and "ph \<noteq> []"
  shows "\<exists>sk dpk jus spend night allow par fee bytes.
    rg_key_from_bytes rg key = Some sk \<and> rg_parse_utxos rg uj = Some jus \<and>
    best_utxo (night_spend hx rg (rg_verifying_key rg sk) (millis_to_secs ct)) jus None = Inr (Some (spend, night, allow)) \<and>
    Option.bind (hx_dec hx ph) (\<lambda>pb. res_ok (reg_params rg pb)) = Some par \<and>
    rg_ser_tuple rg (registration_tx rg sk dpk spend night allow (millis_to_secs ct) (ttl div 1000) net) = Some bytes \<and>
    h = hx_enc hx bytes \<and>
    rg_fees rg (registration_tx rg sk dpk spend night allow (millis_to_secs ct) (ttl div 1000) net) par
      DUST_REGISTRATION_FEE_BLOCKS_MARGIN = Some fee \<and> fee \<le> allow"
proof -
  obtain sk dpk jus spend night allow bytes where i:
    "rg_key_from_bytes rg key = Some sk" "rg_parse_utxos rg uj = Some jus"
    "best_utxo (night_spend hx rg (rg_verifying_key rg sk) (millis_to_secs ct)) jus None = Inr (Some (spend, night, allow))"
    "rg_ser_tuple rg (registration_tx rg sk dpk spend night allow (millis_to_secs ct) (ttl div 1000) net) = Some bytes"
    "h = hx_enc hx bytes"
    and gate: "maturity_gate hx rg ph (registration_tx rg sk dpk spend night allow (millis_to_secs ct) (ttl div 1000) net) allow = Inr ()"
    using impl_ok [OF assms(1)] by blast
  obtain par fee where
    "Option.bind (hx_dec hx ph) (\<lambda>pb. res_ok (reg_params rg pb)) = Some par"
    "rg_fees rg (registration_tx rg sk dpk spend night allow (millis_to_secs ct) (ttl div 1000) net) par
      DUST_REGISTRATION_FEE_BLOCKS_MARGIN = Some fee" "\<not> allow < fee"
    using gate assms(2) by (auto simp: maturity_gate_def resE split: if_splits)
  then show ?thesis using i leI by blast
qed

theorem registration_covers_fee_witness:
  "\<exists>fee bytes (allow::u128). hx_enc ref_hex [5] = hx_enc ref_hex bytes \<and> fee \<le> allow"
proof -
  have "build_dust_registration_transaction_impl ref_hex (demo_reg 1000) (replicate 32 1) ''00'' 0 100000 [] [] ''00''
     = Inr (hx_enc ref_hex [5])" by (simp add: demo_impl)
  from registration_covers_fee [OF this] show ?thesis by blast
qed

text \<open>
  The caller can tell the sentinel from a transaction: a non-null answer begins with
  \<open>DUST_NOT_MATURED:\<close> exactly when the coin has not matured, and then the rest reads back as the
  shortfall.
\<close>

theorem sentinel_unambiguous:
  assumes "hex_ok hx"
    and "reg_payload (build_dust_registration_transaction_impl hx rg key dpkh ttl ct uj net ph) = Some p"
  shows "take 17 p = DUST_NOT_MATURED_PREFIX \<longleftrightarrow>
    (\<exists>s. build_dust_registration_transaction_impl hx rg key dpkh ttl ct uj net ph = Inl (NotMatured s) \<and>
         parse_u128 (drop 17 p) = Some s)"
proof (cases "build_dust_registration_transaction_impl hx rg key dpkh ttl ct uj net ph")
  case (Inl e)
  then obtain s where "e = NotMatured s" using assms(2) by (cases e) (auto simp: reg_payload_def)
  then show ?thesis using Inl assms(2) by (auto simp: reg_payload_def DUST_NOT_MATURED_PREFIX_def)
next
  case (Inr h)
  then have "p = h" using assms(2) by (simp add: reg_payload_def)
  moreover have "set h \<subseteq> set hex_digits"
    using impl_ok [OF Inr] hex_enc_set [OF assms(1)] by blast
  ultimately show ?thesis using Inr prefix_not_hex by auto
qed

theorem sentinel_unambiguous_witness:
  "parse_u128 (drop 17 (DUST_NOT_MATURED_PREFIX @ show_word (500::u128))) = Some 500"
proof -
  have i: "build_dust_registration_transaction_impl ref_hex (demo_reg 4134000) (replicate 32 1) ''00'' 0 100000 [] [] ''00''
     = Inl (NotMatured 500)" by (simp add: demo_impl)
  then have p: "reg_payload (build_dust_registration_transaction_impl ref_hex (demo_reg 4134000) (replicate 32 1)
      ''00'' 0 100000 [] [] ''00'') = Some (DUST_NOT_MATURED_PREFIX @ show_word (500::u128))"
    by (simp add: reg_payload_def)
  have "take 17 (DUST_NOT_MATURED_PREFIX @ show_word (500::u128)) = DUST_NOT_MATURED_PREFIX"
    by (simp add: DUST_NOT_MATURED_PREFIX_def)
  with sentinel_unambiguous [OF ref_hex_ok p] i show ?thesis by simp
qed

text \<open>
  Filtering is stable: what \<open>dust_filter_unregistered_night\<close> keeps, it keeps again, so asking
  about its own answer on the same wallet returns that answer.
\<close>

theorem filter_idempotent:
  assumes "dust_filter_unregistered_night hx rg (Some st) (Some txt) = Some out"
    and "cstr_to_str txt = Some s0" and "rg_parse_utxos rg s0 = Some us"
    and "\<And>P. \<exists>t. rg_print_utxos rg (filter P us) = Some t \<and> rg_parse_utxos rg t = Some (filter P us) \<and>
      cstr_to_str t = Some t"
  shows "dust_filter_unregistered_night hx rg (Some st) (Some out) = Some out"
proof -
  obtain k where u: "rg_key_from_bytes rg (replicate 32 1) = Some k"
    "cstring_new (case rg_print_utxos rg (filter (not_generating hx rg (set (rg_backing_nights rg st))
        (rg_verifying_key rg k)) us) of Some t \<Rightarrow> t | None \<Rightarrow> ''[]'') = Some out"
    using assms(1-3) by (auto simp: dust_filter_unregistered_night_def bind_eq_Some_conv Let_def)
  let ?f = "filter (not_generating hx rg (set (rg_backing_nights rg st)) (rg_verifying_key rg k)) us"
  obtain t where t: "rg_print_utxos rg ?f = Some t" "rg_parse_utxos rg t = Some ?f" "cstr_to_str t = Some t"
    using assms(4) by blast
  then have "out = t" "cstring_new t = Some t" using u(2) by (simp_all add: cstring_new_eq_Some)
  then show ?thesis using t u(1) by (simp add: dust_filter_unregistered_night_def Let_def)
qed

theorem filter_idempotent_witness:
  "dust_filter_unregistered_night ref_hex (demo_reg 0) (Some [[1]]) (Some ''[2]'') = Some ''[2]''"
proof (rule filter_idempotent)
  show "dust_filter_unregistered_night ref_hex (demo_reg 0) (Some [[1]]) (Some []) = Some ''[2]''"
    by code_simp
  show "cstr_to_str [] = Some []" by code_simp
  show "rg_parse_utxos (demo_reg 0) [] = Some demo_night" by simp
  fix P
  have "cstr_to_str ''[12]'' = Some ''[12]''" "cstr_to_str ''[1]'' = Some ''[1]''"
    "cstr_to_str ''[2]'' = Some ''[2]''" "cstr_to_str ''[]'' = Some ''[]''" by code_simp+
  then show "\<exists>t. rg_print_utxos (demo_reg 0) (filter P demo_night) = Some t \<and>
      rg_parse_utxos (demo_reg 0) t = Some (filter P demo_night) \<and> cstr_to_str t = Some t"
    by (simp add: demo_reg_def demo_night_def)
qed

end
