(* ===== verification/FeeCalc.thy ===== *)
theory FeeCalc
  imports TagPrefix LedgerTypes
begin

text \<open>
  \<open>fee_ffi.rs\<close>: \<open>calculate_transaction_fee\<close>. The ledger's deserialisers and
  \<open>fees_with_margin\<close> are parameters. A null result (any failure) is \<open>None\<close>.
\<close>

record ('tx, 'par) fee_lib =
  fl_deser_tx :: "bytes \<Rightarrow> 'tx option"
  fl_deser_params :: "bytes \<Rightarrow> 'par option"
  fl_fees_with_margin :: "'tx \<Rightarrow> 'par \<Rightarrow> usize \<Rightarrow> u128 option"

definition FEE_OVERHEAD_PERCENT :: u128 where
  "FEE_OVERHEAD_PERCENT = 1"

definition calculate_transaction_fee ::
    "hexlib \<Rightarrow> ('tx, 'par) fee_lib \<Rightarrow> cptr \<Rightarrow> cptr \<Rightarrow> u32 \<Rightarrow> cptr" where
  "calculate_transaction_fee hx lib tx_hex params_hex fee_blocks_margin = do {
     tx_c \<leftarrow> tx_hex;
     params_c \<leftarrow> params_hex;
     tx_hex_str \<leftarrow> cstr_to_str tx_c;
     params_hex_str \<leftarrow> cstr_to_str params_c;
     tx_bytes0 \<leftarrow> hx_dec hx tx_hex_str;
     params_bytes0 \<leftarrow> hx_dec hx params_hex_str;
     let tx_bytes = fee_strip_tag_prefix tx_bytes0;
     let params_bytes = fee_strip_tag_prefix params_bytes0;
     transaction \<leftarrow> fl_deser_tx lib tx_bytes;
     params \<leftarrow> fl_deser_params lib params_bytes;
     base_fee \<leftarrow> fl_fees_with_margin lib transaction params (ucast fee_blocks_margin);
     let overhead = base_fee * FEE_OVERHEAD_PERCENT div 100;
     let total_fee = base_fee + overhead;
     cstring_new (show_word total_fee)
   }"

text \<open>The 1% overhead as arithmetic on numbers: exact while it fits, wrapping above.\<close>

definition fee_with_overhead :: "u128 \<Rightarrow> u128" where
  "fee_with_overhead b = b + b * FEE_OVERHEAD_PERCENT div 100"

lemma unat_div_100: "unat (b div 100 :: u128) = unat b div 100"
  by (simp add: unat_div)

lemma unat_fee_with_overhead:
  assumes "unat b + unat b div 100 < 2 ^ 128"
  shows "unat (fee_with_overhead b) = unat b + unat b div 100"
proof -
  have "unat b + unat (b div 100) < 2 ^ 128" using assms by (simp only: unat_div_100)
  then have "unat (b + b div 100) = unat b + unat (b div 100)"
    by (simp add: unat_add_lem [THEN iffD1])
  then show ?thesis by (simp add: fee_with_overhead_def FEE_OVERHEAD_PERCENT_def unat_div_100)
qed

text \<open>The fee string of a call whose inputs decode.\<close>

lemma calculate_transaction_fee_decoded:
  assumes "cstr_to_str txc = Some txs" and "cstr_to_str pc = Some ps"
    and "hx_dec hx txs = Some tb" and "hx_dec hx ps = Some pb"
    and "fl_deser_tx lib (fee_strip_tag_prefix tb) = Some tx"
    and "fl_deser_params lib (fee_strip_tag_prefix pb) = Some par"
  shows "calculate_transaction_fee hx lib (Some txc) (Some pc) m =
    map_option (\<lambda>b. show_word (fee_with_overhead b)) (fl_fees_with_margin lib tx par (ucast m))"
  using assms
  by (cases "fl_fees_with_margin lib tx par (ucast m)")
    (simp_all add: calculate_transaction_fee_def fee_with_overhead_def Let_def)

subsection \<open>Properties\<close>

text \<open>
  When both inputs decode and the ledger reports a base fee that leaves room for the 1%
  overhead in \<open>u128\<close>, the call returns the decimal string of exactly
  \<open>base + base div 100\<close>.
\<close>

theorem fee_overhead_exact:
  assumes "hex_ok hx"
    and "fl_deser_tx lib (fee_strip_tag_prefix tb) = Some tx"
    and "fl_deser_params lib (fee_strip_tag_prefix pb) = Some par"
    and "fl_fees_with_margin lib tx par (ucast m) = Some base"
    and "unat base + unat base div 100 < 2 ^ 128"
  shows "calculate_transaction_fee hx lib (Some (hx_enc hx tb)) (Some (hx_enc hx pb)) m =
    Some (show_nat (unat base + unat base div 100))"
  using calculate_transaction_fee_decoded [OF cstr_to_str_ascii cstr_to_str_ascii
      hex_dec_enc hex_dec_enc, of hx tb pb lib tx par m] assms
  by (simp add: hex_enc_plain show_word_def unat_fee_with_overhead)

definition demo_fee_lib :: "(bytes, bytes) fee_lib" where
  "demo_fee_lib = \<lparr>fl_deser_tx = Some, fl_deser_params = Some,
     fl_fees_with_margin = (\<lambda>tx par m. Some (1000 * of_nat (length tx)))\<rparr>"

theorem fee_overhead_exact_witness:
  "calculate_transaction_fee ref_hex demo_fee_lib (Some (hx_enc ref_hex [7, 8]))
     (Some (hx_enc ref_hex [9])) 5 = Some ''2020''"
proof -
  have "calculate_transaction_fee ref_hex demo_fee_lib (Some (hx_enc ref_hex [7, 8]))
      (Some (hx_enc ref_hex [9])) 5 = Some (show_nat (unat (2000::u128) + unat (2000::u128) div 100))"
    by (rule fee_overhead_exact [where tx = "[7, 8]" and par = "[9]"])
      (simp_all add: ref_hex_ok demo_fee_lib_def fee_strip_eq strip_spec_def tagged_def tag_magic_def ascii_def)
  also have "show_nat (unat (2000::u128) + unat (2000::u128) div 100) = ''2020''"
    by code_simp
  finally show ?thesis .
qed

text \<open>
  The estimate does not depend on whether the caller passes tagged or raw bytes: the tagged
  form of untagged transaction bytes gives the same result as the bytes alone.
\<close>

theorem fee_tag_insensitive:
  assumes "hex_ok hx" and "\<not> tagged data" and "colon \<notin> set tag" and "t = rparen \<or> t = rbrack"
  shows "calculate_transaction_fee hx lib (Some (hx_enc hx (tag_magic @ tag @ [t, colon] @ data))) p m
       = calculate_transaction_fee hx lib (Some (hx_enc hx data)) p m"
  using assms
  by (simp add: calculate_transaction_fee_def cstr_to_str_ascii hex_enc_plain hex_dec_enc
      fee_strip.strip_exact [OF assms(3,4), simplified] fee_strip.strip_plain)

theorem fee_tag_insensitive_witness:
  "calculate_transaction_fee ref_hex demo_fee_lib
     (Some (hx_enc ref_hex (tag_magic @ ascii ''transaction[v6](x'' @ [rparen, colon] @ [4, 5])))
     (Some ''00'') 5
   = calculate_transaction_fee ref_hex demo_fee_lib (Some (hx_enc ref_hex [4, 5])) (Some ''00'') 5"
  by (rule fee_tag_insensitive)
    (simp_all add: ref_hex_ok tagged_def tag_magic_def ascii_def colon_def)

end
