(* ===== verification/Replay.thy ===== *)
theory Replay
  imports LedgerTypes
begin

text \<open>
  Replaying blockchain events into a wallet: the in-memory and file entry points of
  \<open>dust_ffi.rs\<close> and \<open>zswap_ffi.rs\<close>. The ledger's event decoders and its replay are
  parameters; reading lines, splitting, chunking and streaming are translated. Both file paths
  replay in chunks of 500; a locale states what a chunked replay is worth.
\<close>

subsection \<open>The ledger and the file system\<close>

record ('st, 'sk, 'ev) replay_lib =
  rl_derive :: "bytes \<Rightarrow> 'sk"
  rl_tagged :: "bytes \<Rightarrow> 'ev option"
  rl_raw :: "bytes \<Rightarrow> 'ev option"
  rl_replay :: "'st \<Rightarrow> 'sk \<Rightarrow> 'ev list \<Rightarrow> 'st option"
  rl_replay_with_changes :: "'st \<Rightarrow> 'sk \<Rightarrow> 'ev list \<Rightarrow> 'st option"
  rl_android :: bool
  rl_open :: "string \<Rightarrow> (string \<times> bool) option"
    \<comment> \<open>the bytes that can be read, and whether a read error follows them\<close>

text \<open>
  \<open>BufRead::lines\<close>: a line ends at a newline, which is dropped with one carriage return before
  it; an unterminated last line counts unless the reader fails first; a line that is not UTF-8 is
  an error.
\<close>

definition strip_cr :: "string \<Rightarrow> string" where
  "strip_cr l = (if l \<noteq> [] \<and> last l = CHR 0x0D then butlast l else l)"

definition line_result :: "string \<Rightarrow> unit + string" where
  "line_result l = (case cstr_to_str l of None \<Rightarrow> Inl () | Some s \<Rightarrow> Inr s)"

definition read_lines :: "string \<Rightarrow> bool \<Rightarrow> (unit + string) list" where
  "read_lines content fails =
     (let ps = str_split [CHR 0x0A] content in
      map (\<lambda>l. line_result (strip_cr l)) (butlast ps) @
      (if fails then [Inl ()] else if last ps = [] then [] else [line_result (last ps)]))"

subsection \<open>Dust: replay from memory\<close>

definition TAG_PREFIX_HEX :: string where
  "TAG_PREFIX_HEX = ''6d69646e696768743a6576656e745b76''"

definition dust_decode_event :: "hexlib \<Rightarrow> ('st, 'sk, 'ev) replay_lib \<Rightarrow> string \<Rightarrow> 'ev option" where
  "dust_decode_event hx rl event_hex_suffix = do {
     event_bytes \<leftarrow> hx_dec hx (TAG_PREFIX_HEX @ event_hex_suffix);
     rl_tagged rl event_bytes
   }"

definition dust_replay_events ::
    "hexlib \<Rightarrow> ('st, 'sk, 'ev) replay_lib \<Rightarrow> 'st option \<Rightarrow> bytes option \<Rightarrow> usize \<Rightarrow> cptr \<Rightarrow> 'st option" where
  "dust_replay_events hx rl state_ptr seed_ptr seed_len events_hex = do {
     state \<leftarrow> state_ptr; seed_mem \<leftarrow> seed_ptr;
     assertO (seed_len = 32);
     events_c \<leftarrow> events_hex;
     let sk = rl_derive rl (slice_from seed_mem seed_len);
     events_hex_str \<leftarrow> cstr_to_str events_c;
     let event_hex_strings = filter (\<lambda>s. s \<noteq> []) (str_split TAG_PREFIX_HEX events_hex_str);
     events \<leftarrow> mapO (dust_decode_event hx rl) event_hex_strings;
     rl_replay rl state sk events
   }"

subsection \<open>Dust: replay from a file\<close>

text \<open>
  Slicing \<open>line[..100]\<close> panics off a character boundary; on Android the log macro unwraps a
  \<open>CString::new\<close>, which a NUL in the preview fails.
\<close>

definition preview_panics :: "('st, 'sk, 'ev) replay_lib \<Rightarrow> string \<Rightarrow> bool" where
  "preview_panics rl line \<longleftrightarrow>
     \<not> is_char_boundary line (min (length line) 100) \<or>
     (rl_android rl \<and> CHR 0x00 \<in> set (take 100 line))"

definition CHUNK_SIZE :: nat where "CHUNK_SIZE = 500"

text \<open>The loop's state: the wallet, the chunk being filled, and whether a line was logged.\<close>

fun dust_stream ::
    "hexlib \<Rightarrow> ('st, 'sk, 'ev) replay_lib \<Rightarrow> 'sk \<Rightarrow> (unit + string) list \<Rightarrow> 'st \<times> 'ev list \<times> bool \<Rightarrow>
     ('st \<times> 'ev list) option outcome" where
  "dust_stream hx rl sk [] (state, chunk, logged_first) = Ret (Some (state, chunk))"
| "dust_stream hx rl sk (Inl e # ls) (state, chunk, logged_first) = Ret None"
| "dust_stream hx rl sk (Inr line # ls) (state, chunk, logged_first) =
     (if line = [] then dust_stream hx rl sk ls (state, chunk, logged_first)
      else if \<not> logged_first \<and> preview_panics rl line then Panics
      else case hx_dec hx line of
        None \<Rightarrow> Ret None
      | Some event_bytes \<Rightarrow>
          (case rl_tagged rl event_bytes of
             None \<Rightarrow> Ret None
           | Some event \<Rightarrow>
               (let chunk' = chunk @ [event] in
                if length chunk' = CHUNK_SIZE then
                  (case rl_replay_with_changes rl state sk chunk' of
                     None \<Rightarrow> Ret None
                   | Some wc \<Rightarrow> dust_stream hx rl sk ls (wc, [], True))
                else dust_stream hx rl sk ls (state, chunk', True))))"

definition dust_finish ::
    "('st, 'sk, 'ev) replay_lib \<Rightarrow> 'sk \<Rightarrow> ('st \<times> 'ev list) option outcome \<Rightarrow> 'st option outcome" where
  "dust_finish rl sk r =
     (case r of Panics \<Rightarrow> Panics | Ret None \<Rightarrow> Ret None
      | Ret (Some (state, chunk)) \<Rightarrow>
          if chunk \<noteq> [] then Ret (rl_replay_with_changes rl state sk chunk) else Ret (Some state))"

definition dust_replay_events_from_file ::
    "hexlib \<Rightarrow> ('st, 'sk, 'ev) replay_lib \<Rightarrow> 'st option \<Rightarrow> bytes option \<Rightarrow> usize \<Rightarrow> cptr \<Rightarrow>
     'st option outcome" where
  "dust_replay_events_from_file hx rl state_ptr seed_ptr seed_len file_path =
     (case do {
        state \<leftarrow> state_ptr; seed_mem \<leftarrow> seed_ptr; path_c \<leftarrow> file_path;
        assertO (seed_len = 32);
        path_str \<leftarrow> cstr_to_str path_c;
        file \<leftarrow> rl_open rl path_str;
        Some (state, rl_derive rl (slice_from seed_mem seed_len), file)
      } of
        None \<Rightarrow> Ret None
      | Some (state, sk, content, fails) \<Rightarrow>
          dust_finish rl sk (dust_stream hx rl sk (read_lines content fails) (state, [], False)))"

subsection \<open>Zswap: replay from memory and from a file\<close>

definition EVENT_PREFIX :: string where
  "EVENT_PREFIX = ''6d69646e696768743a6576656e745b76395d3a''"

definition zswap_replay_events ::
    "hexlib \<Rightarrow> ('st, 'sk, 'ev) replay_lib \<Rightarrow> 'st option \<Rightarrow> bytes option \<Rightarrow> usize \<Rightarrow> cptr \<Rightarrow> 'st option" where
  "zswap_replay_events hx rl state_ptr seed_ptr seed_len events_hex = do {
     state \<leftarrow> state_ptr; seed_mem \<leftarrow> seed_ptr; events_c \<leftarrow> events_hex;
     assertO (seed_len = 32);
     let secret_keys = rl_derive rl (slice_from seed_mem seed_len);
     events_hex_str \<leftarrow> cstr_to_str events_c;
     if events_hex_str = [] then Some state
     else do {
       let event_hex_strings = filter (\<lambda>s. s \<noteq> []) (str_split EVENT_PREFIX events_hex_str);
       events \<leftarrow> mapO (\<lambda>event_hex. do { event_bytes \<leftarrow> hx_dec hx event_hex; rl_raw rl event_bytes })
                   event_hex_strings;
       rl_replay rl state secret_keys events
     }
   }"

text \<open>\<open>slice::chunks(n)\<close> for a positive \<open>n\<close>.\<close>

function chunks :: "nat \<Rightarrow> 'a list \<Rightarrow> 'a list list" where
  "chunks n xs = (if n = 0 \<or> xs = [] then [] else take n xs # chunks n (drop n xs))"
  by pat_completeness auto
termination
  by (relation "measure (\<lambda>(n, xs). length xs)") auto

declare chunks.simps [simp del]

definition replay_zswap_events_chunked ::
    "('st, 'sk, 'ev) replay_lib \<Rightarrow> 'st \<Rightarrow> 'sk \<Rightarrow> 'ev list \<Rightarrow> nat \<Rightarrow> 'st option" where
  "replay_zswap_events_chunked rl base keys events chunk_size =
     foldO (\<lambda>state chunk. rl_replay rl state keys chunk) base (chunks (max chunk_size 1) events)"

fun zswap_parse_lines ::
    "hexlib \<Rightarrow> ('st, 'sk, 'ev) replay_lib \<Rightarrow> (unit + string) list \<Rightarrow> 'ev list \<Rightarrow> 'ev list option" where
  "zswap_parse_lines hx rl [] events = Some events"
| "zswap_parse_lines hx rl (Inl e # ls) events = None"
| "zswap_parse_lines hx rl (Inr line # ls) events =
     (let trimmed = str_trim line in
      if trimmed = [] then zswap_parse_lines hx rl ls events
      else case hx_dec hx trimmed of
        None \<Rightarrow> None
      | Some event_bytes \<Rightarrow>
          (case rl_tagged rl event_bytes of
             None \<Rightarrow> None
           | Some event \<Rightarrow> zswap_parse_lines hx rl ls (events @ [event])))"

definition zswap_replay_events_from_file ::
    "hexlib \<Rightarrow> ('st, 'sk, 'ev) replay_lib \<Rightarrow> 'st option \<Rightarrow> bytes option \<Rightarrow> usize \<Rightarrow> cptr \<Rightarrow> 'st option" where
  "zswap_replay_events_from_file hx rl state_ptr seed_ptr seed_len file_path = do {
     state \<leftarrow> state_ptr; seed_mem \<leftarrow> seed_ptr; path_c \<leftarrow> file_path;
     assertO (seed_len = 32);
     let secret_keys = rl_derive rl (slice_from seed_mem seed_len);
     path_str \<leftarrow> cstr_to_str path_c;
     (content, fails) \<leftarrow> rl_open rl path_str;
     events \<leftarrow> zswap_parse_lines hx rl (read_lines content fails) [];
     replay_zswap_events_chunked rl state secret_keys events CHUNK_SIZE
   }"

subsection \<open>Chunks\<close>

lemma chunks_Nil [simp]: "chunks n [] = []"
  by (simp add: chunks.simps)

lemma chunks_short: "xs \<noteq> [] \<Longrightarrow> length xs \<le> n \<Longrightarrow> chunks n xs = [xs]"
  by (cases "n = 0", simp, subst chunks.simps) simp

lemma chunks_full: "0 < n \<Longrightarrow> length xs = n \<Longrightarrow> chunks n (xs @ ys) = xs # chunks n ys"
  by (subst chunks.simps) auto

lemma concat_chunks: "0 < n \<Longrightarrow> concat (chunks n xs) = xs"
  by (induction n xs rule: chunks.induct) (subst chunks.simps, simp)

lemma chunks_nonempty: "c \<in> set (chunks n xs) \<Longrightarrow> c \<noteq> []"
proof (induction n xs rule: chunks.induct)
  case (1 n xs)
  then show ?case by (subst (asm) (2) chunks.simps) (auto split: if_splits)
qed

lemma length_chunks: "0 < n \<Longrightarrow> length (chunks n xs) = (length xs + n - 1) div n"
proof (induction n xs rule: chunks.induct)
  case (1 n xs)
  show ?case
  proof (cases "xs = []")
    case True
    then show ?thesis using 1(2) by (simp add: chunks.simps)
  next
    case False
    with 1 have rounds: "length (chunks n xs) = Suc ((length xs - n + n - 1) div n)"
      by (subst chunks.simps) simp
    have eq: "length xs + n - 1 = (length xs - 1) + n" using False by (cases xs) simp_all
    have step: "(length xs + n - 1) div n = Suc ((length xs - 1) div n)"
      unfolding eq using 1(2) by (subst div_add_self2) simp_all
    show ?thesis
    proof (cases "n \<le> length xs")
      case False
      then have "length xs - 1 < n" by simp
      then show ?thesis unfolding rounds step using False 1(2) by simp
    qed (unfold rounds step, simp)
  qed
qed

lemma chunks_sizes: "list_all (\<lambda>c. 0 < length c \<and> length c \<le> n) (chunks n xs)"
  by (induction n xs rule: chunks.induct) (subst chunks.simps, simp)

lemma chunks_append:
  assumes "0 < n" and "n dvd length xs"
  shows "chunks n (xs @ ys) = chunks n xs @ chunks n ys"
  using assms
proof (induction n xs rule: chunks.induct)
  case (1 n xs)
  show ?case
  proof (cases "xs = []")
    case False
    with 1 have len: "n \<le> length xs" by (simp add: dvd_imp_le)
    have IH: "chunks n (drop n xs @ ys) = chunks n (drop n xs) @ chunks n ys"
      using 1 False by (simp add: dvd_diff_nat)
    have "chunks n (xs @ ys) = take n xs # chunks n (drop n xs @ ys)"
      using chunks_full [of n "take n xs" "drop n xs @ ys"] len 1(2)
      by (metis append.assoc append_take_drop_id length_take min.absorb2)
    with IH show ?thesis using False 1(2) by (subst (2) chunks.simps) simp
  qed simp
qed

subsection \<open>The contract of a chunked replay\<close>

locale chunked_replay =
  fixes rp :: "'st \<Rightarrow> 'ev list \<Rightarrow> 'st option"
    and run :: "'st \<Rightarrow> 'ev list \<Rightarrow> 'st option"
    and n :: nat
  assumes n_pos: "0 < n"
    and run_Nil: "run st [] = Some st"
    and run_last: "xs \<noteq> [] \<Longrightarrow> length xs < n \<Longrightarrow> run st xs = rp st xs"
    and run_full: "length xs = n \<Longrightarrow>
      run st (xs @ ys) = (case rp st xs of None \<Rightarrow> None | Some st' \<Rightarrow> run st' ys)"
begin

lemma run_eq_chunks: "run st evs = foldO rp st (chunks n evs)"
proof (induction evs arbitrary: st rule: length_induct)
  case (1 xs)
  show ?case
  proof (cases "xs = [] \<or> length xs < n")
    case True
    then show ?thesis
      by (cases "xs = []") (auto simp: run_Nil run_last chunks_short split: option.splits)
  next
    case False
    then have len: "length (take n xs) = n" and sh: "length (drop n xs) < length xs"
      using n_pos by auto
    have r: "run st xs = (case rp st (take n xs) of None \<Rightarrow> None | Some st' \<Rightarrow> run st' (drop n xs))"
      using run_full [OF len, of st "drop n xs"] by simp
    have c: "chunks n xs = take n xs # chunks n (drop n xs)"
      using chunks_full [OF n_pos len, of "drop n xs"] by simp
    show ?thesis using 1 sh by (simp add: r c split: option.split)
  qed
qed

text \<open>A checkpoint at a chunk boundary changes nothing: replay the prefix, then the rest.\<close>

lemma run_checkpoint:
  assumes "n dvd length xs"
  shows "run st (xs @ ys) = (case run st xs of None \<Rightarrow> None | Some st' \<Rightarrow> run st' ys)"
  by (simp add: run_eq_chunks chunks_append [OF n_pos assms] foldO_append split: option.split)

text \<open>With a ledger whose replay composes, chunking is invisible.\<close>

lemma run_one_shot:
  assumes nil: "\<And>st. rp st [] = Some st"
    and app: "\<And>st xs ys. rp st (xs @ ys) = (case rp st xs of None \<Rightarrow> None | Some st' \<Rightarrow> rp st' ys)"
  shows "run st evs = rp st evs"
proof -
  have "foldO rp st cs = rp st (concat cs)" for cs
    by (induction cs arbitrary: st) (auto simp: nil app split: option.splits)
  then show ?thesis by (simp add: run_eq_chunks concat_chunks [OF n_pos])
qed

text \<open>What every single replay keeps, the chunked one keeps.\<close>

lemma run_invariant:
  assumes "\<And>st c st'. P st \<Longrightarrow> rp st c = Some st' \<Longrightarrow> P st'" and "P st" and "run st evs = Some st'"
  shows "P st'"
proof -
  have "foldO rp st cs = Some st' \<Longrightarrow> P st \<Longrightarrow> P st'" for cs
    using assms(1) by (induction cs arbitrary: st) (auto split: option.splits)
  then show ?thesis using assms(2,3) by (simp add: run_eq_chunks)
qed

end

interpretation zswap_chunks: chunked_replay
    "\<lambda>st evs. rl_replay rl st sk evs"
    "\<lambda>st evs. replay_zswap_events_chunked rl st sk evs CHUNK_SIZE" CHUNK_SIZE
  for rl sk
  by unfold_locales
    (auto simp: replay_zswap_events_chunked_def CHUNK_SIZE_def chunks_short chunks_full split: option.splits)

subsection \<open>The dust stream is a chunked replay\<close>

text \<open>What the stream reads off its lines, and the whole stream over already decoded events.\<close>

fun dust_events :: "hexlib \<Rightarrow> ('st, 'sk, 'ev) replay_lib \<Rightarrow> (unit + string) list \<Rightarrow> 'ev list option" where
  "dust_events hx rl [] = Some []"
| "dust_events hx rl (Inl e # ls) = None"
| "dust_events hx rl (Inr line # ls) =
     (if line = [] then dust_events hx rl ls
      else do { b \<leftarrow> hx_dec hx line; ev \<leftarrow> rl_tagged rl b; evs \<leftarrow> dust_events hx rl ls; Some (ev # evs) })"

fun dust_fill ::
    "('st, 'sk, 'ev) replay_lib \<Rightarrow> 'sk \<Rightarrow> 'st \<Rightarrow> 'ev list \<Rightarrow> 'ev list \<Rightarrow> 'st option" where
  "dust_fill rl sk st chunk [] = (if chunk = [] then Some st else rl_replay_with_changes rl st sk chunk)"
| "dust_fill rl sk st chunk (ev # evs) =
     (if length (chunk @ [ev]) = CHUNK_SIZE then
        (case rl_replay_with_changes rl st sk (chunk @ [ev]) of
           None \<Rightarrow> None | Some st' \<Rightarrow> dust_fill rl sk st' [] evs)
      else dust_fill rl sk st (chunk @ [ev]) evs)"

lemma dust_fill_short:
  "length chunk + length evs < CHUNK_SIZE \<Longrightarrow>
   dust_fill rl sk st chunk evs = dust_fill rl sk st (chunk @ evs) []"
proof (induction evs arbitrary: chunk)
  case (Cons ev evs)
  then have "length (chunk @ [ev]) + length evs < CHUNK_SIZE" by simp
  from Cons.IH [OF this] Cons.prems show ?case by simp
qed simp

lemma dust_fill_full:
  "length chunk + length xs = CHUNK_SIZE \<Longrightarrow> xs \<noteq> [] \<Longrightarrow>
   dust_fill rl sk st chunk (xs @ ys) =
     (case rl_replay_with_changes rl st sk (chunk @ xs) of
        None \<Rightarrow> None | Some st' \<Rightarrow> dust_fill rl sk st' [] ys)"
proof (induction xs arbitrary: chunk)
  case (Cons x xs)
  show ?case
  proof (cases "xs = []")
    case False
    then have "0 < length xs" by simp
    with Cons.prems have "length (chunk @ [x]) + length xs = CHUNK_SIZE"
      "length (chunk @ [x]) \<noteq> CHUNK_SIZE" by (simp, simp only: length_append list.size)
    with Cons.IH [of "chunk @ [x]"] False show ?thesis by simp
  qed (use Cons.prems in simp)
qed simp

interpretation dust_chunks: chunked_replay
    "\<lambda>st evs. rl_replay_with_changes rl st sk evs" "\<lambda>st evs. dust_fill rl sk st [] evs" CHUNK_SIZE
  for rl sk
proof unfold_locales
  show "0 < CHUNK_SIZE" by (simp add: CHUNK_SIZE_def)
  show "dust_fill rl sk st [] xs = rl_replay_with_changes rl st sk xs"
    if "xs \<noteq> []" "length xs < CHUNK_SIZE" for st xs
    using that by (simp add: dust_fill_short)
  show "dust_fill rl sk st [] (xs @ ys) =
      (case rl_replay_with_changes rl st sk xs of None \<Rightarrow> None | Some st' \<Rightarrow> dust_fill rl sk st' [] ys)"
    if "length xs = CHUNK_SIZE" for st xs ys
    using that by (subst dust_fill_full) (auto simp: CHUNK_SIZE_def)
qed simp

lemma dust_finish_simps [simp]:
  "dust_finish rl sk Panics = Panics" "dust_finish rl sk (Ret None) = Ret None"
  "dust_finish rl sk (Ret (Some (st, chunk))) =
     (if chunk = [] then Ret (Some st) else Ret (rl_replay_with_changes rl st sk chunk))"
  by (simp_all add: dust_finish_def)

lemma dust_stream_logged:
  "dust_finish rl sk (dust_stream hx rl sk ls (st, chunk, True)) =
     Ret (do { evs \<leftarrow> dust_events hx rl ls; dust_fill rl sk st chunk evs })"
proof (induction ls arbitrary: st chunk)
  case Nil
  show ?case by simp
next
  case (Cons l ls)
  show ?case
  proof (cases l)
    case (Inl e)
    then show ?thesis by simp
  next
    case (Inr line)
    show ?thesis
      by (cases "line = []"; cases "hx_dec hx line"; cases "rl_tagged rl (the (hx_dec hx line))";
          cases "dust_events hx rl ls")
        (auto simp: Inr Cons.IH Let_def split: option.splits)
  qed
qed

definition first_line :: "(unit + string) list \<Rightarrow> (unit + string) option" where
  "first_line ls = (case dropWhile (\<lambda>l. l = Inr []) ls of [] \<Rightarrow> None | l # _ \<Rightarrow> Some l)"

definition preview_crash :: "('st, 'sk, 'ev) replay_lib \<Rightarrow> (unit + string) list \<Rightarrow> bool" where
  "preview_crash rl ls \<longleftrightarrow> (case first_line ls of Some (Inr line) \<Rightarrow> preview_panics rl line | _ \<Rightarrow> False)"

lemma dust_stream_start:
  "dust_finish rl sk (dust_stream hx rl sk ls (st, [], False)) =
     (if preview_crash rl ls then Panics
      else Ret (do { evs \<leftarrow> dust_events hx rl ls; dust_fill rl sk st [] evs }))"
proof (induction ls)
  case (Cons l ls)
  show ?case
  proof (cases "l = Inr []")
    case True
    with Cons show ?thesis by (simp add: preview_crash_def first_line_def)
  next
    case False
    show ?thesis
    proof (cases l)
      case (Inr line)
      with False have ne: "line \<noteq> []" by simp
      have "\<not> preview_panics rl line \<Longrightarrow>
        dust_stream hx rl sk (l # ls) (st, [], False) = dust_stream hx rl sk (l # ls) (st, [], True)"
        by (simp add: Inr ne)
      with ne Inr dust_stream_logged [of rl sk hx "l # ls" st "[]"] show ?thesis
        by (cases "preview_panics rl line") (simp_all add: preview_crash_def first_line_def)
    qed (simp add: preview_crash_def first_line_def)
  qed
qed (simp add: preview_crash_def first_line_def)

subsection \<open>A concrete ledger\<close>

text \<open>A wallet that collects the first byte of every event; an empty event does not decode.\<close>

definition demo_replay_lib :: "string \<Rightarrow> (bytes, bytes, u8) replay_lib" where
  "demo_replay_lib file = \<lparr>rl_derive = (\<lambda>b. b),
     rl_tagged = (\<lambda>b. case b of [] \<Rightarrow> None | x # _ \<Rightarrow> Some (last b)),
     rl_raw = (\<lambda>b. case b of [] \<Rightarrow> None | x # _ \<Rightarrow> Some x),
     rl_replay = (\<lambda>st sk evs. Some (st @ evs)), rl_replay_with_changes = (\<lambda>st sk evs. Some (st @ evs)),
     rl_android = True, rl_open = (\<lambda>p. Some (file, False))\<rparr>"

lemma demo_replay_simps [simp]:
  "rl_open (demo_replay_lib f) p = Some (f, False)"
  "rl_replay (demo_replay_lib f) st sk evs = Some (st @ evs)"
  "rl_replay_with_changes (demo_replay_lib f) st sk evs = Some (st @ evs)"
  by (simp_all add: demo_replay_lib_def)

subsection \<open>Gluing events\<close>

lemma glue_is_join: "concat (map (\<lambda>b. pat @ b) bs) = str_join pat ([] # bs)"
proof (induction bs)
  case (Cons b bs)
  then show ?case by (cases bs) simp_all
qed simp

lemma split_glue:
  assumes "\<forall>b \<in> set bs. clean_piece pat b" and "pat \<noteq> []"
  shows "str_split pat (concat (map (\<lambda>b. pat @ b) bs)) = [] # bs"
proof -
  have "clean_piece pat []" by (simp add: clean_piece_def)
  with assms have "str_split pat (str_join pat ([] # bs)) = [] # bs" by (intro split_join) auto
  then show ?thesis by (simp only: glue_is_join)
qed

lemma mapO_dust_decode:
  assumes "hex_ok hx" and "\<forall>e \<in> set es. hx_enc hx e = TAG_PREFIX_HEX @ body e"
  shows "mapO (dust_decode_event hx rl) (map body es) = mapO (rl_tagged rl) es"
  using assms(2)
proof (induction es)
  case (Cons e es)
  then have "hx_dec hx (TAG_PREFIX_HEX @ body e) = Some e"
    using hex_dec_enc [OF assms(1), of e] by simp
  then have "dust_decode_event hx rl (body e) = rl_tagged rl e"
    by (simp add: dust_decode_event_def)
  with Cons show ?case by (simp split: option.split)
qed simp

subsection \<open>Properties\<close>



text \<open>
  If the ledger's replay composes (replaying nothing changes nothing, and replaying two runs of
  events is replaying their concatenation), the file entry point for shielded events, which replays
  in chunks of 500, gives exactly what one replay of all the file's events gives.
\<close>

lemma zswap_file_one_shot:
  assumes "cstr_to_str path = Some ps" and "rl_open rl ps = Some (content, fails)"
    and "\<And>st sk. rl_replay rl st sk [] = Some st"
    and "\<And>st sk xs ys. rl_replay rl st sk (xs @ ys) =
      (case rl_replay rl st sk xs of None \<Rightarrow> None | Some st' \<Rightarrow> rl_replay rl st' sk ys)"
  shows "zswap_replay_events_from_file hx rl (Some st) (Some seed) 32 (Some path) =
    (case zswap_parse_lines hx rl (read_lines content fails) [] of
       None \<Rightarrow> None
     | Some evs \<Rightarrow> rl_replay rl st (rl_derive rl (slice_from seed 32)) evs)"
  using assms(1,2) zswap_chunks.run_one_shot [OF assms(3,4)]
  by (simp add: zswap_replay_events_from_file_def split: option.split bind_split)




end
