(* ===== verification/TransferProtocol.thy ===== *)
theory TransferProtocol
  imports UnshieldedTx Signing
begin

text \<open>
  An unshielded transfer from end to end, over \<open>serialize.rs\<close> and \<open>transaction_ffi.rs\<close>: the wallet
  asks for the message of each input, signs it with that input's key, and submits inputs, outputs
  and signatures. The client's side of the protocol is what the doc comments ask of it.
\<close>

subsection \<open>The client\<close>

text \<open>The message and the randomness in an answer of \<open>get_signing_message_for_input\<close>.\<close>

definition read_answer :: "hexlib \<Rightarrow> json_lib \<Rightarrow> string \<Rightarrow> (bytes \<times> string) option" where
  "read_answer hx jl answer = do {
     v \<leftarrow> jl_parse jl answer;
     message \<leftarrow> Option.bind (jget ''signing_message'' v) as_str;
     randomness \<leftarrow> Option.bind (jget ''binding_randomness'' v) as_str;
     bytes \<leftarrow> hx_dec hx message;
     Some (bytes, randomness)
   }"

text \<open>The hex of a public key and of a signature made over the boundary, whatever else the heap holds.\<close>

definition owned_by :: "hexlib \<Rightarrow> ('sk, 'vk, 'sig, 'nonce) sig_lib \<Rightarrow> 'sk \<Rightarrow> string \<Rightarrow> bool" where
  "owned_by hx sl sk owner \<longleftrightarrow>
     (\<exists>h h' p a kb. hp_cells h p = Some (Boxed sk) \<and> get_verifying_key sl (Some p) h = Fine (Some a, h') \<and>
        vec_at (Some a) h' = Some kb \<and> owner = hx_enc hx kb)"

definition signed_by :: "hexlib \<Rightarrow> ('sk, 'vk, 'sig, 'nonce) sig_lib \<Rightarrow> 'sk \<Rightarrow> bytes \<Rightarrow> string \<Rightarrow> bool" where
  "signed_by hx sl sk m signature \<longleftrightarrow> length m < 2 ^ 64 \<and>
     (\<exists>h h' p nonce sb a b. hp_cells h p = Some (Boxed sk) \<and>
        sign_data sl nonce (Some p) (Some m) (of_nat (length m)) h = Fine (sb, h') \<and>
        sb_data sb = Some a \<and> vec_at (Some a) h' = Some b \<and> signature = hx_enc hx b)"

text \<open>
  One transfer. \<open>keys\<close> are the owners of the inputs, in their order. The first message is asked for
  without randomness, which the library draws and answers; the others with the randomness answered.
  A later call would draw \<open>draws k\<close> if it drew.
\<close>

definition transfer_run ::
    "hexlib \<Rightarrow> json_lib \<Rightarrow> ('sk, 'vk, 'sig, 'nonce) sig_lib \<Rightarrow>
     ('vk, 'tok, 'hash, 'addr, 'sig, 'fr, 'ped, 'spend, 'tx, 'ptx, 'stx, 'st, 'dsk) unshielded_lib \<Rightarrow>
     (nat \<Rightarrow> 'fr) \<Rightarrow> 'sk list \<Rightarrow> string \<Rightarrow> string \<Rightarrow> string \<Rightarrow> u64 \<Rightarrow> string \<Rightarrow> string \<Rightarrow> bool" where
  "transfer_run hx jl sl ul draws keys ins outs sigs ttl net tx \<longleftrightarrow>
     (\<exists>jis shs m r dust.
        ul_parse_inputs ul ins = Some jis \<and> list_all2 (\<lambda>ji sk. owned_by hx sl sk (ju_owner ji)) jis keys \<and>
        ul_parse_strings ul sigs = Some shs \<and> length shs = length jis \<and>
        (\<forall>k < length jis. \<exists>answer r'.
           get_signing_message_for_input hx jl (if k = 0 then ul else ul\<lparr>ul_random_fr := draws k\<rparr>)
             (Some ins) (Some outs) (of_nat k) ttl (if k = 0 then None else Some r) = Some answer \<and>
           read_answer hx jl answer = Some (m k, r') \<and> (k = 0 \<longrightarrow> r' = r)) \<and>
        (\<forall>k < length jis. signed_by hx sl (keys ! k) (m k) (shs ! k)) \<and>
        serialize_unshielded_transaction hx ul (Some ins) (Some outs) (Some sigs) dust ttl (Some r) (Some net)
          = Some tx)"

subsection \<open>What the libraries document\<close>

text \<open>Printed and parsed again, an answer has its two hex members.\<close>

definition answers_read :: "json_lib \<Rightarrow> bool" where
  "answers_read jl \<longleftrightarrow> (\<forall>a b. set a \<subseteq> set hex_digits \<and> set b \<subseteq> set hex_digits \<longrightarrow>
     (\<exists>v. jl_parse jl (jl_print jl (JObject [(''signing_message'', JString a), (''binding_randomness'', JString b)]))
          = Some v \<and>
        jget ''signing_message'' v = Some (JString a) \<and> jget ''binding_randomness'' v = Some (JString b)))"

text \<open>A scalar's bytes are some and read back; keys and signatures have one encoding.\<close>

definition fr_codec :: "('vk, 'tok, 'hash, 'addr, 'sig, 'fr, 'ped, 'spend, 'tx, 'ptx, 'stx, 'st, 'dsk) unshielded_lib \<Rightarrow> bool" where
  "fr_codec ul \<longleftrightarrow> (\<forall>r. ul_fr_to_bytes ul r \<noteq> [] \<and> ul_fr_from_le ul (ul_fr_to_bytes ul r) = Some r)"

definition same_codecs ::
    "('sk, 'vk, 'sig, 'nonce) sig_lib \<Rightarrow>
     ('vk, 'tok, 'hash, 'addr, 'sig, 'fr, 'ped, 'spend, 'tx, 'ptx, 'stx, 'st, 'dsk) unshielded_lib \<Rightarrow> bool" where
  "same_codecs sl ul \<longleftrightarrow> ul_vk_deser ul = sg_vk_deser sl \<and> ul_sig_deser ul = sg_sig_deser sl"

subsection \<open>Lemmas\<close>

lemma owned_by_key:
  assumes "owned_by hx sl sk owner" and "sig_ok sl"
  obtains kb where "owner = hx_enc hx kb" "sg_vk_deser sl kb = Some (sg_verifying_key sl sk)"
proof -
  obtain h h' p a kb where o: "hp_cells h p = Some (Boxed sk)" "get_verifying_key sl (Some p) h = Fine (Some a, h')"
    "vec_at (Some a) h' = Some kb" "owner = hx_enc hx kb"
    using assms(1) unfolding owned_by_def by blast
  from get_verifying_key_ok [OF o(2)] obtain c where
    c: "sg_vk_ser sl (sg_verifying_key sl sk) = Some c" "heap_alloc (ByteVec c (sg_capacity sl 32)) h = (a, h')"
    using o(1) by auto
  have "kb = c" using heap_alloc_cell [OF c(2)] o(3) by (simp add: vec_at_def)
  with that o(4) c(1) assms(2) show ?thesis by (auto simp: sig_ok_def)
qed

lemma signed_by_verifies:
  assumes "signed_by hx sl sk m sh" and "sig_ok sl"
  obtains b sg where "sh = hx_enc hx b" "sg_sig_deser sl b = Some sg"
    "sg_verify sl (sg_verifying_key sl sk) m sg"
proof -
  obtain h h' p n sb a b where len: "length m < 2 ^ 64"
    and s: "hp_cells h p = Some (Boxed sk)" "sign_data sl n (Some p) (Some m) (of_nat (length m)) h = Fine (sb, h')"
    "sb_data sb = Some a" "vec_at (Some a) h' = Some b" "sh = hx_enc hx b"
    using assms(1) unfolding signed_by_def by blast
  have "(if of_nat (length m) = (0 :: usize) then [] else slice_from (the (Some m)) (of_nat (length m))) = m"
  proof (cases m)
    case (Cons x xs)
    have "unat (of_nat (length m) :: usize) = length m"
      using len by (simp add: unsigned_of_nat take_bit_nat_eq_self)
    then show ?thesis by (auto simp: slice_from_def)
  qed simp
  with sign_data_ok [OF s(2,3)] s(1) obtain c where
    c: "sg_sig_ser sl (sg_sign sl sk n m) = Some c" "heap_alloc (ByteVec c (sg_capacity sl (length c))) h = (a, h')"
    by auto
  have "b = c" using heap_alloc_cell [OF c(2)] s(4) by (simp add: vec_at_def)
  with that s(5) c(1) assms(2) show ?thesis by (auto simp: sig_ok_def)
qed

text \<open>A call that is given the randomness draws none.\<close>

lemma no_draw:
  "signature_parts hx (ul\<lparr>ul_random_fr := d\<rparr>) ins outs i ttl (Some r) = signature_parts hx ul ins outs i ttl (Some r)"
  by (simp add: signature_parts_def convert_input_def [abs_def] convert_output_def [abs_def] parse_randomness_def
      signing_intent_def transfer_intent_def del: intent_copies_agree)

text \<open>An answer of the entry point, opened.\<close>

lemma answer_read:
  assumes "get_signing_message_for_input hx jl ul (Some ins) (Some outs) i ttl r = Some answer"
    and "read_answer hx jl answer = Some (m, r')" and "hex_ok hx" and "answers_read jl"
  obtains it where
    "signature_parts hx ul ins outs i ttl (if r = Some [] then None else Option.bind r cstr_to_str) = Inr it"
    "m = ul_data_to_sign ul 1 (to_pedersen ul it)" "r' = hx_enc hx (ul_fr_to_bytes ul (in_binding it))"
proof -
  have opt: "(case Option.bind r cstr_to_str of Some s \<Rightarrow> if s \<noteq> [] then Some s else None | None \<Rightarrow> None) =
      (if r = Some [] then None else Option.bind r cstr_to_str)"
    by (cases r) (auto dest: cstr_to_str_Some split: option.split)
  let ?r = "if r = Some [] then None else Option.bind r cstr_to_str"
  have "build_intent_and_get_signature_data hx jl ul ins outs i ttl ?r = Inr answer"
    using assms(1)
    by (auto simp: get_signing_message_for_input_def opt res_ok_eq_Some cstring_new_eq_Some
        dest!: cstr_to_str_Some split: bind_splits)
  then obtain it where it: "signature_parts hx ul ins outs i ttl ?r = Inr it"
    "answer = jl_print jl (JObject
       [(''signing_message'', JString (hx_enc hx (ul_data_to_sign ul 1 (to_pedersen ul it)))),
        (''binding_randomness'', JString (hx_enc hx (ul_fr_to_bytes ul (in_binding it))))])"
    unfolding build_intent_and_get_signature_data_def bindE_eq_Inr Let_def by auto
  moreover from assms(4) hex_enc_set [OF assms(3)] obtain v where
    "jl_parse jl answer = Some v"
    "jget ''signing_message'' v = Some (JString (hx_enc hx (ul_data_to_sign ul 1 (to_pedersen ul it))))"
    "jget ''binding_randomness'' v = Some (JString (hx_enc hx (ul_fr_to_bytes ul (in_binding it))))"
    unfolding answers_read_def it(2) by meson
  ultimately show ?thesis
    using assms(2) that by (auto simp: read_answer_def hex_dec_enc [OF assms(3)])
qed

text \<open>Every message signed in a run is the data to sign of the intent submitted.\<close>

lemma run_message:
  assumes build: "build_intent hx ul ins outs sigs ttl r = Inr it"
    and parse: "ul_parse_inputs ul ins = Some jis" and k: "k < length jis"
    and ok: "hex_ok hx" "answers_read jl"
    and first: "\<exists>it0. signature_parts hx ul ins outs 0 ttl None = Inr it0 \<and>
      r = hx_enc hx (ul_fr_to_bytes ul (in_binding it0))" and fr: "fr_codec ul"
    and call: "get_signing_message_for_input hx jl (if k = 0 then ul else ul\<lparr>ul_random_fr := d\<rparr>)
      (Some ins) (Some outs) (of_nat k) ttl (if k = 0 then None else Some r) = Some answer"
    and read: "read_answer hx jl answer = Some (m, r')"
  shows "m = ul_data_to_sign ul 1 (to_pedersen ul (unsigned_intent it))"
proof -
  obtain it0 where it0: "signature_parts hx ul ins outs 0 ttl None = Inr it0"
    "r = hx_enc hx (ul_fr_to_bytes ul (in_binding it0))" using first by blast
  have r: "r \<noteq> []" "cstr_to_str r = Some r" "parse_randomness hx ul r = Inr (in_binding it0)"
    using fr hex_enc_length [OF ok(1), of "ul_fr_to_bytes ul (in_binding it0)"]
    by (auto simp: it0(2) fr_codec_def parse_randomness_def hex_dec_enc [OF ok(1)]
        cstr_to_str_ascii hex_enc_plain(5) [OF ok(1)])
  have idx: "unat (of_nat k :: u32) < length jis"
    using k by (simp add: unsigned_of_nat) (metis le_less_trans take_bit_nat_less_eq_self)
  have given: "signature_parts hx ul ins outs (of_nat k) ttl (Some r) = Inr (unsigned_intent it)"
    by (rule signature_parts_of_intent [OF build parse idx])
  show ?thesis
  proof (cases "k = 0")
    case True
    have "in_binding it0 = ul_random_fr ul" using it0(1) by (auto simp: signature_parts_def resE transfer_intent_def)
    then have "signature_parts hx ul ins outs 0 ttl (Some r) = signature_parts hx ul ins outs 0 ttl None"
      using r(3) by (simp add: signature_parts_def)
    then have "it0 = unsigned_intent it" using given it0(1) True by simp
    with answer_read [OF call read ok] it0(1) True show ?thesis by auto
  next
    case False
    with answer_read [OF call read ok] r given show ?thesis by (auto simp: no_draw to_pedersen_def)
  qed
qed

lemma converted_owner:
  assumes "convert_input hx ul ji = Inr x" and "owned_by hx sl sk (ju_owner ji)"
    and "sig_ok sl" "hex_ok hx" "same_codecs sl ul"
  shows "us_owner x = sg_verifying_key sl sk"
proof -
  obtain kb where "ju_owner ji = hx_enc hx kb" "sg_vk_deser sl kb = Some (sg_verifying_key sl sk)"
    using owned_by_key [OF assms(2,3)] .
  then show ?thesis
    using assms(1,5) by (auto simp: convert_input_def key_32_def resE hex_dec_enc [OF assms(4)] same_codecs_def)
qed

lemma converted_signature:
  assumes "convert_signature hx ul sh = Inr sg" and "signed_by hx sl sk m sh"
    and "sig_ok sl" "hex_ok hx" "same_codecs sl ul"
  shows "sg_verify sl (sg_verifying_key sl sk) m sg"
proof -
  obtain b sg' where "sh = hx_enc hx b" "sg_sig_deser sl b = Some sg'" "sg_verify sl (sg_verifying_key sl sk) m sg'"
    using signed_by_verifies [OF assms(2,3)] .
  then show ?thesis
    using assms(1,5) by (auto simp: convert_signature_def resE hex_dec_enc [OF assms(4)] same_codecs_def)
qed

subsection \<open>A concrete run\<close>

text \<open>Two inputs of one key, listed against the ledger's order, and a printer for the two hex members.\<close>

definition demo_transfer_input :: "u128 \<Rightarrow> json_utxo_spend" where
  "demo_transfer_input v = \<lparr>ju_value = show_word v, ju_owner = hx_enc ref_hex (replicate 32 1),
     ju_type = hx_enc ref_hex (replicate 32 2), ju_intent_hash = hx_enc ref_hex (replicate 32 3), ju_output_no = 0\<rparr>"

definition demo_transfer_ul ::
    "(u8, u8, u8, u8, u8 \<times> u8, u8, u8, u8, bytes, bytes, bytes, u8 list, bytes) unshielded_lib" where
  "demo_transfer_ul = \<lparr>
     ul_parse_inputs = (\<lambda>s. Some [demo_transfer_input 7, demo_transfer_input 5]),
     ul_parse_outputs = (\<lambda>s. Some []),
     ul_parse_strings = (\<lambda>s. Some (replicate 2 (hx_enc ref_hex (replicate 32 1 @ replicate 32 2)))),
     ul_parse_dust = (\<lambda>s. None),
     ul_vk_deser = sg_vk_deser demo_sig_lib, ul_tok_of = hd, ul_hash_deser = (\<lambda>b. Some (hd b)), ul_hash_of = hd,
     ul_addr_deser = (\<lambda>b. Some (hd b)), ul_addr_of = hd, ul_sig_deser = sg_sig_deser demo_sig_lib,
     ul_input_le = (\<lambda>a b. us_value a \<le> us_value b), ul_output_le = (\<lambda>a b. uo_value a \<le> uo_value b),
     ul_fr_from_le = (\<lambda>b. case b of [r] \<Rightarrow> Some r | _ \<Rightarrow> None), ul_fr_to_bytes = (\<lambda>r. [r]), ul_fr_zero = 0,
     ul_random_fr = 6, ul_pedersen = (\<lambda>r. r + 1),
     ul_data_to_sign = (\<lambda>sg it. [ucast (in_ttl it), in_binding it]),
     ul_standard_tx = (\<lambda>n is r. [r]), ul_new_tx = (\<lambda>n is. [of_nat (length n)]),
     ul_merge = (\<lambda>a b. Some (a @ b)), ul_ser_tuple = Some, ul_segment = 2, ul_rekey = (\<lambda>st sk. st),
     ul_deser_proven = Some, ul_seal_seeded = (\<lambda>k t. t), ul_ser_sealed = Some, ul_deser_sealed = Some,
     ul_tx_hash = (\<lambda>t. t)\<rparr>"

definition demo_answers :: json_lib where
  "demo_answers = \<lparr>jl_parse = (\<lambda>s. case str_split '';'' s of
       [a, b] \<Rightarrow> Some (JObject [(''binding_randomness'', JString b), (''signing_message'', JString a)]) | _ \<Rightarrow> None),
     jl_print = (\<lambda>v. case v of JObject [(k, JString a), (l, JString b)] \<Rightarrow> a @ '';'' @ b | _ \<Rightarrow> [])\<rparr>"

lemma demo_answers_read: "answers_read demo_answers"
  unfolding answers_read_def
proof (intro allI impI)
  fix a b assume "set a \<subseteq> set hex_digits \<and> set b \<subseteq> set hex_digits"
  moreover have "CHR '';'' \<notin> set hex_digits" by code_simp
  ultimately have "str_split '';'' (str_join '';'' [a, b]) = [a, b]"
    by (intro split_join_char) auto
  then show "\<exists>v. jl_parse demo_answers (jl_print demo_answers (JObject
      [(''signing_message'', JString a), (''binding_randomness'', JString b)])) = Some v \<and>
    jget ''signing_message'' v = Some (JString a) \<and> jget ''binding_randomness'' v = Some (JString b)"
    by (simp add: demo_answers_def)
qed

lemma demo_transfer_codecs: "same_codecs demo_sig_lib demo_transfer_ul" "fr_codec demo_transfer_ul"
  by (simp_all add: same_codecs_def fr_codec_def demo_transfer_ul_def)

definition demo_key_heap :: "u8 heap" where
  "demo_key_heap = \<lparr>hp_cells = [0 \<mapsto> Boxed 1], hp_next = 1\<rparr>"

lemma demo_owned: "owned_by ref_hex demo_sig_lib 1 (ju_owner (demo_transfer_input v))"
proof -
  have "get_verifying_key demo_sig_lib (Some 0) demo_key_heap
      = Fine (Some 1, snd (heap_alloc (ByteVec (replicate 32 1) 32) demo_key_heap))"
    by (simp add: get_verifying_key_def deref_key_def demo_key_heap_def demo_sig_lib_def heap_alloc_def)
  then show ?thesis
    unfolding owned_by_def demo_transfer_input_def
    by (intro exI [of _ demo_key_heap] exI conjI)
      (auto simp: demo_key_heap_def vec_at_def heap_alloc_def)
qed

lemma demo_signed:
  "signed_by ref_hex demo_sig_lib 1 [5, 7] (hx_enc ref_hex (replicate 32 1 @ replicate 32 2))"
proof -
  have "sign_data demo_sig_lib 9 (Some 0) (Some [5, 7]) (of_nat (length [5, 7 :: u8])) demo_key_heap
      = Fine (\<lparr>sb_data = Some 1, sb_len = 64\<rparr>, snd (heap_alloc (ByteVec (replicate 32 1 @ replicate 32 2) 64) demo_key_heap))"
    by (simp add: sign_data_def deref_key_def demo_key_heap_def demo_sig_lib_def heap_alloc_def MAX_DATA_LEN_def
        slice_from_def)
  then show ?thesis
    unfolding signed_by_def
    by (intro conjI exI [of _ demo_key_heap] exI) (auto simp: demo_key_heap_def vec_at_def heap_alloc_def)
qed

lemma demo_transfer_run:
  "transfer_run ref_hex demo_answers demo_sig_lib demo_transfer_ul (\<lambda>k. 9) [1, 1] [] [] [] 5000 ''n'' ''06''"
proof -
  let ?sig = "hx_enc ref_hex (replicate 32 1 @ replicate 32 2)"
  have d: "hx_dec ref_hex (hx_enc ref_hex b) = Some b" for b by (rule hex_dec_enc [OF ref_hex_ok])
  have c: "cstr_to_str [] = Some []" "cstr_to_str ''n'' = Some ''n''" "cstr_to_str ''06'' = Some ''06''" by code_simp+
  have r: "hx_dec ref_hex ''06'' = Some [6]" "hx_enc ref_hex [6] = ''06''" "hx_enc ref_hex [5, 7] = ''0507''" by code_simp+
  have answers: "get_signing_message_for_input ref_hex demo_answers demo_transfer_ul (Some []) (Some []) 0 5000 None
      = Some ''0507;06''"
    "get_signing_message_for_input ref_hex demo_answers (demo_transfer_ul\<lparr>ul_random_fr := 9\<rparr>) (Some []) (Some []) 1 5000
      (Some ''06'') = Some ''0507;06''"
    by (simp_all add: get_signing_message_for_input_def build_intent_and_get_signature_data_def signature_parts_def
        c d r demo_transfer_ul_def demo_transfer_input_def convert_input_def key_32_def token_32_def
        parse_randomness_def to_pedersen_def transfer_intent_def demo_answers_def cstring_new_def demo_sig_lib_def)
  have read: "read_answer ref_hex demo_answers ''0507;06'' = Some ([5, 7], ''06'')" by code_simp
  have submit: "serialize_unshielded_transaction ref_hex demo_transfer_ul (Some []) (Some []) (Some []) (Some []) 5000
      (Some ''06'') (Some ''n'') = Some ''06''"
    by (simp add: serialize_unshielded_transaction_def build_and_serialize_intent_def build_intent_def
        c d r demo_transfer_ul_def demo_transfer_input_def convert_input_def key_32_def token_32_def numeral_2_eq_2
        parse_randomness_def transfer_intent_def cstring_new_def demo_sig_lib_def convert_signature_def)
  have two: "k < 2 \<longleftrightarrow> k = 0 \<or> k = (1::nat)" for k by auto
  show ?thesis
    unfolding transfer_run_def
    by (rule exI [of _ "[demo_transfer_input 7, demo_transfer_input 5]"], rule exI [of _ "[?sig, ?sig]"],
        rule exI [of _ "\<lambda>k. [5, 7]"], rule exI [of _ "''06''"], rule exI [of _ "Some []"])
      (use answers read submit in \<open>auto simp: demo_owned demo_signed demo_transfer_ul_def two numeral_2_eq_2
         less_Suc_eq\<close>)
qed

subsection \<open>Properties\<close>

text \<open>
  C4. A transfer run as documented is correctly signed. The transaction submitted carries one intent,
  with one signature per input; the signature at each position was made for the data to sign of
  exactly that intent, by the owner of the input the wallet listed there; and it verifies under the
  owner of the input that stands there after sorting whenever the wallet listed its inputs in ledger
  order or one key owns them all.
\<close>

theorem transfer_correctly_signed:
  assumes run: "transfer_run hx jl sl ul draws keys ins outs sigs ttl net tx"
    and ok: "hex_ok hx" "answers_read jl" "sig_ok sl" "same_codecs sl ul" "fr_codec ul"
  shows "\<exists>it bs f conv. tx = hx_enc hx bs \<and>
    ul_ser_tuple ul (ul_standard_tx ul net [(1, it)] (in_binding it)) = Some bs \<and>
    in_guaranteed_offer it = Some f \<and> uf_inputs f = sort_by (ul_input_le ul) conv \<and>
    map us_owner conv = map (sg_verifying_key sl) keys \<and> length (uf_signatures f) = length (uf_inputs f) \<and>
    (let message = ul_data_to_sign ul 1 (to_pedersen ul (unsigned_intent it)) in
     list_all2 (\<lambda>input. sg_verify sl (us_owner input) message) conv (uf_signatures f) \<and>
     (sort_by (ul_input_le ul) conv = conv \<or> card (set keys) \<le> 1 \<longrightarrow>
        list_all2 (\<lambda>input. sg_verify sl (us_owner input) message) (uf_inputs f) (uf_signatures f)))"
proof -
  obtain jis shs m r dust where parse: "ul_parse_inputs ul ins = Some jis" "ul_parse_strings ul sigs = Some shs"
    and owners: "list_all2 (\<lambda>ji sk. owned_by hx sl sk (ju_owner ji)) jis keys" and len: "length shs = length jis"
    and calls: "\<And>k. k < length jis \<Longrightarrow> \<exists>answer r'.
      get_signing_message_for_input hx jl (if k = 0 then ul else ul\<lparr>ul_random_fr := draws k\<rparr>)
        (Some ins) (Some outs) (of_nat k) ttl (if k = 0 then None else Some r) = Some answer \<and>
      read_answer hx jl answer = Some (m k, r') \<and> (k = 0 \<longrightarrow> r' = r)"
    and signed: "\<And>k. k < length jis \<Longrightarrow> signed_by hx sl (keys ! k) (m k) (shs ! k)"
    and submit: "serialize_unshielded_transaction hx ul (Some ins) (Some outs) (Some sigs) dust ttl (Some r) (Some net)
      = Some tx"
    using run unfolding transfer_run_def by blast
  obtain it bs where build: "build_intent hx ul ins outs sigs ttl r = Inr it"
    and tx: "tx = hx_enc hx bs" "ul_ser_tuple ul (ul_standard_tx ul net [(1, it)] (in_binding it)) = Some bs"
    using submit
    by (auto simp: serialize_unshielded_transaction_def build_and_serialize_intent_def resE Let_def res_ok_eq_Some
        cstring_new_eq_Some dest!: cstr_to_str_Some split: bind_splits)
  let ?message = "ul_data_to_sign ul 1 (to_pedersen ul (unsigned_intent it))"
  obtain conv outputs signatures rr where it: "it = transfer_intent ul conv outputs signatures ttl rr"
    and conv: "mapE (convert_input hx ul) jis = Inr conv" and sgs: "mapE (convert_signature hx ul) shs = Inr signatures"
    using build parse unfolding build_intent_ok by auto
  have lens: "length conv = length jis" "length signatures = length jis" "length keys = length jis"
    using mapE_length [OF conv] mapE_length [OF sgs] len list_all2_lengthD [OF owners] by simp_all
  have msg: "m k = ?message" if "k < length jis" for k
  proof -
    have "0 < length jis" using that by linarith
    from calls [OF this] obtain a where
      a: "get_signing_message_for_input hx jl ul (Some ins) (Some outs) 0 ttl None = Some a"
      "read_answer hx jl a = Some (m 0, r)" by auto
    from answer_read [OF a ok(1,2)] have
      "\<exists>it0. signature_parts hx ul ins outs 0 ttl None = Inr it0 \<and> r = hx_enc hx (ul_fr_to_bytes ul (in_binding it0))"
      by auto
    with calls [OF that] run_message [OF build parse(1) that ok(1,2) _ ok(5)] show ?thesis by blast
  qed
  have owner: "us_owner (conv ! k) = sg_verifying_key sl (keys ! k)" if "k < length jis" for k
    by (rule converted_owner [OF mapE_nth [OF conv that] list_all2_nthD [OF owners that] ok(3,1,4)])
  have verifies: "sg_verify sl (sg_verifying_key sl (keys ! k)) ?message (signatures ! k)" if "k < length jis" for k
    using converted_signature [OF mapE_nth [OF sgs, of k] signed [OF that] ok(3,1,4)] that len msg [OF that] by simp
  have listed: "list_all2 (\<lambda>input. sg_verify sl (us_owner input) ?message) conv signatures"
    using lens owner verifies by (simp add: list_all2_conv_all_nth)
  have mo: "map us_owner conv = map (sg_verifying_key sl) keys"
    using lens owner by (simp add: list_eq_iff_nth_eq)
  have placed: "list_all2 (\<lambda>input. sg_verify sl (us_owner input) ?message) (sort_by (ul_input_le ul) conv) signatures"
    if one: "card (set keys) \<le> 1"
  proof -
    have key: "us_owner x = sg_verifying_key sl (keys ! k)" if x: "x \<in> set conv" and k: "k < length jis" for x k
    proof -
      obtain i where "i < length jis" "x = conv ! i" using x lens by (auto simp: in_set_conv_nth)
      moreover have "keys ! i = keys ! k"
        using one lens k \<open>i < length jis\<close> by (auto simp: card_le_Suc0_iff_eq)
      ultimately show ?thesis using owner by simp
    qed
    have "us_owner (sort_by (ul_input_le ul) conv ! k) = sg_verifying_key sl (keys ! k)" if "k < length jis" for k
      using key that lens by (metis length_sort_by nth_mem set_sort_by)
    then show ?thesis using lens verifies by (simp add: list_all2_conv_all_nth)
  qed
  show ?thesis
    unfolding Let_def
    by (rule exI [of _ it], rule exI [of _ bs], rule exI, rule exI [of _ conv])
      (use tx listed placed mo lens in \<open>auto simp: it transfer_intent_def\<close>)
qed

theorem transfer_correctly_signed_witness:
  "\<exists>it bs f. ''06'' = hx_enc ref_hex bs \<and> in_guaranteed_offer it = Some f \<and> length (uf_inputs f) = 2 \<and>
    list_all2 (\<lambda>input. sg_verify demo_sig_lib (us_owner input)
      (ul_data_to_sign demo_transfer_ul 1 (to_pedersen demo_transfer_ul (unsigned_intent it))))
      (uf_inputs f) (uf_signatures f)"
proof -
  have one: "card (set [1, 1 :: u8]) \<le> 1" by simp
  obtain it bs f conv where r: "''06'' = hx_enc ref_hex bs" "in_guaranteed_offer it = Some f"
    "uf_inputs f = sort_by (ul_input_le demo_transfer_ul) conv"
    "map us_owner conv = map (sg_verifying_key demo_sig_lib) [1, 1]"
    "list_all2 (\<lambda>input. sg_verify demo_sig_lib (us_owner input)
      (ul_data_to_sign demo_transfer_ul 1 (to_pedersen demo_transfer_ul (unsigned_intent it))))
      (uf_inputs f) (uf_signatures f)"
    using transfer_correctly_signed [OF demo_transfer_run ref_hex_ok demo_answers_read demo_sig_ok
        demo_transfer_codecs] unfolding Let_def using one by blast
  then have "length (uf_inputs f) = 2" using map_eq_imp_length_eq [OF r(4)] by simp
  with r show ?thesis by blast
qed

end
