(* ===== verification/ShieldedPayment.thy ===== *)
theory ShieldedPayment
  imports ZswapWallet
begin

text \<open>
  Shielded payments from end to end in \<open>zswap_ffi.rs\<close>: a wallet selects coins, spends each of them
  from the state the spend before it returned, and syncs in between. The client splits the array and
  passes every coin back as it was printed.
\<close>

subsection \<open>The client\<close>

text \<open>Spending coin after coin; a failure ends the payment and the states made so far are dropped.\<close>

fun spend_all ::
    "hexlib \<Rightarrow> json_lib \<Rightarrow> ('st, 'sk, 'tok, 'nonce, 'nul, 'inp) zswap_lib \<Rightarrow> bytes \<Rightarrow> 'st \<Rightarrow> string list \<Rightarrow>
     'st option" where
  "spend_all hx jl zl seed state [] = Some state"
| "spend_all hx jl zl seed state (coin_json # rest) =
     (case zr_new_state (zswap_spend_coin hx jl zl (Some state) (Some seed) 32 (Some coin_json)) of
        None \<Rightarrow> None
      | Some new_state \<Rightarrow> spend_all hx jl zl seed new_state rest)"

text \<open>The nullifier the client reads off a coin it spends.\<close>

definition coin_nullifier :: "json_lib \<Rightarrow> string \<Rightarrow> string option" where
  "coin_nullifier jl coin_json = do {
     v \<leftarrow> jl_parse jl coin_json; member \<leftarrow> jget ''nullifier_hex'' v; as_str member }"

text \<open>No coin with this nullifier could be selected: the wallet has none, or its spend is pending.\<close>

definition gone ::
    "hexlib \<Rightarrow> ('st, 'sk, 'tok, 'nonce, 'nul, 'inp) zswap_lib \<Rightarrow> 'st \<Rightarrow> string \<Rightarrow> bool" where
  "gone hx zl state h \<longleftrightarrow> (\<forall>(nul, coin) \<in> set (zl_coins zl state). \<forall>b.
     zl_nul_ser zl nul = Some b \<and> hx_enc hx b = h \<longrightarrow> b \<in> pending_nullifiers zl state)"

definition keyed :: "('st, 'sk, 'tok, 'nonce, 'nul, 'inp) zswap_lib \<Rightarrow> 'st \<Rightarrow> bool" where
  "keyed zl state \<longleftrightarrow> distinct (map fst (zl_coins zl state))"

text \<open>
  The states a wallet goes through, with the nullifiers it has spent. A sync (a replay, or a state
  restored) may change everything but does not give back what was spent.
\<close>

inductive payments ::
    "hexlib \<Rightarrow> json_lib \<Rightarrow> ('st, 'sk, 'tok, 'nonce, 'nul, 'inp) zswap_lib \<Rightarrow>
     (string \<Rightarrow> string list option) \<Rightarrow> 'st \<Rightarrow> string list \<Rightarrow> bool" for hx jl zl split where
  start: "keyed zl st \<Longrightarrow> payments hx jl zl split st []"
| pay: "payments hx jl zl split st spent \<Longrightarrow> zswap_select_coins hx zl (Some st) tok amount = Some text \<Longrightarrow>
    split text = Some coins \<Longrightarrow> mapO (coin_nullifier jl) coins = Some ns \<Longrightarrow>
    spend_all hx jl zl seed st coins = Some st' \<Longrightarrow> payments hx jl zl split st' (spent @ ns)"
| sync: "payments hx jl zl split st spent \<Longrightarrow> keyed zl st' \<Longrightarrow>
    \<forall>h \<in> set spent. gone hx zl st h \<longrightarrow> gone hx zl st' h \<Longrightarrow> payments hx jl zl split st' spent"

inductive_cases payments_nonempty: "payments hx jl zl split st (n # ns)"

subsection \<open>What the libraries document\<close>

text \<open>
  A spend leaves the coins and marks its own as pending; nullifiers have one encoding, token types
  and nonces read back.
\<close>

definition wallet_ok :: "('st, 'sk, 'tok, 'nonce, 'nul, 'inp) zswap_lib \<Rightarrow> bool" where
  "wallet_ok zl \<longleftrightarrow>
     (\<forall>st sk c st' inp. zl_spend zl st sk c = Some (st', inp) \<longrightarrow> zl_coins zl st' = zl_coins zl st \<and>
        set (zl_pending zl st) \<subseteq> set (zl_pending zl st') \<and>
        (\<forall>nul. (nul, c) \<in> set (zl_coins zl st) \<longrightarrow> nul \<in> set (zl_pending zl st'))) \<and>
     (\<forall>m n b. zl_nul_ser zl m = Some b \<and> zl_nul_ser zl n = Some b \<longrightarrow> m = n) \<and>
     (\<forall>t b. zl_tok_ser zl t = Some b \<longrightarrow> zl_tok_deser zl b = Some t) \<and>
     (\<forall>n b. zl_nonce_ser zl n = Some b \<longrightarrow> zl_nonce_deser zl b = Some n)"

definition coin_body :: "string \<Rightarrow> u128 \<Rightarrow> string \<Rightarrow> u64 \<Rightarrow> string \<Rightarrow> string" where
  \<open>coin_body type_hex value nonce_hex mt_index nul_hex =
     ''"type_hex":"'' @ type_hex @ ''","value":"'' @ show_word value @ ''","nonce_hex":"'' @ nonce_hex @
     ''","mt_index":'' @ show_word mt_index @ '',"nullifier_hex":"'' @ nul_hex @ ''"''\<close>

text \<open>A JSON object of these five members parses to an object that has them.\<close>

definition coins_parse :: "json_lib \<Rightarrow> bool" where
  "coins_parse jl \<longleftrightarrow> (\<forall>t v n i u. set t \<union> set n \<union> set u \<subseteq> set hex_digits \<longrightarrow>
     (\<exists>obj. jl_parse jl (''{'' @ coin_body t v n i u @ ''}'') = Some obj \<and>
        jget ''type_hex'' obj = Some (JString t) \<and> jget ''value'' obj = Some (JString (show_word v)) \<and>
        jget ''nonce_hex'' obj = Some (JString n) \<and> jget ''mt_index'' obj = Some (json_u64 i) \<and>
        jget ''nullifier_hex'' obj = Some (JString u)))"

text \<open>An array of flat objects is split into them.\<close>

definition arrays_split :: "(string \<Rightarrow> string list option) \<Rightarrow> bool" where
  "arrays_split split \<longleftrightarrow> (\<forall>bodies. (\<forall>b \<in> set bodies. b \<noteq> [] \<and> CHR ''}'' \<notin> set b) \<longrightarrow>
     split (''['' @ str_join '','' (map (\<lambda>b. ''{'' @ b @ ''}'') bodies) @ '']'') = Some (map (\<lambda>b. ''{'' @ b @ ''}'') bodies))"

subsection \<open>Coins printed and read back\<close>

lemma coin_entry_body:
  "coin_entry hx zl (n, c) = Some e \<longleftrightarrow>
    (\<exists>tb nb. zl_tok_ser zl (zc_type c) = Some tb \<and> zl_nonce_ser zl (zc_nonce c) = Some nb \<and>
       e = ''{'' @ coin_body (hx_enc hx tb) (zc_value c) (hx_enc hx nb) (zc_mt_index c) (hx_enc hx n) @ ''}'')"
  by (auto simp: coin_entry_def coin_body_def split: bind_splits)

lemma coin_entry_read:
  assumes "coin_entry hx zl (n, c) = Some e" and "hex_ok hx" "wallet_ok zl" "coins_parse jl"
  shows "parse_qualified_coin_info hx jl zl e = Inr c" and "coin_nullifier jl e = Some (hx_enc hx n)"
proof -
  obtain tb nb where s: "zl_tok_ser zl (zc_type c) = Some tb" "zl_nonce_ser zl (zc_nonce c) = Some nb"
    "e = ''{'' @ coin_body (hx_enc hx tb) (zc_value c) (hx_enc hx nb) (zc_mt_index c) (hx_enc hx n) @ ''}''"
    using assms(1) unfolding coin_entry_body by blast
  obtain obj where o: "jl_parse jl e = Some obj" "jget ''type_hex'' obj = Some (JString (hx_enc hx tb))"
    "jget ''value'' obj = Some (JString (show_word (zc_value c)))"
    "jget ''nonce_hex'' obj = Some (JString (hx_enc hx nb))"
    "jget ''mt_index'' obj = Some (json_u64 (zc_mt_index c))"
    "jget ''nullifier_hex'' obj = Some (JString (hx_enc hx n))"
    using assms(4) hex_enc_set [OF assms(2)] unfolding coins_parse_def s(3) by (metis Un_subset_iff)
  have d: "zl_tok_deser zl tb = Some (zc_type c)" "zl_nonce_deser zl nb = Some (zc_nonce c)"
    using assms(3) s(1,2) by (auto simp: wallet_ok_def)
  show "parse_qualified_coin_info hx jl zl e = Inr c"
    by (simp add: parse_qualified_coin_info_def o d hex_dec_enc [OF assms(2)])
  show "coin_nullifier jl e = Some (hx_enc hx n)" by (simp add: coin_nullifier_def o)
qed

lemma no_brace: "CHR ''}'' \<notin> set (show_word w)"
proof -
  have "\<not> is_dec (CHR ''}'')" by code_simp
  then show ?thesis using show_nat_digits [of "unat w"] by (auto simp: show_word_def)
qed

lemma body_plain:
  assumes "set t \<union> set n \<union> set u \<subseteq> set hex_digits"
  shows "CHR ''}'' \<notin> set (coin_body t v n i u)" and "coin_body t v n i u \<noteq> []" and "is_ascii (coin_body t v n i u)"
    and "CHR 0x00 \<notin> set (coin_body t v n i u)"
proof -
  have "CHR ''}'' \<notin> set hex_digits" by code_simp
  then show "CHR ''}'' \<notin> set (coin_body t v n i u)"
    using assms no_brace [of v] no_brace [of i] by (auto simp: coin_body_def)
  show "coin_body t v n i u \<noteq> []" by (simp add: coin_body_def)
  have "is_ascii t" "is_ascii n" "is_ascii u" "is_ascii (show_word v)" "is_ascii (show_word i)"
    using assms hex_digit_range digits_plain(2) [OF show_nat_digits]
    by (auto simp: is_ascii_def show_word_def)
  then show "is_ascii (coin_body t v n i u)" by (auto simp: is_ascii_def coin_body_def)
  show "CHR 0x00 \<notin> set (coin_body t v n i u)"
    using assms hex_digits_exclude(1) digits_plain(1) [OF show_nat_digits]
    by (auto simp: coin_body_def show_word_def)
qed

subsection \<open>What is spent stays gone\<close>

lemma spend_coin_step:
  assumes "zr_new_state (zswap_spend_coin hx jl zl (Some st) (Some seed) 32 (Some e)) = Some st'"
    and "parse_qualified_coin_info hx jl zl e = Inr c"
  shows "\<exists>inp. zl_spend zl st (zl_keys zl (slice_from seed 32)) c = Some (st', inp)"
  using assms
  by (auto simp: zswap_spend_coin_def zswap_null_result_def c_str_to_rust_def split: option.splits bind_splits
      dest!: cstr_to_str_Some)

lemma pending_mono:
  "set (zl_pending zl st) \<subseteq> set (zl_pending zl st') \<Longrightarrow> pending_nullifiers zl st \<subseteq> pending_nullifiers zl st'"
  by (fastforce simp: pending_nullifiers_def in_map_filter)

lemma spend_marks:
  assumes "wallet_ok zl" and "zl_spend zl st sk c = Some (st', inp)"
  shows "zl_coins zl st' = zl_coins zl st" and "pending_nullifiers zl st \<subseteq> pending_nullifiers zl st'"
    and "(nul, c) \<in> set (zl_coins zl st) \<Longrightarrow> zl_nul_ser zl nul = Some b \<Longrightarrow> b \<in> pending_nullifiers zl st'"
proof -
  have m: "zl_coins zl st' = zl_coins zl st" "set (zl_pending zl st) \<subseteq> set (zl_pending zl st')"
    "\<And>nul. (nul, c) \<in> set (zl_coins zl st) \<Longrightarrow> nul \<in> set (zl_pending zl st')"
    using assms unfolding wallet_ok_def by blast+
  show "zl_coins zl st' = zl_coins zl st" by (rule m(1))
  show "pending_nullifiers zl st \<subseteq> pending_nullifiers zl st'" by (rule pending_mono [OF m(2)])
  show "b \<in> pending_nullifiers zl st'" if "(nul, c) \<in> set (zl_coins zl st)" "zl_nul_ser zl nul = Some b"
    using m(3) [OF that(1)] that(2) by (auto simp: pending_nullifiers_def in_map_filter)
qed

lemma spend_all_marks:
  assumes "mapO (coin_entry hx zl) sel = Some es" and "spend_all hx jl zl seed st es = Some st'"
    and "hex_ok hx" "wallet_ok zl" "coins_parse jl"
  shows "zl_coins zl st' = zl_coins zl st \<and> pending_nullifiers zl st \<subseteq> pending_nullifiers zl st' \<and>
    (\<forall>(n, c) \<in> set sel. \<forall>nul b. (nul, c) \<in> set (zl_coins zl st) \<and> zl_nul_ser zl nul = Some b \<longrightarrow>
       b \<in> pending_nullifiers zl st')"
  using assms(1,2)
proof (induction sel arbitrary: es st)
  case (Cons nc sel)
  obtain n c where nc: "nc = (n, c)" by (cases nc)
  obtain e es' where e: "coin_entry hx zl (n, c) = Some e" "mapO (coin_entry hx zl) sel = Some es'" "es = e # es'"
    using Cons.prems(1) nc by (auto split: option.splits)
  obtain st1 where st1: "zr_new_state (zswap_spend_coin hx jl zl (Some st) (Some seed) 32 (Some e)) = Some st1"
    "spend_all hx jl zl seed st1 es' = Some st'"
    using Cons.prems(2) e(3) by (auto split: option.splits)
  obtain inp where "zl_spend zl st (zl_keys zl (slice_from seed 32)) c = Some (st1, inp)"
    using spend_coin_step [OF st1(1) coin_entry_read(1) [OF e(1) assms(3-5)]] by blast
  note m = spend_marks [OF assms(4) this]
  from Cons.IH [OF e(2) st1(2)] m nc show ?case by fastforce
qed simp

lemma spend_all_gone:
  assumes "pending_nullifiers zl st \<subseteq> pending_nullifiers zl st'" and "zl_coins zl st' = zl_coins zl st"
    and "gone hx zl st h"
  shows "gone hx zl st' h"
  using assms unfolding gone_def by fastforce

lemma matching_coin:
  assumes "(n, c) \<in> set (matching_coins zl st tok)" and "hex_ok hx"
  shows "\<not> gone hx zl st (hx_enc hx n)"
  using matching_coins_facts(2,3) [OF assms(1)] unfolding gone_def by fastforce

lemma matching_distinct:
  assumes "keyed zl st" and "wallet_ok zl"
  shows "distinct (map fst (matching_coins zl st tok))"
proof -
  have inj: "zl_nul_ser zl m = Some b \<Longrightarrow> zl_nul_ser zl n = Some b \<Longrightarrow> m = n" for m n b
    using assms(2) unfolding wallet_ok_def by blast
  have "distinct (map fst (List.map_filter (\<lambda>(nullifier, coin). if zc_type coin = tok then
           (case zl_nul_ser zl nullifier of None \<Rightarrow> None
            | Some nul_bytes \<Rightarrow> if nul_bytes \<in> P then None else Some (nul_bytes, coin)) else None) cs))"
    if "distinct (map fst cs)" for cs P
    using that
  proof (induction cs)
    case (Cons x cs)
    obtain nul coin where x: "x = (nul, coin)" by (cases x)
    show ?case
    proof (cases "zc_type coin = tok \<and> (\<exists>b. zl_nul_ser zl nul = Some b \<and> b \<notin> P)")
      case True
      then obtain b where b: "zc_type coin = tok" "zl_nul_ser zl nul = Some b" "b \<notin> P" by blast
      have "nul \<notin> fst ` set cs" using Cons.prems x by simp
      then have "b \<notin> fst ` set (List.map_filter (\<lambda>(nullifier, coin). if zc_type coin = tok then
           (case zl_nul_ser zl nullifier of None \<Rightarrow> None
            | Some nul_bytes \<Rightarrow> if nul_bytes \<in> P then None else Some (nul_bytes, coin)) else None) cs)"
        using inj [OF b(2)] by (force simp: in_map_filter split: if_splits option.splits)
      with Cons b x show ?thesis by (simp add: map_filter_simps)
    next
      case False
      with Cons x show ?thesis by (auto simp: map_filter_simps split: option.splits)
    qed
  qed (simp add: map_filter_simps)
  then show ?thesis using assms(1) unfolding keyed_def matching_coins_def by blast
qed

lemma distinct_sub:
  assumes "mset xs \<subseteq># mset ys" and "distinct (map f ys)"
  shows "distinct (map f xs)"
proof -
  obtain C where "mset ys = mset xs + C" using assms(1) by (metis mset_subset_eq_exists_conv)
  moreover obtain zs where "mset zs = C" by (metis ex_mset)
  ultimately have "mset (map f ys) = mset (map f (xs @ zs))" by simp
  then have "distinct (map f (xs @ zs))" using assms(2) by (metis mset_eq_imp_distinct_iff)
  then show ?thesis by simp
qed

lemma entries_bodies:
  assumes "mapO (coin_entry hx zl) sel = Some es" and "hex_ok hx"
  shows "\<exists>bodies. es = map (\<lambda>b. ''{'' @ b @ ''}'') bodies \<and> (\<forall>b \<in> set bodies. b \<noteq> [] \<and> CHR ''}'' \<notin> set b \<and> is_ascii b \<and> CHR 0x00 \<notin> set b)"
  using assms(1)
proof (induction sel arbitrary: es)
  case (Cons nc sel)
  obtain n c where nc: "nc = (n, c)" by (cases nc)
  obtain e es' where e: "coin_entry hx zl (n, c) = Some e" "mapO (coin_entry hx zl) sel = Some es'" "es = e # es'"
    using Cons.prems nc by (auto split: option.splits)
  obtain t v m i u where b: "e = ''{'' @ coin_body t v m i u @ ''}''" "set t \<union> set m \<union> set u \<subseteq> set hex_digits"
    using e(1) hex_enc_set [OF assms(2)] unfolding coin_entry_body by blast
  obtain bodies where "es' = map (\<lambda>b. ''{'' @ b @ ''}'') bodies"
    "\<forall>b \<in> set bodies. b \<noteq> [] \<and> CHR ''}'' \<notin> set b \<and> is_ascii b \<and> CHR 0x00 \<notin> set b"
    using Cons.IH [OF e(2)] by blast
  then have "es = map (\<lambda>b. ''{'' @ b @ ''}'') (coin_body t v m i u # bodies)"
    "\<forall>b \<in> set (coin_body t v m i u # bodies). b \<noteq> [] \<and> CHR ''}'' \<notin> set b \<and> is_ascii b \<and> CHR 0x00 \<notin> set b"
    using e(3) b body_plain [OF b(2)] by auto
  then show ?case by blast
qed simp

lemma selection_read:
  assumes "zswap_select_coins hx zl (Some st) tok amount = Some text" and "split text = Some coins"
    and "mapO (coin_nullifier jl) coins = Some ns"
    and ok: "hex_ok hx" "wallet_ok zl" "coins_parse jl" "arrays_split split"
  obtains sel tk am where "select_coins zl st tk am = Some sel" "mapO (coin_entry hx zl) sel = Some coins"
    "ns = map (hx_enc hx \<circ> fst) sel"
proof -
  obtain sel tk am entries where sel: "select_coins zl st tk am = Some sel"
    and en: "mapO (coin_entry hx zl) sel = Some entries" and printed: "text = ''['' @ str_join '','' entries @ '']''"
    using assms(1)
    by (auto simp: zswap_select_coins_def string_to_c_ptr_def cstring_new_eq_Some split: bind_splits)
  obtain bodies where b: "entries = map (\<lambda>b. ''{'' @ b @ ''}'') bodies" "\<forall>b \<in> set bodies. b \<noteq> [] \<and> CHR ''}'' \<notin> set b"
    using entries_bodies [OF en ok(1)] by blast
  then have "split text = Some entries" using ok(4) unfolding arrays_split_def printed b(1) by blast
  then have coins: "coins = entries" using assms(2) by simp
  have "mapO (coin_nullifier jl) entries = Some (map (hx_enc hx \<circ> fst) sel)"
    using en
  proof (induction sel arbitrary: entries)
    case (Cons nc sel)
    obtain n c where nc: "nc = (n, c)" by (cases nc)
    with Cons show ?case using coin_entry_read(2) [OF _ ok(1-3)] by (auto split: option.splits)
  qed simp
  with sel en coins assms(3) that show ?thesis by simp
qed

lemma payment_step:
  assumes sel: "select_coins zl st tk am = Some sel" and es: "mapO (coin_entry hx zl) sel = Some coins"
    and st': "spend_all hx jl zl seed st coins = Some st'" and "keyed zl st"
    and ok: "hex_ok hx" "wallet_ok zl" "coins_parse jl"
  shows "keyed zl st'" and "gone hx zl st h \<Longrightarrow> gone hx zl st' h"
    and "distinct (map (hx_enc hx \<circ> fst) sel)"
    and "h \<in> set (map (hx_enc hx \<circ> fst) sel) \<Longrightarrow> \<not> gone hx zl st h \<and> gone hx zl st' h"
proof -
  have m: "zl_coins zl st' = zl_coins zl st" "pending_nullifiers zl st \<subseteq> pending_nullifiers zl st'"
    and spent: "\<And>n c nul b. (n, c) \<in> set sel \<Longrightarrow> (nul, c) \<in> set (zl_coins zl st) \<Longrightarrow> zl_nul_ser zl nul = Some b \<Longrightarrow>
      b \<in> pending_nullifiers zl st'"
    using spend_all_marks [OF es st' ok] by blast+
  have sub: "mset sel \<subseteq># mset (matching_coins zl st tk)" using select_coins_sound [OF sel] by blast
  show "keyed zl st'" using assms(4) m(1) by (simp add: keyed_def)
  show "gone hx zl st h \<Longrightarrow> gone hx zl st' h" by (rule spend_all_gone [OF m(2,1)])
  have "distinct (map fst sel)" by (rule distinct_sub [OF sub matching_distinct [OF assms(4) ok(2)]])
  moreover have "inj (hx_enc hx)" by (simp add: inj_def hex_enc_inj [OF ok(1)])
  ultimately show "distinct (map (hx_enc hx \<circ> fst) sel)"
    by (metis distinct_map inj_on_subset map_map subset_UNIV)
  assume "h \<in> set (map (hx_enc hx \<circ> fst) sel)"
  then obtain n c where nc: "(n, c) \<in> set sel" "h = hx_enc hx n" by auto
  have match: "(n, c) \<in> set (matching_coins zl st tk)" using sub nc(1) by (metis mset_subset_eqD set_mset_mset)
  obtain nul where nul: "(nul, c) \<in> set (zl_coins zl st)" "zl_nul_ser zl nul = Some n"
    using matching_coins_facts(3) [OF match] by blast
  have "gone hx zl st' h"
    unfolding gone_def m(1)
  proof clarify
    fix nul' c' b assume c': "(nul', c') \<in> set (zl_coins zl st)" "zl_nul_ser zl nul' = Some b" "h = hx_enc hx b"
    then have "b = n" using nc(2) hex_enc_inj [OF ok(1)] by simp
    with c'(2) nul(2) ok(2) have "nul' = nul" unfolding wallet_ok_def by blast
    with c'(1) nul(1) assms(4) have "c' = c" unfolding keyed_def by (meson eq_key_imp_eq_value)
    with c' spent [OF nc(1)] show "b \<in> pending_nullifiers zl st'" by blast
  qed
  with matching_coin [OF match ok(1)] nc(2) show "\<not> gone hx zl st h \<and> gone hx zl st' h" by blast
qed

lemma payments_invariant:
  assumes "payments hx jl zl split st spent"
    and ok: "hex_ok hx" "wallet_ok zl" "coins_parse jl" "arrays_split split"
  shows "keyed zl st \<and> distinct spent \<and> (\<forall>h \<in> set spent. gone hx zl st h)"
  using assms(1)
proof (induction rule: payments.induct)
  case (pay st spent tok amount out coins ns seed st')
  obtain sel tk am where s: "select_coins zl st tk am = Some sel" "mapO (coin_entry hx zl) sel = Some coins"
    "ns = map (hx_enc hx \<circ> fst) sel"
    using selection_read [OF pay.hyps(2-4) ok] .
  have "keyed zl st" using pay.IH by blast
  note step = payment_step [OF s(1,2) pay.hyps(5) this ok(1-3), folded s(3)]
  from pay.IH step show ?case by auto
qed simp_all

subsection \<open>A concrete wallet\<close>

text \<open>A parser for objects of this shape: the text between quotes, and the index before its comma.\<close>

definition demo_coin_parser :: json_lib where
  "demo_coin_parser = \<lparr>jl_parse = (\<lambda>s. let p = str_split [CHR 0x22] s in
       if length p = 19 then
         (case parse_uint (2 ^ 64) (butlast (tl (p ! 14))) of None \<Rightarrow> None
          | Some i \<Rightarrow> Some (JObject [(''type_hex'', JString (p ! 3)), (''value'', JString (p ! 7)),
              (''nonce_hex'', JString (p ! 11)), (''mt_index'', json_u64 (of_nat i)), (''nullifier_hex'', JString (p ! 17))]))
       else None),
     jl_print = (\<lambda>v. [])\<rparr>"

definition demo_array_split :: "string \<Rightarrow> string list option" where
  "demo_array_split s = (if s = ''[]'' then Some []
     else Some (map (\<lambda>b. ''{'' @ b @ ''}'') (str_split ''},{'' (drop 2 (butlast (butlast s))))))"

lemma no_quote: "set h \<subseteq> set hex_digits \<Longrightarrow> CHR 0x22 \<notin> set h" "CHR 0x22 \<notin> set (show_word w)"
proof -
  show "set h \<subseteq> set hex_digits \<Longrightarrow> CHR 0x22 \<notin> set h" using hex_digits_exclude(4) by blast
  have "\<not> is_dec (CHR 0x22)" by code_simp
  then show "CHR 0x22 \<notin> set (show_word w)" using show_nat_digits [of "unat w"] by (auto simp: show_word_def)
qed

lemma demo_coins_parse: "coins_parse demo_coin_parser"
  unfolding coins_parse_def
proof (intro allI impI)
  fix t n u :: string and v :: u128 and i :: u64
  assume h: "set t \<union> set n \<union> set u \<subseteq> set hex_digits"
  let ?pieces = "[''{'', ''type_hex'', '':'', t, '','', ''value'', '':'', show_word v, '','', ''nonce_hex'', '':'', n, '','',
    ''mt_index'', '':'' @ show_word i @ '','', ''nullifier_hex'', '':'', u, ''}'']"
  have "str_split [CHR 0x22] (str_join [CHR 0x22] ?pieces) = ?pieces"
    using h no_quote(1) by (intro split_join_char) (auto simp: no_quote(2))
  moreover have "''{'' @ coin_body t v n i u @ ''}'' = str_join [CHR 0x22] ?pieces" by (simp add: coin_body_def)
  ultimately have "str_split [CHR 0x22] (''{'' @ coin_body t v n i u @ ''}'') = ?pieces" by metis
  moreover have "parse_uint (2 ^ 64) (show_word i) = Some (unat i)"
    using parse_show_nat [of "unat i" "2 ^ 64"] unat_bound [of i] by (simp add: show_word_def)
  ultimately show "\<exists>obj. jl_parse demo_coin_parser (''{'' @ coin_body t v n i u @ ''}'') = Some obj \<and>
      jget ''type_hex'' obj = Some (JString t) \<and> jget ''value'' obj = Some (JString (show_word v)) \<and>
      jget ''nonce_hex'' obj = Some (JString n) \<and> jget ''mt_index'' obj = Some (json_u64 i) \<and>
      jget ''nullifier_hex'' obj = Some (JString u)"
    by (simp add: demo_coin_parser_def butlast_append)
qed

lemma join_braces:
  "bs \<noteq> [] \<Longrightarrow> str_join '','' (map (\<lambda>b. ''{'' @ b @ ''}'') bs) = ''{'' @ str_join ''},{'' bs @ ''}''"
  by (induction bs rule: induct_list012) auto

lemma demo_arrays_split: "arrays_split demo_array_split"
  unfolding arrays_split_def
proof (intro allI impI)
  fix bodies assume b: "\<forall>b \<in> set bodies. b \<noteq> [] \<and> CHR ''}'' \<notin> set b"
  show "demo_array_split (''['' @ str_join '','' (map (\<lambda>b. ''{'' @ b @ ''}'') bodies) @ '']'')
      = Some (map (\<lambda>b. ''{'' @ b @ ''}'') bodies)"
  proof (cases "bodies = []")
    case False
    have "clean_piece ''},{'' b" if "b \<in> set bodies" for b
    proof -
      have "b ! k \<noteq> CHR ''}''" if "k < length b" for k using b \<open>b \<in> set bodies\<close> that nth_mem by fastforce
      then show ?thesis by (auto simp: clean_piece_def occurs_at_def take_Suc hd_drop_conv_nth nth_append)
    qed
    then have "str_split ''},{'' (str_join ''},{'' bodies) = bodies" using False by (intro split_join) auto
    then show ?thesis unfolding join_braces [OF False] by (simp add: demo_array_split_def butlast_append)
  qed (simp add: demo_array_split_def)
qed

definition demo_pay_lib :: "((u8 \<times> (u8, u8) coin) list \<times> u8 list, bytes, u8, u8, u8, u8) zswap_lib" where
  "demo_pay_lib = demo_zswap_lib\<lparr>zl_spend := (\<lambda>st k c.
     Some ((fst st, map fst (filter (\<lambda>p. snd p = c) (fst st)) @ snd st), zc_nonce c))\<rparr>"

lemma demo_wallet_ok: "wallet_ok demo_pay_lib"
  by (force simp: wallet_ok_def demo_pay_lib_def demo_zswap_lib_def)

lemma selection_made:
  assumes "select_coins zl st tk am = Some sel" and "mapO (coin_entry hx zl) sel = Some es"
    and "hex_ok hx" and "zl_tok_deser zl tb = Some tk"
  shows "zswap_select_coins hx zl (Some st) (Some (hx_enc hx tb)) (Some (show_word am))
    = Some (''['' @ str_join '','' es @ '']'')"
proof -
  obtain bodies where "es = map (\<lambda>b. ''{'' @ b @ ''}'') bodies" "\<forall>b \<in> set bodies. CHR 0x00 \<notin> set b"
    using entries_bodies [OF assms(2,3)] by blast
  then have "CHR 0x00 \<notin> set (str_join '','' es)" using set_str_join [of "'',''" es] by fastforce
  moreover have "cstr_to_str (show_word am) = Some (show_word am)"
    by (rule cstr_to_str_ascii) (simp add: show_word_def digits_plain(2) [OF show_nat_digits])
  ultimately show ?thesis
    using assms by (simp add: zswap_select_coins_def c_hex_deserialize_def c_hex_to_bytes_def c_str_to_rust_def
        cstr_to_str_ascii hex_enc_plain hex_dec_enc string_to_c_ptr_def cstring_new_def)
qed

lemma demo_spend:
  assumes "coin_entry ref_hex demo_pay_lib (n, c) = Some e" and "coin_exists demo_pay_lib st c"
  shows "zr_new_state (zswap_spend_coin ref_hex demo_coin_parser demo_pay_lib (Some st) (Some seed) 32 (Some e)) =
    Some (fst st, map fst (filter (\<lambda>p. snd p = c) (fst st)) @ snd st)"
proof -
  obtain t v m i u where "e = ''{'' @ coin_body t v m i u @ ''}''" "is_ascii (coin_body t v m i u)"
    using assms(1) hex_enc_set [OF ref_hex_ok] body_plain(3) unfolding coin_entry_body by (metis Un_least)
  then have "cstr_to_str e = Some e" by (intro cstr_to_str_ascii) (auto simp: is_ascii_def)
  then show ?thesis
    using coin_entry_read(1) [OF assms(1) ref_hex_ok demo_wallet_ok demo_coins_parse] assms(2)
    by (simp add: zswap_spend_coin_def c_str_to_rust_def string_to_c_ptr_def hex_pair_cstring ref_hex_ok)
      (simp add: demo_pay_lib_def demo_zswap_lib_def)
qed

text \<open>Two payments from a wallet of 50, 20, 10 and a pending coin: 25 takes 10 and 20, then 30 takes 50.\<close>

definition demo_pay_coin :: "u128 \<Rightarrow> u8 \<Rightarrow> u64 \<Rightarrow> (u8, u8) coin" where
  "demo_pay_coin v n i = \<lparr>zc_type = 0, zc_value = v, zc_nonce = n, zc_mt_index = i\<rparr>"

lemma demo_entry: "\<exists>e. coin_entry ref_hex demo_pay_lib (n, c) = Some e"
  unfolding coin_entry_body by (simp add: demo_pay_lib_def demo_zswap_lib_def)

lemma demo_payments:
  "payments ref_hex demo_coin_parser demo_pay_lib demo_array_split (fst demo_coins, [1, 2, 3, 9]) [''03'', ''02'', ''01'']"
proof -
  have hexes: "hx_enc ref_hex [0] = ''00''" "hx_enc ref_hex [1] = ''01''" "hx_enc ref_hex [2] = ''02''"
    "hx_enc ref_hex [3] = ''03''" by code_simp+
  obtain e1 e2 e3 where e: "coin_entry ref_hex demo_pay_lib ([3], demo_pay_coin 10 7 8) = Some e1"
    "coin_entry ref_hex demo_pay_lib ([2], demo_pay_coin 20 5 6) = Some e2"
    "coin_entry ref_hex demo_pay_lib ([1], demo_pay_coin 50 3 4) = Some e3"
    using demo_entry by metis
  have nuls: "coin_nullifier demo_coin_parser e1 = Some ''03''" "coin_nullifier demo_coin_parser e2 = Some ''02''"
    "coin_nullifier demo_coin_parser e3 = Some ''01''"
    using e [THEN coin_entry_read(2) [OF _ ref_hex_ok demo_wallet_ok demo_coins_parse]] by (simp_all add: hexes)
  have tok: "zl_tok_deser demo_pay_lib [0] = Some 0" by (simp add: demo_pay_lib_def demo_zswap_lib_def)
  have sel1: "select_coins demo_pay_lib demo_coins 0 25 = Some [([3], demo_pay_coin 10 7 8), ([2], demo_pay_coin 20 5 6)]"
    and sel2: "select_coins demo_pay_lib (fst demo_coins, [2, 3, 9]) 0 30 = Some [([1], demo_pay_coin 50 3 4)]"
    by code_simp+
  have all1: "spend_all ref_hex demo_coin_parser demo_pay_lib seed demo_coins [e1, e2] = Some (fst demo_coins, [2, 3, 9])"
    and all2: "spend_all ref_hex demo_coin_parser demo_pay_lib seed (fst demo_coins, [2, 3, 9]) [e3]
      = Some (fst demo_coins, [1, 2, 3, 9])" for seed
  proof -
    have ex: "coin_exists demo_pay_lib demo_coins (demo_pay_coin 10 7 8)"
      "coin_exists demo_pay_lib (fst demo_coins, [3, 9]) (demo_pay_coin 20 5 6)"
      "coin_exists demo_pay_lib (fst demo_coins, [2, 3, 9]) (demo_pay_coin 50 3 4)" by code_simp+
    have upd: "(fst demo_coins, map fst (filter (\<lambda>p. snd p = demo_pay_coin 10 7 8) (fst demo_coins)) @ snd demo_coins)
        = (fst demo_coins, [3, 9])"
      "map fst (filter (\<lambda>p. snd p = demo_pay_coin 20 5 6) (fst demo_coins)) = [2]"
      "map fst (filter (\<lambda>p. snd p = demo_pay_coin 50 3 4) (fst demo_coins)) = [1]"
      by (simp_all add: demo_coins_def demo_pay_coin_def)
    show "spend_all ref_hex demo_coin_parser demo_pay_lib seed demo_coins [e1, e2] = Some (fst demo_coins, [2, 3, 9])"
      "spend_all ref_hex demo_coin_parser demo_pay_lib seed (fst demo_coins, [2, 3, 9]) [e3]
        = Some (fst demo_coins, [1, 2, 3, 9])"
      by (simp_all add: demo_spend [OF e(1) ex(1)] upd demo_spend [OF e(2) ex(2)] demo_spend [OF e(3) ex(3)])
  qed
  have split1: "demo_array_split (''['' @ str_join '','' [e1, e2] @ '']'') = Some [e1, e2]"
    and split2: "demo_array_split (''['' @ str_join '','' [e3] @ '']'') = Some [e3]"
  proof -
    have "demo_array_split (''['' @ str_join '','' es @ '']'') = Some es"
      if "mapO (coin_entry ref_hex demo_pay_lib) sel = Some es" for sel es
      using entries_bodies [OF that ref_hex_ok] demo_arrays_split unfolding arrays_split_def by auto
    from this [of "[([3], demo_pay_coin 10 7 8), ([2], demo_pay_coin 20 5 6)]"]
      this [of "[([1], demo_pay_coin 50 3 4)]"] e
    show "demo_array_split (''['' @ str_join '','' [e1, e2] @ '']'') = Some [e1, e2]"
      "demo_array_split (''['' @ str_join '','' [e3] @ '']'') = Some [e3]" by simp_all
  qed
  have "keyed demo_pay_lib demo_coins" by code_simp
  note p0 = payments.start [OF this, of ref_hex demo_coin_parser demo_array_split]
  have "payments ref_hex demo_coin_parser demo_pay_lib demo_array_split (fst demo_coins, [2, 3, 9]) ([] @ [''03'', ''02''])"
    by (rule payments.pay [OF p0 selection_made [OF sel1 _ ref_hex_ok tok] split1 _ all1]) (simp_all add: e nuls)
  from payments.pay [OF this selection_made [OF sel2 _ ref_hex_ok tok] split2 _ all2]
  show ?thesis by (simp add: e nuls)
qed

subsection \<open>Properties\<close>




end
