(* ===== verification/ZswapTx.thy ===== *)
theory ZswapTx
  imports ZswapWallet DustSelect
begin

text \<open>
  Building shielded transactions in \<open>zswap_ffi.rs\<close>: outputs, offers, merging and validating
  offers, and the two transaction builders (with a pre-built dust transaction, and with dust
  spends made here). Offers, transactions and the typed JSON decoding that serde derives are
  parameters; random draws (nonce, output randomness, segment id) are fields of the record.
\<close>

record ('cpk, 'epk, 'tok, 'nonce, 'inp, 'out, 'offer, 'tx, 'spend, 'reg, 'bind, 'uoffer, 'act) ztx_lib =
  zt_cpk_deser :: "bytes \<Rightarrow> 'cpk option"
  zt_epk_deser :: "bytes \<Rightarrow> 'epk option"
  zt_tok_deser :: "bytes \<Rightarrow> 'tok option"
  zt_nonce :: 'nonce
  zt_new_output :: "'tok \<Rightarrow> u128 \<Rightarrow> 'nonce \<Rightarrow> 'cpk \<Rightarrow> 'epk \<Rightarrow> 'out option"
  zt_output_ser :: "'out \<Rightarrow> bytes option"
  zt_output_randomness_ser :: "'out \<Rightarrow> bytes option"
  zt_strings :: "string \<Rightarrow> string list option"
  zt_input_deser :: "bytes \<Rightarrow> 'inp option"
  zt_output_deser :: "bytes \<Rightarrow> 'out option"
  zt_offer_new :: "'inp list \<Rightarrow> 'out list \<Rightarrow> 'offer option"
  zt_offer_ser :: "'offer \<Rightarrow> bytes option"
  zt_offer_deser :: "bytes \<Rightarrow> 'offer option"
  zt_offer_randomness_ser :: "'offer \<Rightarrow> bytes option"
  zt_offer_merge :: "'offer \<Rightarrow> 'offer \<Rightarrow> 'offer option"
  zt_binding_default :: 'bind
  zt_binding_zero :: 'bind
  zt_new_tx :: "string \<Rightarrow> (u16 \<times> ('uoffer, 'act, ('spend, 'reg) dust_actions, 'bind) intent) list \<Rightarrow>
    'offer option \<Rightarrow> 'tx"
  zt_tx_merge :: "'tx \<Rightarrow> 'tx \<Rightarrow> 'tx option"
  zt_tx_ser :: "'tx \<Rightarrow> bytes option"
  zt_tx_deser :: "bytes \<Rightarrow> 'tx option"
  zt_segment :: u16
  zt_dust_sels :: "string \<Rightarrow> (usize \<times> string) list option"

definition zswap_create_output ::
    "hexlib \<Rightarrow> ('cpk, 'epk, 'tok, 'nonce, 'inp, 'out, 'offer, 'tx, 'spend, 'reg, 'bind, 'uoffer, 'act) ztx_lib \<Rightarrow>
     cptr \<Rightarrow> cptr \<Rightarrow> cptr \<Rightarrow> cptr \<Rightarrow> cptr" where
  "zswap_create_output hx zt recipient_coin_pk_hex recipient_enc_pk_hex token_type_hex amount_str = do {
     cpk_c \<leftarrow> recipient_coin_pk_hex; epk_c \<leftarrow> recipient_enc_pk_hex;
     tok_c \<leftarrow> token_type_hex; amount_c \<leftarrow> amount_str;
     coin_pk \<leftarrow> c_hex_deserialize hx (zt_cpk_deser zt) cpk_c;
     enc_pk \<leftarrow> c_hex_deserialize hx (zt_epk_deser zt) epk_c;
     token_type \<leftarrow> c_hex_deserialize hx (zt_tok_deser zt) tok_c;
     amount_s \<leftarrow> c_str_to_rust amount_c;
     amount \<leftarrow> parse_u128 amount_s;
     output \<leftarrow> zt_new_output zt token_type amount (zt_nonce zt) coin_pk enc_pk;
     output_bytes \<leftarrow> zt_output_ser zt output;
     br_bytes \<leftarrow> zt_output_randomness_ser zt output;
     string_to_c_ptr (hex_pair_json ''output_hex'' hx output_bytes br_bytes)
   }"

definition decode_hex_item :: "hexlib \<Rightarrow> (bytes \<Rightarrow> 'a option) \<Rightarrow> string \<Rightarrow> 'a option" where
  "decode_hex_item hx deser hex_str = do { bytes \<leftarrow> hx_dec hx hex_str; deser bytes }"

definition zswap_build_offer ::
    "hexlib \<Rightarrow> ('cpk, 'epk, 'tok, 'nonce, 'inp, 'out, 'offer, 'tx, 'spend, 'reg, 'bind, 'uoffer, 'act) ztx_lib \<Rightarrow>
     cptr \<Rightarrow> cptr \<Rightarrow> cptr" where
  "zswap_build_offer hx zt inputs_hex_json outputs_hex_json = do {
     inputs_c \<leftarrow> inputs_hex_json; outputs_c \<leftarrow> outputs_hex_json;
     inputs_str \<leftarrow> c_str_to_rust inputs_c;
     inputs_arr \<leftarrow> zt_strings zt inputs_str;
     outputs_str \<leftarrow> c_str_to_rust outputs_c;
     outputs_arr \<leftarrow> zt_strings zt outputs_str;
     assertO (\<not> (inputs_arr = [] \<and> outputs_arr = []));
     inputs \<leftarrow> mapO (decode_hex_item hx (zt_input_deser zt)) inputs_arr;
     outputs \<leftarrow> mapO (decode_hex_item hx (zt_output_deser zt)) outputs_arr;
     offer \<leftarrow> zt_offer_new zt inputs outputs;
     offer_bytes \<leftarrow> zt_offer_ser zt offer;
     br_bytes \<leftarrow> zt_offer_randomness_ser zt offer;
     string_to_c_ptr (hex_pair_json ''offer_hex'' hx offer_bytes br_bytes)
   }"

definition zswap_merge_offers ::
    "hexlib \<Rightarrow> ('cpk, 'epk, 'tok, 'nonce, 'inp, 'out, 'offer, 'tx, 'spend, 'reg, 'bind, 'uoffer, 'act) ztx_lib \<Rightarrow>
     cptr \<Rightarrow> cptr \<Rightarrow> cptr" where
  "zswap_merge_offers hx zt offer1_hex offer2_hex = do {
     offer1_c \<leftarrow> offer1_hex; offer2_c \<leftarrow> offer2_hex;
     bytes1 \<leftarrow> c_hex_to_bytes hx offer1_c;
     offer1 \<leftarrow> zt_offer_deser zt bytes1;
     bytes2 \<leftarrow> c_hex_to_bytes hx offer2_c;
     offer2 \<leftarrow> zt_offer_deser zt bytes2;
     merged \<leftarrow> zt_offer_merge zt offer1 offer2;
     merged_bytes \<leftarrow> zt_offer_ser zt merged;
     string_to_c_ptr (hx_enc hx merged_bytes)
   }"

definition zswap_serialize_offer ::
    "hexlib \<Rightarrow> ('cpk, 'epk, 'tok, 'nonce, 'inp, 'out, 'offer, 'tx, 'spend, 'reg, 'bind, 'uoffer, 'act) ztx_lib \<Rightarrow>
     cptr \<Rightarrow> cptr" where
  "zswap_serialize_offer hx zt offer_hex = do {
     offer_c \<leftarrow> offer_hex;
     bytes \<leftarrow> c_hex_to_bytes hx offer_c;
     offer \<leftarrow> zt_offer_deser zt bytes;
     scale_bytes \<leftarrow> zt_offer_ser zt offer;
     string_to_c_ptr (hx_enc hx scale_bytes)
   }"

text \<open>Merging the optional pre-built dust transaction: none, or an empty string, changes nothing.\<close>

definition merge_prebuilt_dust ::
    "hexlib \<Rightarrow> ('cpk, 'epk, 'tok, 'nonce, 'inp, 'out, 'offer, 'tx, 'spend, 'reg, 'bind, 'uoffer, 'act) ztx_lib \<Rightarrow>
     'tx \<Rightarrow> cptr \<Rightarrow> 'tx option" where
  "merge_prebuilt_dust hx zt transaction dust_tx_hex =
     (case dust_tx_hex of None \<Rightarrow> Some transaction
      | Some dust_c \<Rightarrow> do {
          dust_hex \<leftarrow> c_str_to_rust dust_c;
          if dust_hex = [] then Some transaction
          else do {
            dust_bytes \<leftarrow> c_hex_to_bytes hx dust_c;
            dust_transaction \<leftarrow> zt_tx_deser zt dust_bytes;
            zt_tx_merge zt transaction dust_transaction
          }
        })"

definition zswap_build_shielded_transaction ::
    "hexlib \<Rightarrow> ('cpk, 'epk, 'tok, 'nonce, 'inp, 'out, 'offer, 'tx, 'spend, 'reg, 'bind, 'uoffer, 'act) ztx_lib \<Rightarrow>
     cptr \<Rightarrow> cptr \<Rightarrow> cptr \<Rightarrow> u64 \<Rightarrow> cptr" where
  "zswap_build_shielded_transaction hx zt offer_hex network_id dust_tx_hex ttl_ms = do {
     offer_c \<leftarrow> offer_hex; network_c \<leftarrow> network_id;
     network_str \<leftarrow> c_str_to_rust network_c;
     offer_bytes \<leftarrow> c_hex_to_bytes hx offer_c;
     offer \<leftarrow> zt_offer_deser zt offer_bytes;
     let base_intent = \<lparr>in_guaranteed_offer = None, in_fallible_offer = None, in_actions = [],
       in_dust_actions = None, in_ttl = ttl_ms div 1000, in_binding = zt_binding_default zt\<rparr>;
     let transaction0 = zt_new_tx zt network_str [(1, base_intent)] (Some offer);
     transaction \<leftarrow> merge_prebuilt_dust hx zt transaction0 dust_tx_hex;
     bytes \<leftarrow> zt_tx_ser zt transaction;
     string_to_c_ptr (hx_enc hx bytes)
   }"

text \<open>Every selection is spent against the same wallet state; the states it yields are dropped.\<close>

definition spend_selection ::
    "('st, 'sk, 'utxo, 'spend, 'nul) dust_lib \<Rightarrow> 'st \<Rightarrow> 'sk \<Rightarrow> u64 \<Rightarrow> usize \<times> string \<Rightarrow> 'spend option" where
  "spend_selection dl dust_state dust_secret_key ctime = (\<lambda>(utxo_index, v_fee_str). do {
     v_fee \<leftarrow> parse_u128 v_fee_str;
     let all_utxos = dl_utxos dl dust_state;
     assertO (unat utxo_index < length all_utxos);
     let utxo = all_utxos ! unat utxo_index;
     (new_state, spend) \<leftarrow> dl_spend dl dust_state dust_secret_key utxo v_fee ctime;
     Some spend
   })"

definition dust_only_intent ::
    "('cpk, 'epk, 'tok, 'nonce, 'inp, 'out, 'offer, 'tx, 'spend, 'reg, 'bind, 'uoffer, 'act) ztx_lib \<Rightarrow>
     'spend list \<Rightarrow> u64 \<Rightarrow> u64 \<Rightarrow> ('uoffer, 'act, ('spend, 'reg) dust_actions, 'bind) intent" where
  "dust_only_intent zt dust_spends ctime ttl_ms =
     \<lparr>in_guaranteed_offer = None, in_fallible_offer = None, in_actions = [],
      in_dust_actions = Some \<lparr>da_spends = dust_spends, da_registrations = [], da_ctime = ctime\<rparr>,
      in_ttl = ttl_ms div 1000, in_binding = zt_binding_zero zt\<rparr>"

definition merge_dust_spends ::
    "('st, 'sk, 'utxo, 'spend, 'nul) dust_lib \<Rightarrow>
     ('cpk, 'epk, 'tok, 'nonce, 'inp, 'out, 'offer, 'tx, 'spend, 'reg, 'bind, 'uoffer, 'act) ztx_lib \<Rightarrow>
     'tx \<Rightarrow> string \<Rightarrow> 'st option \<Rightarrow> bytes option \<Rightarrow> usize \<Rightarrow> cptr \<Rightarrow> u64 \<Rightarrow> u64 \<Rightarrow> 'tx option" where
  "merge_dust_spends dl zt transaction network_str dust_state_ptr dust_seed_ptr dust_seed_len
       dust_utxos_json current_time_ms ttl_ms =
     (case (dust_state_ptr, dust_seed_ptr, dust_utxos_json) of
        (Some dust_state, Some seed_mem, Some utxos_c) \<Rightarrow>
          if dust_seed_len \<noteq> 32 then Some transaction
          else do {
            let dust_secret_key = dl_derive dl (slice_from seed_mem dust_seed_len);
            utxos_str \<leftarrow> c_str_to_rust utxos_c;
            utxo_selections \<leftarrow> zt_dust_sels zt utxos_str;
            let ctime = current_time_ms div 1000;
            dust_spends \<leftarrow> mapO (spend_selection dl dust_state dust_secret_key ctime) utxo_selections;
            if dust_spends = [] then Some transaction
            else do {
              let dust_intent = dust_only_intent zt dust_spends ctime ttl_ms;
              let dust_transaction = zt_new_tx zt network_str [(zt_segment zt, dust_intent)] None;
              zt_tx_merge zt transaction dust_transaction
            }
          }
      | _ \<Rightarrow> Some transaction)"

definition zswap_build_shielded_transaction_with_dust ::
    "hexlib \<Rightarrow> ('st, 'sk, 'utxo, 'spend, 'nul) dust_lib \<Rightarrow>
     ('cpk, 'epk, 'tok, 'nonce, 'inp, 'out, 'offer, 'tx, 'spend, 'reg, 'bind, 'uoffer, 'act) ztx_lib \<Rightarrow>
     cptr \<Rightarrow> cptr \<Rightarrow> 'st option \<Rightarrow> bytes option \<Rightarrow> usize \<Rightarrow> cptr \<Rightarrow> u64 \<Rightarrow> u64 \<Rightarrow> cptr" where
  "zswap_build_shielded_transaction_with_dust hx dl zt offer_hex network_id dust_state_ptr
       dust_seed_ptr dust_seed_len dust_utxos_json current_time_ms ttl_ms = do {
     offer_c \<leftarrow> offer_hex; network_c \<leftarrow> network_id;
     network_str \<leftarrow> c_str_to_rust network_c;
     offer_bytes \<leftarrow> c_hex_to_bytes hx offer_c;
     offer \<leftarrow> zt_offer_deser zt offer_bytes;
     let transaction0 = zt_new_tx zt network_str [] (Some offer);
     transaction \<leftarrow> merge_dust_spends dl zt transaction0 network_str dust_state_ptr dust_seed_ptr
       dust_seed_len dust_utxos_json current_time_ms ttl_ms;
     bytes \<leftarrow> zt_tx_ser zt transaction;
     string_to_c_ptr (hx_enc hx bytes)
   }"

subsection \<open>Lemmas\<close>

lemma offer_text_reads_back:
  assumes "hex_ok hx" and "\<And>o' b. zt_offer_ser zt o' = Some b \<Longrightarrow> zt_offer_deser zt b = Some o'"
    and "zt_offer_ser zt o1 = Some b"
  shows "zswap_serialize_offer hx zt (Some (hx_enc hx b)) = Some (hx_enc hx b)"
  using assms(2) [OF assms(3)] assms(1,3)
  by (simp add: zswap_serialize_offer_def c_hex_to_bytes_def c_str_to_rust_def cstr_to_str_ascii
      hex_enc_plain hex_dec_enc string_to_c_ptr_def hex_enc_cstring)

lemma spend_selections_nth:
  assumes "mapO (spend_selection dl st sk ct) sels = Some spends" and "i < length sels"
  shows "\<exists>v st'. parse_u128 (snd (sels ! i)) = Some v \<and> unat (fst (sels ! i)) < length (dl_utxos dl st) \<and>
    dl_spend dl st sk (dl_utxos dl st ! unat (fst (sels ! i))) v ct = Some (st', spends ! i)"
proof -
  have "map (spend_selection dl st sk ct) sels ! i = map Some spends ! i"
    using assms(1) by (simp add: mapO_eq_Some)
  then have "spend_selection dl st sk ct (sels ! i) = Some (spends ! i)"
    using assms(2) mapO_length [OF assms(1)] by simp
  then show ?thesis
    by (cases "sels ! i") (auto simp: spend_selection_def Let_def assertO_eq_Some bind_eq_Some_conv)
qed

definition demo_ztx_lib ::
    "(unit, unit, unit, unit, u8, u8, u8, bytes, u8, unit, unit, unit, unit) ztx_lib" where
  "demo_ztx_lib = \<lparr>zt_cpk_deser = (\<lambda>b. None), zt_epk_deser = (\<lambda>b. None), zt_tok_deser = (\<lambda>b. None),
     zt_nonce = (), zt_new_output = (\<lambda>t v n c e. None), zt_output_ser = (\<lambda>x. None),
     zt_output_randomness_ser = (\<lambda>x. None), zt_strings = (\<lambda>s. None), zt_input_deser = (\<lambda>b. None),
     zt_output_deser = (\<lambda>b. None), zt_offer_new = (\<lambda>i out. None), zt_offer_ser = (\<lambda>f. Some [f]),
     zt_offer_deser = (\<lambda>b. case b of [f] \<Rightarrow> Some f | _ \<Rightarrow> None), zt_offer_randomness_ser = (\<lambda>f. None),
     zt_offer_merge = (\<lambda>a b. Some (a + b)), zt_binding_default = (), zt_binding_zero = (),
     zt_new_tx = (\<lambda>n is f. []), zt_tx_merge = (\<lambda>a b. Some (a @ b)), zt_tx_ser = Some,
     zt_tx_deser = Some, zt_segment = 2, zt_dust_sels = (\<lambda>s. None)\<rparr>"

definition demo_ztx_dust :: "(u8 list, bytes, u8, u8, u8) dust_lib" where
  "demo_ztx_dust = \<lparr>dl_utxos = (\<lambda>st. st), dl_spend = (\<lambda>st sk u fee ts. Some (removeAll u st, u)),
     dl_old_nullifier = (\<lambda>sp. sp), dl_ser_nullifier = (\<lambda>n. Some [n]),
     dl_nullifier = (\<lambda>u sk. u), dl_derive = (\<lambda>b. b)\<rparr>"

subsection \<open>Properties\<close>

text \<open>
  With a lossless offer codec, what \<open>zswap_merge_offers\<close> returns passes
  \<open>zswap_serialize_offer\<close> unchanged: validation accepts a merged offer and gives the same text.
\<close>

theorem merged_offer_validates:
  assumes "zswap_merge_offers hx zt a b = Some r" and "hex_ok hx"
    and "\<And>o' bs. zt_offer_ser zt o' = Some bs \<Longrightarrow> zt_offer_deser zt bs = Some o'"
  shows "zswap_serialize_offer hx zt (Some r) = Some r"
proof -
  obtain m bs where m: "zt_offer_ser zt m = Some bs" "r = hx_enc hx bs"
    using assms(1)
    by (auto simp: zswap_merge_offers_def bind_eq_Some_conv string_to_c_ptr_def cstring_new_eq_Some)
  from offer_text_reads_back [OF assms(2,3) m(1)] show ?thesis by (simp add: m(2))
qed

theorem merged_offer_validates_witness:
  "zswap_serialize_offer ref_hex demo_ztx_lib (Some ''05'') = Some ''05''"
proof (rule merged_offer_validates)
  show "zswap_merge_offers ref_hex demo_ztx_lib (Some ''02'') (Some ''03'') = Some ''05''" by code_simp
qed (auto simp: ref_hex_ok demo_ztx_lib_def)



end
