(* ===== verification/TransferPipeline.thy ===== *)
theory TransferPipeline
  imports ShieldedPayment ZswapTx
begin

text \<open>
  A shielded transfer as the client runs it over \<open>zswap_ffi.rs\<close>: spend the selected coins one after
  the other (\<open>zswap_spend_coin\<close>), create the outputs (\<open>zswap_create_output\<close>), build the offer from
  their hex texts (\<open>zswap_build_offer\<close>) and the transaction from the offer's
  (\<open>zswap_build_shielded_transaction\<close>). Every value crosses the boundary as text, in JSON or hex.
  The specification calls the ledger directly, without any of it; the lemmas show that the calls
  compose to it.
\<close>

subsection \<open>The client\<close>

definition read_field :: "json_lib \<Rightarrow> string \<Rightarrow> string \<Rightarrow> string option" where
  "read_field jl name json = do { v \<leftarrow> jl_parse jl json; member \<leftarrow> jget name v; as_str member }"

definition show_strings :: "string list \<Rightarrow> string" where
  \<open>show_strings xs = ''['' @ str_join '','' (map (\<lambda>x. ''"'' @ x @ ''"'') xs) @ '']''\<close>

fun client_inputs ::
    "hexlib \<Rightarrow> json_lib \<Rightarrow> ('st, 'sk, 'tok, 'nonce, 'nul, 'inp) zswap_lib \<Rightarrow> bytes \<Rightarrow> 'st \<Rightarrow> string list \<Rightarrow>
     ('st \<times> string list) option" where
  "client_inputs hx jl zl seed st [] = Some (st, [])"
| "client_inputs hx jl zl seed st (coin_json # coins) =
     (let r = zswap_spend_coin hx jl zl (Some st) (Some seed) 32 (Some coin_json) in do {
        st1 \<leftarrow> zr_new_state r;
        result \<leftarrow> zr_result_json r;
        input_hex \<leftarrow> read_field jl ''input_hex'' result;
        (st2, hexes) \<leftarrow> client_inputs hx jl zl seed st1 coins;
        Some (st2, input_hex # hexes)
      })"

text \<open>What a recipient is given: the nonce drawn for its output, two keys, a token and an amount.\<close>

record 'nonce transfer_output =
  to_nonce :: 'nonce
  to_coin_pk :: string
  to_enc_pk :: string
  to_token :: string
  to_amount :: string

fun client_outputs ::
    "hexlib \<Rightarrow> json_lib \<Rightarrow> ('cpk, 'epk, 'tok, 'nonce, 'inp, 'out, 'offer, 'tx, 'spend, 'reg, 'bind, 'uoffer, 'act) ztx_lib \<Rightarrow>
     'nonce transfer_output list \<Rightarrow> string list option" where
  "client_outputs hx jl zt [] = Some []"
| "client_outputs hx jl zt (t # ts) = do {
     result \<leftarrow> zswap_create_output hx (zt\<lparr>zt_nonce := to_nonce t\<rparr>) (Some (to_coin_pk t))
       (Some (to_enc_pk t)) (Some (to_token t)) (Some (to_amount t));
     output_hex \<leftarrow> read_field jl ''output_hex'' result;
     hexes \<leftarrow> client_outputs hx jl zt ts;
     Some (output_hex # hexes)
   }"

definition client_transfer ::
    "hexlib \<Rightarrow> json_lib \<Rightarrow> ('st, 'sk, 'tok, 'nonce, 'nul, 'inp) zswap_lib \<Rightarrow>
     ('cpk, 'epk, 'tok, 'nonce, 'inp, 'out, 'offer, 'tx, 'spend, 'reg, 'bind, 'uoffer, 'act) ztx_lib \<Rightarrow>
     bytes \<Rightarrow> 'st \<Rightarrow> string list \<Rightarrow> 'nonce transfer_output list \<Rightarrow> string \<Rightarrow> u64 \<Rightarrow> ('st \<times> string) option" where
  "client_transfer hx jl zl zt seed st coins outputs network_id ttl_ms = do {
     (st', input_hexes) \<leftarrow> client_inputs hx jl zl seed st coins;
     output_hexes \<leftarrow> client_outputs hx jl zt outputs;
     offer_json \<leftarrow> zswap_build_offer hx zt (Some (show_strings input_hexes)) (Some (show_strings output_hexes));
     offer_hex \<leftarrow> read_field jl ''offer_hex'' offer_json;
     tx_hex \<leftarrow> zswap_build_shielded_transaction hx zt (Some offer_hex) (Some network_id) None ttl_ms;
     Some (st', tx_hex)
   }"

subsection \<open>The same transfer on the ledger's types\<close>

fun ledger_inputs ::
    "('st, 'sk, 'tok, 'nonce, 'nul, 'inp) zswap_lib \<Rightarrow> 'sk \<Rightarrow> 'st \<Rightarrow> ('tok, 'nonce) coin list \<Rightarrow>
     ('st \<times> 'inp list) option" where
  "ledger_inputs zl sk st [] = Some (st, [])"
| "ledger_inputs zl sk st (coin # coins) =
     (if coin_exists zl st coin then do {
        (st1, inp) \<leftarrow> zl_spend zl st sk coin;
        (st2, inps) \<leftarrow> ledger_inputs zl sk st1 coins;
        Some (st2, inp # inps)
      } else None)"

definition ledger_output ::
    "hexlib \<Rightarrow> ('cpk, 'epk, 'tok, 'nonce, 'inp, 'out, 'offer, 'tx, 'spend, 'reg, 'bind, 'uoffer, 'act) ztx_lib \<Rightarrow>
     'nonce transfer_output \<Rightarrow> 'out option" where
  "ledger_output hx zt t = do {
     coin_pk \<leftarrow> c_hex_deserialize hx (zt_cpk_deser zt) (to_coin_pk t);
     enc_pk \<leftarrow> c_hex_deserialize hx (zt_epk_deser zt) (to_enc_pk t);
     token \<leftarrow> c_hex_deserialize hx (zt_tok_deser zt) (to_token t);
     amount_s \<leftarrow> c_str_to_rust (to_amount t);
     amount \<leftarrow> parse_u128 amount_s;
     zt_new_output zt token amount (to_nonce t) coin_pk enc_pk
   }"

definition ledger_transfer ::
    "hexlib \<Rightarrow> json_lib \<Rightarrow> ('st, 'sk, 'tok, 'nonce, 'nul, 'inp) zswap_lib \<Rightarrow>
     ('cpk, 'epk, 'tok, 'nonce, 'inp, 'out, 'offer, 'tx, 'spend, 'reg, 'bind, 'uoffer, 'act) ztx_lib \<Rightarrow>
     bytes \<Rightarrow> 'st \<Rightarrow> string list \<Rightarrow> 'nonce transfer_output list \<Rightarrow> string \<Rightarrow> u64 \<Rightarrow> ('st \<times> 'tx) option" where
  "ledger_transfer hx jl zl zt seed st coin_texts outputs network_id ttl_ms = do {
     coins \<leftarrow> mapO (\<lambda>c. Option.bind (c_str_to_rust c) (\<lambda>s. res_ok (parse_qualified_coin_info hx jl zl s))) coin_texts;
     (st', inps) \<leftarrow> ledger_inputs zl (zl_keys zl (slice_from seed 32)) st coins;
     outs \<leftarrow> mapO (ledger_output hx zt) outputs;
     offer \<leftarrow> zt_offer_new zt inps outs;
     network \<leftarrow> c_str_to_rust network_id;
     Some (st', zt_new_tx zt network
       [(1, \<lparr>in_guaranteed_offer = None, in_fallible_offer = None, in_actions = [], in_dust_actions = None,
             in_ttl = ttl_ms div 1000, in_binding = zt_binding_default zt\<rparr>)] (Some offer))
   }"

subsection \<open>What the libraries document\<close>

text \<open>A parser reads the result objects the crate prints, and a list of hex texts reads back.\<close>

definition pairs_read :: "json_lib \<Rightarrow> bool" where
  "pairs_read jl \<longleftrightarrow> (\<forall>name \<in> {''input_hex'', ''output_hex'', ''offer_hex''}. \<forall>hx a b. hex_ok hx \<longrightarrow>
     jl_parse jl (hex_pair_json name hx a b) =
       Some (JObject [(name, JString (hx_enc hx a)), (''binding_randomness_hex'', JString (hx_enc hx b))]))"

definition lists_read :: "(string \<Rightarrow> string list option) \<Rightarrow> bool" where
  "lists_read parse \<longleftrightarrow> (\<forall>xs. (\<forall>x \<in> set xs. set x \<subseteq> set hex_digits) \<longrightarrow> parse (show_strings xs) = Some xs)"

text \<open>Inputs, outputs and offers have encodings, which read back; so have their random parts.\<close>

definition codecs_ok ::
    "('st, 'sk, 'tok, 'nonce, 'nul, 'inp) zswap_lib \<Rightarrow>
     ('cpk, 'epk, 'tok, 'nonce, 'inp, 'out, 'offer, 'tx, 'spend, 'reg, 'bind, 'uoffer, 'act) ztx_lib \<Rightarrow> bool" where
  "codecs_ok zl zt \<longleftrightarrow>
     (\<forall>x. \<exists>b. zl_input_ser zl x = Some b \<and> zt_input_deser zt b = Some x) \<and>
     (\<forall>x. \<exists>b. zt_output_ser zt x = Some b \<and> zt_output_deser zt b = Some x) \<and>
     (\<forall>x. \<exists>b. zt_offer_ser zt x = Some b \<and> zt_offer_deser zt b = Some x) \<and>
     (\<forall>x. zl_input_randomness_ser zl x \<noteq> None) \<and> (\<forall>x. zt_output_randomness_ser zt x \<noteq> None) \<and>
     (\<forall>x. zt_offer_randomness_ser zt x \<noteq> None)"

abbreviation "input_text hx zl x \<equiv> hx_enc hx (the (zl_input_ser zl x))"
abbreviation "output_text hx zt x \<equiv> hx_enc hx (the (zt_output_ser zt x))"
abbreviation "offer_text hx zt x \<equiv> hx_enc hx (the (zt_offer_ser zt x))"

lemma codec_cases:
  assumes "codecs_ok zl zt"
  obtains (enc) ib ob fb ir outr fr where "zl_input_ser zl = Some \<circ> ib" "zt_output_ser zt = Some \<circ> ob"
    "zt_offer_ser zt = Some \<circ> fb" "zl_input_randomness_ser zl = Some \<circ> ir"
    "zt_output_randomness_ser zt = Some \<circ> outr" "zt_offer_randomness_ser zt = Some \<circ> fr"
    "\<And>x. zt_input_deser zt (ib x) = Some x" "\<And>x. zt_output_deser zt (ob x) = Some x"
    "\<And>x. zt_offer_deser zt (fb x) = Some x"
proof -
  have fn: "f = Some \<circ> (\<lambda>x. the (f x))" if "\<forall>x. f x \<noteq> None" for f :: "'z \<Rightarrow> bytes option"
    using that by (auto simp: fun_eq_iff)
  show ?thesis
    by (rule enc [of "\<lambda>x. the (zl_input_ser zl x)" "\<lambda>x. the (zt_output_ser zt x)" "\<lambda>x. the (zt_offer_ser zt x)"
        "\<lambda>x. the (zl_input_randomness_ser zl x)" "\<lambda>x. the (zt_output_randomness_ser zt x)"
        "\<lambda>x. the (zt_offer_randomness_ser zt x)"])
      (use assms in \<open>auto simp: codecs_ok_def intro!: fn; metis option.sel\<close>)+
qed

lemma read_pair:
  assumes "pairs_read jl" "hex_ok hx" "name \<in> {''input_hex'', ''output_hex'', ''offer_hex''}"
  shows "read_field jl name (hex_pair_json name hx a b) = Some (hx_enc hx a)"
  using assms by (auto simp: pairs_read_def read_field_def)

lemma pair_cstring:
  assumes "hex_ok hx" "name \<in> {''input_hex'', ''output_hex'', ''offer_hex''}"
  shows "string_to_c_ptr (hex_pair_json name hx a b) = Some (hex_pair_json name hx a b)"
  unfolding string_to_c_ptr_def using assms by (intro hex_pair_cstring) auto

subsection \<open>Each call against the ledger\<close>

lemma client_inputs_ledger:
  assumes ok: "hex_ok hx" "pairs_read jl" "codecs_ok zl zt"
  shows "client_inputs hx jl zl seed st texts =
    Option.bind (mapO (\<lambda>c. Option.bind (c_str_to_rust c) (\<lambda>s. res_ok (parse_qualified_coin_info hx jl zl s))) texts)
      (\<lambda>coins. map_option (\<lambda>(st', inps). (st', map (input_text hx zl) inps))
        (ledger_inputs zl (zl_keys zl (slice_from seed 32)) st coins))"
proof (induction texts arbitrary: st)
  case (Cons c texts)
  obtain ib ir where enc: "zl_input_ser zl = Some \<circ> ib" "zl_input_randomness_ser zl = Some \<circ> ir"
    using ok(3) by (rule codec_cases)
  let ?sk = "zl_keys zl (slice_from seed 32)"
  show ?case
  proof (cases "Option.bind (c_str_to_rust c) (\<lambda>s. res_ok (parse_qualified_coin_info hx jl zl s))")
    case None
    then have "zr_new_state (zswap_spend_coin hx jl zl (Some st) (Some seed) 32 (Some c)) = None"
      by (auto simp: zswap_spend_coin_def zswap_null_result_def split: option.splits bind_splits)
    with None show ?thesis by (simp add: Let_def)
  next
    case (Some coin)
    then have "zswap_spend_coin hx jl zl (Some st) (Some seed) 32 (Some c) =
      (if coin_exists zl st coin then (case zl_spend zl st ?sk coin of None \<Rightarrow> zswap_null_result
         | Some (st1, x) \<Rightarrow> \<lparr>zr_new_state = Some st1,
             zr_result_json = Some (hex_pair_json ''input_hex'' hx (ib x) (ir x))\<rparr>) else zswap_null_result)"
      using enc pair_cstring [OF ok(1)]
      by (auto simp: zswap_spend_coin_def assertO_def split: option.splits bind_splits)
    with Some Cons.IH show ?thesis
      using read_pair [OF ok(2,1)] enc(1)
      by (auto simp: zswap_null_result_def Let_def split: option.splits bind_splits prod.splits)
  qed
qed simp

lemma client_outputs_ledger:
  assumes ok: "hex_ok hx" "pairs_read jl" "codecs_ok zl zt"
  shows "client_outputs hx jl zt ts = map_option (map (output_text hx zt)) (mapO (ledger_output hx zt) ts)"
proof (induction ts)
  case (Cons t ts)
  obtain ob outr where enc: "zt_output_ser zt = Some \<circ> ob" "zt_output_randomness_ser zt = Some \<circ> outr"
    using ok(3) by (rule codec_cases)
  have "zswap_create_output hx (zt\<lparr>zt_nonce := to_nonce t\<rparr>) (Some (to_coin_pk t)) (Some (to_enc_pk t))
      (Some (to_token t)) (Some (to_amount t)) =
    map_option (\<lambda>x. hex_pair_json ''output_hex'' hx (ob x) (outr x)) (ledger_output hx zt t)"
    using enc pair_cstring [OF ok(1)]
    by (auto simp: zswap_create_output_def ledger_output_def split: option.splits bind_splits)
  then show ?case
    using Cons.IH read_pair [OF ok(2,1)] enc(1) by (auto split: option.splits)
qed simp

lemma show_strings_ascii:
  assumes "\<And>x. x \<in> set xs \<Longrightarrow> set x \<subseteq> set hex_digits"
  shows "is_ascii (show_strings xs)"
proof -
  have "is_ascii x" if "x \<in> set xs" for x
    using assms [OF that] hex_digit_range by (auto simp: is_ascii_def)
  moreover have "c = CHR '','' \<or> c = CHR 0x22 \<or> (\<exists>x \<in> set xs. c \<in> set x)"
    if "c \<in> set (str_join '','' (map (\<lambda>x. [CHR 0x22] @ x @ [CHR 0x22]) xs))" for c
    using subsetD [OF set_str_join that] by (auto split: if_splits)
  ultimately have "(of_char c :: nat) < 128"
    if "c \<in> set (str_join '','' (map (\<lambda>x. [CHR 0x22] @ x @ [CHR 0x22]) xs))" for c
    using that by (fastforce simp: is_ascii_def)
  then show ?thesis by (simp add: show_strings_def is_ascii_def)
qed

lemma texts_read:
  assumes "hex_ok hx" "lists_read parse"
  shows "Option.bind (c_str_to_rust (show_strings (map (\<lambda>x. hx_enc hx (enc x)) xs))) parse =
    Some (map (\<lambda>x. hx_enc hx (enc x)) xs)"
proof -
  have hex: "set x \<subseteq> set hex_digits" if "x \<in> set (map (\<lambda>x. hx_enc hx (enc x)) xs)" for x
    using that hex_enc_set [OF assms(1)] by auto
  from show_strings_ascii [OF hex] have "c_str_to_rust (show_strings (map (\<lambda>x. hx_enc hx (enc x)) xs)) =
      Some (show_strings (map (\<lambda>x. hx_enc hx (enc x)) xs))"
    by (simp only: c_str_to_rust_def cstr_to_str_ascii)
  moreover have "parse (show_strings (map (\<lambda>x. hx_enc hx (enc x)) xs)) = Some (map (\<lambda>x. hx_enc hx (enc x)) xs)"
    using assms(2) hex unfolding lists_read_def by blast
  ultimately show ?thesis by simp
qed

lemma items_decode:
  assumes "hex_ok hx" "\<And>x. deser (enc x) = Some x"
  shows "mapO (decode_hex_item hx deser) (map (\<lambda>x. hx_enc hx (enc x)) xs) = Some xs"
  by (induction xs) (simp_all add: decode_hex_item_def hex_dec_enc [OF assms(1)] assms(2))

lemma build_offer_ledger:
  assumes ok: "hex_ok hx" "codecs_ok zl zt" "lists_read (zt_strings zt)" and ne: "inps \<noteq> [] \<or> outs \<noteq> []"
  shows "zswap_build_offer hx zt (Some (show_strings (map (input_text hx zl) inps)))
      (Some (show_strings (map (output_text hx zt) outs))) =
    map_option (\<lambda>x. hex_pair_json ''offer_hex'' hx (the (zt_offer_ser zt x)) (the (zt_offer_randomness_ser zt x)))
      (zt_offer_new zt inps outs)"
proof -
  obtain ib ob fb fr where enc: "zl_input_ser zl = Some \<circ> ib" "zt_output_ser zt = Some \<circ> ob"
    "zt_offer_ser zt = Some \<circ> fb" "zt_offer_randomness_ser zt = Some \<circ> fr"
    and dec: "\<And>x. zt_input_deser zt (ib x) = Some x" "\<And>x. zt_output_deser zt (ob x) = Some x"
    using codec_cases [OF ok(2)] by metis
  show ?thesis
    using texts_read [OF ok(1,3), of ib inps] texts_read [OF ok(1,3), of ob outs] ne
      items_decode [OF ok(1) dec(1), of inps] items_decode [OF ok(1) dec(2), of outs] pair_cstring [OF ok(1)] enc
    by (auto simp: zswap_build_offer_def assertO_def bind_eq_Some_conv split: option.splits bind_splits)
qed

lemma build_transaction_ledger:
  assumes ok: "hex_ok hx" "codecs_ok zl zt"
  shows "zswap_build_shielded_transaction hx zt (Some (offer_text hx zt offer)) (Some network_id) None ttl_ms =
    Option.bind (c_str_to_rust network_id) (\<lambda>network. map_option (hx_enc hx) (zt_tx_ser zt (zt_new_tx zt network
      [(1, \<lparr>in_guaranteed_offer = None, in_fallible_offer = None, in_actions = [], in_dust_actions = None,
            in_ttl = ttl_ms div 1000, in_binding = zt_binding_default zt\<rparr>)] (Some offer))))"
proof -
  obtain fb where enc: "zt_offer_ser zt = Some \<circ> fb" and dec: "\<And>x. zt_offer_deser zt (fb x) = Some x"
    using codec_cases [OF ok(2)] by metis
  then have "Option.bind (c_hex_to_bytes hx (offer_text hx zt offer)) (zt_offer_deser zt) = Some offer"
    by (simp add: c_hex_to_bytes_def c_str_to_rust_def cstr_to_str_ascii hex_enc_plain [OF ok(1)] hex_dec_enc [OF ok(1)])
  then show ?thesis
    by (auto simp: zswap_build_shielded_transaction_def merge_prebuilt_dust_def bind_eq_Some_conv
        string_to_c_ptr_def hex_enc_cstring [OF ok(1)] split: option.splits bind_splits)
qed

subsection \<open>The transfer\<close>

lemma ledger_inputs_length: "ledger_inputs zl sk st cs = Some (st', inps) \<Longrightarrow> length inps = length cs"
  by (induction cs arbitrary: st inps) (auto split: if_splits bind_splits)

text \<open>
  C6. Running a shielded transfer through the FFI, text by text, is the ledger's own transfer: it
  spends exactly the given coins, in order, from the wallet's successive states, pays each recipient
  the stated amount of the stated token under the stated keys, and gives the encoding of the one
  transaction over that offer; it fails exactly when a ledger step or the decoding of an argument
  does. Nothing is lost or changed on the way through JSON and hex.
\<close>

theorem transfer_is_ledger_transfer:
  assumes "hex_ok hx" "pairs_read jl" "lists_read (zt_strings zt)" "codecs_ok zl zt"
    and "coins \<noteq> [] \<or> outputs \<noteq> []"
  shows "client_transfer hx jl zl zt seed st coins outputs network_id ttl_ms =
    Option.bind (ledger_transfer hx jl zl zt seed st coins outputs network_id ttl_ms)
      (\<lambda>(st', tx). map_option (\<lambda>bytes. (st', hx_enc hx bytes)) (zt_tx_ser zt tx))"
proof -
  let ?parse = "\<lambda>c. Option.bind (c_str_to_rust c) (\<lambda>s. res_ok (parse_qualified_coin_info hx jl zl s))"
  let ?sk = "zl_keys zl (slice_from seed 32)"
  show ?thesis
  proof (cases "mapO ?parse coins")
    case (Some cs)
    show ?thesis
    proof (cases "ledger_inputs zl ?sk st cs")
      case (Some r)
      obtain st' inps where r: "r = (st', inps)" by (cases r)
      have "length inps = length coins"
        using ledger_inputs_length [OF Some [unfolded r]] mapO_length [OF \<open>mapO ?parse coins = Some cs\<close>] by simp
      then have ne: "inps \<noteq> [] \<or> outs \<noteq> []" if "mapO (ledger_output hx zt) outputs = Some outs" for outs
        using assms(5) mapO_length [OF that] by auto
      show ?thesis
        using Some \<open>mapO ?parse coins = Some cs\<close> r build_offer_ledger [OF assms(1,4,3) ne]
          build_transaction_ledger [OF assms(1,4)] read_pair [OF assms(2,1)]
        by (auto simp: client_transfer_def ledger_transfer_def client_inputs_ledger [OF assms(1,2,4)]
            client_outputs_ledger [OF assms(1,2,4)] split: option.splits bind_splits)
    qed (simp add: client_transfer_def ledger_transfer_def client_inputs_ledger [OF assms(1,2,4)] Some)
  qed (simp add: client_transfer_def ledger_transfer_def client_inputs_ledger [OF assms(1,2,4)])
qed

subsection \<open>A concrete transfer\<close>

definition demo_pair_parser :: json_lib where
  "demo_pair_parser = \<lparr>jl_parse = (\<lambda>s. let p = str_split [CHR 0x22] s in
       if length p = 9 then Some (JObject [(p ! 1, JString (p ! 3)), (p ! 5, JString (p ! 7))])
       else jl_parse demo_coin_parser s),
     jl_print = (\<lambda>v. [])\<rparr>"

definition demo_strings :: "string \<Rightarrow> string list option" where
  "demo_strings s = (if s = ''[]'' then Some []
     else Some (str_split [CHR 0x22, CHR '','', CHR 0x22] (drop 2 (butlast (butlast s)))))"

lemma demo_pairs_read: "pairs_read demo_pair_parser"
  unfolding pairs_read_def
proof (intro ballI allI impI)
  fix name hx a b assume name: "name \<in> {''input_hex'', ''output_hex'', ''offer_hex''}" and hx: "hex_ok hx"
  let ?pieces = "[''{'', name, '':'', hx_enc hx a, '','', ''binding_randomness_hex'', '':'', hx_enc hx b, ''}'']"
  have "str_split [CHR 0x22] (str_join [CHR 0x22] ?pieces) = ?pieces"
    using name no_quote(1) hex_enc_set [OF hx] by (intro split_join_char) auto
  moreover have "hex_pair_json name hx a b = str_join [CHR 0x22] ?pieces" by (simp add: hex_pair_json_def)
  ultimately have "str_split [CHR 0x22] (hex_pair_json name hx a b) = ?pieces" by metis
  then show "jl_parse demo_pair_parser (hex_pair_json name hx a b) =
      Some (JObject [(name, JString (hx_enc hx a)), (''binding_randomness_hex'', JString (hx_enc hx b))])"
    by (simp add: demo_pair_parser_def)
qed

lemma join_quoted:
  \<open>xs \<noteq> [] \<Longrightarrow> str_join '','' (map (\<lambda>x. ''"'' @ x @ ''"'') xs) =
     ''"'' @ str_join [CHR 0x22, CHR '','', CHR 0x22] xs @ ''"''\<close>
  by (induction xs rule: induct_list012) auto

lemma demo_lists_read: "lists_read demo_strings"
  unfolding lists_read_def
proof (intro allI impI)
  fix xs assume hex: "\<forall>x \<in> set xs. set x \<subseteq> set hex_digits"
  let ?sep = "[CHR 0x22, CHR '','', CHR 0x22]"
  show "demo_strings (show_strings xs) = Some xs"
  proof (cases "xs = []")
    case False
    have "clean_piece ?sep x" if "x \<in> set xs" for x
    proof -
      have "x ! k \<noteq> CHR 0x22" if "k < length x" for k
        using no_quote(1) [of x] hex \<open>x \<in> set xs\<close> that nth_mem [of k x] by metis
      then show ?thesis by (auto simp: clean_piece_def occurs_at_def take_Suc hd_drop_conv_nth nth_append)
    qed
    then have "str_split ?sep (str_join ?sep xs) = xs" using False by (intro split_join) auto
    then show ?thesis using join_quoted [OF False] by (simp add: demo_strings_def show_strings_def butlast_append)
  qed (simp add: demo_strings_def show_strings_def)
qed

text \<open>An output is its token, amount, nonce and keys as bytes; an offer puts inputs and outputs in a row.\<close>

definition demo_transfer_lib ::
    "(u8, u8, u8, u8, u8, bytes, bytes, bytes, unit, unit, unit, unit, unit) ztx_lib" where
  "demo_transfer_lib = \<lparr>zt_cpk_deser = (\<lambda>b. case b of [k] \<Rightarrow> Some k | _ \<Rightarrow> None),
     zt_epk_deser = (\<lambda>b. case b of [k] \<Rightarrow> Some k | _ \<Rightarrow> None),
     zt_tok_deser = (\<lambda>b. case b of [t] \<Rightarrow> Some t | _ \<Rightarrow> None), zt_nonce = 0,
     zt_new_output = (\<lambda>t v n c e. Some [t, ucast v, n, c, e]), zt_output_ser = Some,
     zt_output_randomness_ser = (\<lambda>x. Some [1]), zt_strings = demo_strings,
     zt_input_deser = (\<lambda>b. case b of [i] \<Rightarrow> Some i | _ \<Rightarrow> None), zt_output_deser = Some,
     zt_offer_new = (\<lambda>inps outs. Some (inps @ concat outs)), zt_offer_ser = Some, zt_offer_deser = Some,
     zt_offer_randomness_ser = (\<lambda>f. Some [2]), zt_offer_merge = (\<lambda>a b. Some (a @ b)),
     zt_binding_default = (), zt_binding_zero = (),
     zt_new_tx = (\<lambda>n is f. case f of Some x \<Rightarrow> x | None \<Rightarrow> []), zt_tx_merge = (\<lambda>a b. Some (a @ b)),
     zt_tx_ser = Some, zt_tx_deser = Some, zt_segment = 2, zt_dust_sels = (\<lambda>s. None)\<rparr>"

lemma demo_codecs_ok: "codecs_ok demo_pay_lib demo_transfer_lib"
  by (simp add: codecs_ok_def demo_pay_lib_def demo_zswap_lib_def demo_transfer_lib_def)

lemma demo_pair_coins: "coins_parse demo_pair_parser"
proof -
  have more: "jl_parse demo_coin_parser s = Some obj \<and> P obj \<Longrightarrow> jl_parse demo_pair_parser s = Some obj \<and> P obj"
    for s obj P
    by (simp add: demo_pair_parser_def demo_coin_parser_def Let_def split: if_splits)
  show ?thesis
    unfolding coins_parse_def
  proof (intro allI impI)
    fix t n u :: string and v :: u128 and i :: u64
    assume "set t \<union> set n \<union> set u \<subseteq> set hex_digits"
    from demo_coins_parse [unfolded coins_parse_def, rule_format, OF this, of v i]
    show "\<exists>obj. jl_parse demo_pair_parser (''{'' @ coin_body t v n i u @ ''}'') = Some obj \<and>
        jget ''type_hex'' obj = Some (JString t) \<and> jget ''value'' obj = Some (JString (show_word v)) \<and>
        jget ''nonce_hex'' obj = Some (JString n) \<and> jget ''mt_index'' obj = Some (json_u64 i) \<and>
        jget ''nullifier_hex'' obj = Some (JString u)"
      by (elim exE) (rule exI, erule more)
  qed
qed

text \<open>The coin of 10 is spent; 6 of token 0 go to the keys 1 and 2 with nonce 9.\<close>

definition demo_output :: "u8 transfer_output" where
  "demo_output = \<lparr>to_nonce = 9, to_coin_pk = ''01'', to_enc_pk = ''02'', to_token = ''00'',
     to_amount = show_word (6 :: u128)\<rparr>"

lemma demo_ledger_transfer:
  assumes e: "coin_entry ref_hex demo_pay_lib ([3], demo_pay_coin 10 7 8) = Some e"
  shows "ledger_transfer ref_hex demo_pair_parser demo_pay_lib demo_transfer_lib seed demo_coins [e] [demo_output] ''net'' 5 =
    Some ((fst demo_coins, [3, 9]), [7, 0, 6, 9, 1, 2])"
proof -
  have "is_ascii e"
    using entries_bodies [of ref_hex demo_pay_lib "[([3], demo_pay_coin 10 7 8)]" "[e]"] e ref_hex_ok
    by (auto simp: is_ascii_def)
  then have coin: "Option.bind (c_str_to_rust e) (\<lambda>s. res_ok (parse_qualified_coin_info ref_hex demo_pair_parser demo_pay_lib s))
      = Some (demo_pay_coin 10 7 8)"
    using coin_entry_read(1) [OF e ref_hex_ok demo_wallet_ok demo_pair_coins]
    by (simp add: c_str_to_rust_def cstr_to_str_ascii)
  have "coin_exists demo_pay_lib demo_coins (demo_pay_coin 10 7 8)" by code_simp
  then have "ledger_inputs demo_pay_lib sk demo_coins [demo_pay_coin 10 7 8] = Some ((fst demo_coins, [3, 9]), [7])" for sk
    by (simp add: demo_pay_lib_def demo_zswap_lib_def demo_coins_def demo_pay_coin_def)
  moreover have "cstr_to_str (show_word (6 :: u128)) = Some (show_word (6 :: u128))"
    by (rule cstr_to_str_ascii) (simp add: show_word_def digits_plain(2) [OF show_nat_digits])
  then have "ledger_output ref_hex demo_transfer_lib demo_output = Some [0, 6, 9, 1, 2]"
    by (simp add: ledger_output_def demo_output_def c_hex_deserialize_def c_hex_to_bytes_def c_str_to_rust_def
        cstr_to_str_ascii is_ascii_def demo_transfer_lib_def) (simp add: ref_hex_def hex_val_def)
  moreover have "c_str_to_rust ''net'' = Some ''net''" by (simp add: c_str_to_rust_def cstr_to_str_ascii is_ascii_def)
  ultimately show ?thesis
    using coin by (simp add: ledger_transfer_def) (simp add: demo_transfer_lib_def)
qed

theorem transfer_is_ledger_transfer_witness:
  "\<exists>coin. client_transfer ref_hex demo_pair_parser demo_pay_lib demo_transfer_lib [1] demo_coins [coin] [demo_output]
      ''net'' 5 = Some ((fst demo_coins, [3, 9]), ''070006090102'')"
proof -
  obtain e where e: "coin_entry ref_hex demo_pay_lib ([3], demo_pay_coin 10 7 8) = Some e"
    using demo_entry by blast
  have "lists_read (zt_strings demo_transfer_lib)" by (simp add: demo_transfer_lib_def demo_lists_read)
  then have "client_transfer ref_hex demo_pair_parser demo_pay_lib demo_transfer_lib [1] demo_coins [e] [demo_output] ''net'' 5 =
      Option.bind (ledger_transfer ref_hex demo_pair_parser demo_pay_lib demo_transfer_lib [1] demo_coins [e] [demo_output] ''net'' 5)
        (\<lambda>(st', tx). map_option (\<lambda>bytes. (st', hx_enc ref_hex bytes)) (zt_tx_ser demo_transfer_lib tx))"
    by (rule transfer_is_ledger_transfer [OF ref_hex_ok demo_pairs_read _ demo_codecs_ok]) simp
  moreover have "hx_enc ref_hex [7, 0, 6, 9, 1, 2] = ''070006090102''" by code_simp
  moreover have "zt_tx_ser demo_transfer_lib = Some" by (simp add: demo_transfer_lib_def)
  ultimately show ?thesis
    by (intro exI [of _ e]) (simp only: demo_ledger_transfer [OF e] Option.bind.simps prod.case option.map)
qed

end
