(* ===== verification/ReplayParity.thy ===== *)
theory ReplayParity
  imports Replay
begin

text \<open>
  The ways \<open>zswap_ffi.rs\<close> replays shielded events agree: the one-shot replay of the ledger, the
  chunked helper, the file entry point (one tagged event in hex per line) and the in-memory entry
  point (the same texts glued together, split at the tag, decoded without it).
\<close>

subsection \<open>What the ledger documents\<close>

definition replay_composes :: "('st, 'sk, 'ev) replay_lib \<Rightarrow> bool" where
  "replay_composes rl \<longleftrightarrow> (\<forall>st sk. rl_replay rl st sk [] = Some st) \<and>
     (\<forall>st sk xs ys. rl_replay rl st sk (xs @ ys) = Option.bind (rl_replay rl st sk xs) (\<lambda>st'. rl_replay rl st' sk ys))"

text \<open>
  \<open>enc e\<close> is the tagged encoding of an event, \<open>raw e\<close> what follows the tag; the text of \<open>raw e\<close> does
  not contain the tag's again.
\<close>

definition events_encoded ::
    "hexlib \<Rightarrow> ('st, 'sk, 'ev) replay_lib \<Rightarrow> ('ev \<Rightarrow> bytes) \<Rightarrow> ('ev \<Rightarrow> bytes) \<Rightarrow> 'ev list \<Rightarrow> bool" where
  "events_encoded hx rl enc raw evs \<longleftrightarrow>
     (\<forall>e \<in> set evs. hx_enc hx (enc e) = EVENT_PREFIX @ hx_enc hx (raw e) \<and> rl_tagged rl (enc e) = Some e \<and>
        rl_raw rl (raw e) = Some e \<and> raw e \<noteq> [] \<and> clean_piece EVENT_PREFIX (hx_enc hx (raw e)))"

definition event_lines :: "hexlib \<Rightarrow> ('ev \<Rightarrow> bytes) \<Rightarrow> 'ev list \<Rightarrow> string" where
  "event_lines hx enc evs = concat (map (\<lambda>e. hx_enc hx (enc e) @ [CHR 0x0A]) evs)"

definition event_text :: "hexlib \<Rightarrow> ('ev \<Rightarrow> bytes) \<Rightarrow> 'ev list \<Rightarrow> string" where
  "event_text hx enc evs = concat (map (\<lambda>e. hx_enc hx (enc e)) evs)"

subsection \<open>From memory\<close>

lemma raw_events_decode:
  assumes "hex_ok hx" "events_encoded hx rl enc raw evs"
  shows "mapO (\<lambda>event_hex. Option.bind (hx_dec hx event_hex) (rl_raw rl)) (map (\<lambda>e. hx_enc hx (raw e)) evs) = Some evs"
  using assms(2) by (induction evs) (auto simp: events_encoded_def hex_dec_enc [OF assms(1)])

lemma memory_replay:
  assumes "hex_ok hx" "events_encoded hx rl enc raw evs" "replay_composes rl"
  shows "zswap_replay_events hx rl (Some st) (Some seed) 32 (Some (event_text hx enc evs)) =
    rl_replay rl st (rl_derive rl (slice_from seed 32)) evs"
proof (cases "evs = []")
  case True
  then show ?thesis
    using assms(3) by (simp add: zswap_replay_events_def event_text_def replay_composes_def cstr_to_str_ascii is_ascii_def)
next
  case False
  let ?pieces = "map (\<lambda>e. hx_enc hx (raw e)) evs"
  have glued: "event_text hx enc evs = concat (map (\<lambda>b. EVENT_PREFIX @ b) ?pieces)"
    using assms(2) by (simp add: event_text_def events_encoded_def comp_def cong: map_cong)
  have prefix: "EVENT_PREFIX \<noteq> []" by (simp add: EVENT_PREFIX_def)
  then have nonempty: "event_text hx enc evs \<noteq> []" using False by (simp add: glued)
  have "\<forall>b \<in> set ?pieces. clean_piece EVENT_PREFIX b" using assms(2) by (auto simp: events_encoded_def)
  then have "str_split EVENT_PREFIX (event_text hx enc evs) = [] # ?pieces"
    unfolding glued using prefix by (rule split_glue)
  moreover have "hx_enc hx (raw e) \<noteq> []" if "e \<in> set evs" for e
    using assms(2) that hex_enc_length [OF assms(1), of "raw e"] by (auto simp: events_encoded_def)
  ultimately have pieces: "filter (\<lambda>s. s \<noteq> []) (str_split EVENT_PREFIX (event_text hx enc evs)) = ?pieces"
    by (auto simp: filter_id_conv)
  have "is_ascii (event_text hx enc evs)"
    using hex_enc_plain(5) [OF assms(1)] by (auto simp: is_ascii_def event_text_def)
  then show ?thesis
    using nonempty pieces raw_events_decode [OF assms(1,2)]
    by (simp add: zswap_replay_events_def cstr_to_str_ascii)
qed

subsection \<open>From a file\<close>

lemma lines_are_join: "concat (map (\<lambda>t. t @ [c]) ts) = str_join [c] (ts @ [[]])"
proof (induction ts)
  case (Cons t ts)
  then show ?case by (cases ts) simp_all
qed simp

lemma event_lines_read:
  assumes "hex_ok hx"
  shows "read_lines (event_lines hx enc evs) False = map (\<lambda>e. Inr (hx_enc hx (enc e))) evs"
proof -
  have nl: "CHR 0x0A \<notin> set hex_digits" "CHR 0x0D \<notin> set hex_digits" by (simp_all add: hex_digits_def)
  have "event_lines hx enc evs = str_join [CHR 0x0A] (map (\<lambda>e. hx_enc hx (enc e)) evs @ [[]])"
    unfolding event_lines_def by (simp add: lines_are_join [symmetric] comp_def)
  moreover have "str_split [CHR 0x0A] \<dots> = map (\<lambda>e. hx_enc hx (enc e)) evs @ [[]]"
    using hex_enc_set [OF assms] nl(1) by (intro split_join_char) auto
  moreover have "strip_cr (hx_enc hx b) = hx_enc hx b" for b
    using hex_enc_set [OF assms, of b] nl(2) last_in_set [of "hx_enc hx b"] unfolding strip_cr_def by (metis subsetD)
  moreover have "line_result (hx_enc hx b) = Inr (hx_enc hx b)" for b
    by (simp add: line_result_def cstr_to_str_ascii hex_enc_plain [OF assms])
  ultimately show ?thesis by (simp add: read_lines_def Let_def butlast_append)
qed

lemma event_lines_parse:
  assumes "hex_ok hx" "events_encoded hx rl enc raw evs"
  shows "zswap_parse_lines hx rl (map (\<lambda>e. Inr (hx_enc hx (enc e))) evs) acc = Some (acc @ evs)"
  using assms(2)
proof (induction evs arbitrary: acc)
  case (Cons e evs)
  then have "hx_enc hx (enc e) \<noteq> []" by (auto simp: events_encoded_def EVENT_PREFIX_def)
  moreover have "str_trim (hx_enc hx (enc e)) = hx_enc hx (enc e)"
    using hex_enc_plain(4) [OF assms(1)] by (rule str_trim_plain)
  moreover have "rl_tagged rl (enc e) = Some e" "events_encoded hx rl enc raw evs"
    using Cons.prems by (simp_all add: events_encoded_def)
  ultimately show ?case using Cons.IH by (simp add: hex_dec_enc [OF assms(1)])
qed simp

text \<open>The file with the events one per line decodes to them.\<close>

lemma event_file_parse:
  assumes "hex_ok hx" "events_encoded hx rl enc raw evs"
  shows "zswap_parse_lines hx rl (read_lines (event_lines hx enc evs) False) [] = Some evs"
  by (simp add: event_lines_read [OF assms(1)] event_lines_parse [OF assms])

subsection \<open>In chunks of any size\<close>

interpretation sized_chunks: chunked_replay
    "\<lambda>st evs. rl_replay rl st sk evs"
    "\<lambda>st evs. replay_zswap_events_chunked rl st sk evs n" "max n 1"
  for rl sk n
  by unfold_locales
    (auto simp: replay_zswap_events_chunked_def chunks_short chunks_full split: option.splits)

lemma chunked_replay:
  assumes "replay_composes rl"
  shows "replay_zswap_events_chunked rl st sk evs n = rl_replay rl st sk evs"
  using assms by (intro sized_chunks.run_one_shot) (auto simp: replay_composes_def split: option.split bind_split)

subsection \<open>Agreement\<close>


definition demo_event :: "u8 \<Rightarrow> bytes" where
  "demo_event e = ascii ''midnight:event[v9]:'' @ [e]"


end
