(* ===== verification/SigningTests.thy ===== *)
theory SigningTests
  imports Signing
begin

text \<open>
  The test module of \<open>transaction_ffi.rs\<close> as programs on the heap: each test makes, uses and frees
  its allocations in the order of the source, and passes when every assertion holds. The tests that
  ask more of the scheme than its laws are in \<open>SchemeTests\<close>. What is shown is that the others pass
  on every scheme that keeps its documented laws, without undefined behaviour, and give back every
  block they took.
\<close>

subsection \<open>Test programs\<close>

text \<open>A failed \<open>assert!\<close>, \<open>unwrap\<close> or \<open>copy_from_slice\<close> panics: the rest of the test does not run.\<close>

type_synonym 'sk test = "'sk heap \<Rightarrow> (bool \<times> 'sk heap) mem"

definition done_test :: "'sk test" where
  "done_test h = Fine (True, h)"

definition assert_then :: "bool \<Rightarrow> 'sk test \<Rightarrow> 'sk test" where
  "assert_then b k h = (if b then k h else Fine (False, h))"

definition free_then :: "('sk heap \<Rightarrow> 'sk heap mem) \<Rightarrow> 'sk test \<Rightarrow> 'sk test" where
  "free_then f k h = mem_bind (f h) k"

definition key_then ::
    "('sk, 'vk, 'sig, 'nonce) sig_lib \<Rightarrow> bytes option \<Rightarrow> usize \<Rightarrow> (addr option \<Rightarrow> 'sk test) \<Rightarrow> 'sk test" where
  "key_then sl key_mem len k h = (let (p, h') = create_signing_key sl key_mem len h in k p h')"

definition sign_then ::
    "('sk, 'vk, 'sig, 'nonce) sig_lib \<Rightarrow> 'nonce \<Rightarrow> addr option \<Rightarrow> bytes option \<Rightarrow> usize \<Rightarrow>
     (signature_bytes \<Rightarrow> 'sk test) \<Rightarrow> 'sk test" where
  "sign_then sl n p data len k h = mem_bind (sign_data sl n p data len h) (\<lambda>(sig, h'). k sig h')"

definition verifying_then ::
    "('sk, 'vk, 'sig, 'nonce) sig_lib \<Rightarrow> addr option \<Rightarrow> (addr option \<Rightarrow> 'sk test) \<Rightarrow> 'sk test" where
  "verifying_then sl p k h = mem_bind (get_verifying_key sl p h) (\<lambda>(vk, h'). k vk h')"

text \<open>\<open>slice::from_raw_parts(ptr, len)\<close> reads \<open>len\<close> bytes of a live vector.\<close>

definition slice_then :: "addr option \<Rightarrow> usize \<Rightarrow> (bytes \<Rightarrow> 'sk test) \<Rightarrow> 'sk test" where
  "slice_then p len k h =
     (case vec_at p h of Some bs \<Rightarrow> if unat len \<le> length bs then k (slice_from bs len) h else UB
      | None \<Rightarrow> UB)"

lemmas test_steps = done_test_def assert_then_def free_then_def key_then_def sign_then_def
  verifying_then_def slice_then_def

text \<open>The signing key that the tests decode from hex (\<open>key_array\<close>), and lengths as \<open>usize\<close>.\<close>

definition valid_key_hex :: string where
  "valid_key_hex = ''e8f32e723decf4051aefac8e2c93c9c5b214313817cdb01a1494b917c8436b35''"

definition with_key_array :: "hexlib \<Rightarrow> string \<Rightarrow> (bytes \<Rightarrow> 'sk test) \<Rightarrow> 'sk test" where
  "with_key_array hx key_hex k h =
     (case hx_dec hx key_hex of
        Some valid_key \<Rightarrow> if length valid_key = 32 then k valid_key h else Fine (False, h)
      | None \<Rightarrow> Fine (False, h))"

definition usize_len :: "bytes \<Rightarrow> usize" where
  "usize_len bs = of_nat (length bs)"

definition ascii_bytes :: "string \<Rightarrow> bytes" where
  "ascii_bytes s = map of_char s"

subsection \<open>Error paths\<close>

definition test_null_pointer :: "('sk, 'vk, 'sig, 'nonce) sig_lib \<Rightarrow> 'sk test" where
  "test_null_pointer sl =
     key_then sl None 32 (\<lambda>key_ptr. assert_then (key_ptr = None) done_test)"

definition test_invalid_key_length_too_short :: "('sk, 'vk, 'sig, 'nonce) sig_lib \<Rightarrow> 'sk test" where
  "test_invalid_key_length_too_short sl =
     key_then sl (Some (replicate 16 0)) 16 (\<lambda>key_ptr. assert_then (key_ptr = None) done_test)"

definition test_invalid_key_length_too_long :: "('sk, 'vk, 'sig, 'nonce) sig_lib \<Rightarrow> 'sk test" where
  "test_invalid_key_length_too_long sl =
     key_then sl (Some (replicate 64 0)) 64 (\<lambda>key_ptr. assert_then (key_ptr = None) done_test)"

definition test_sign_data_null_signing_key :: "('sk, 'vk, 'sig, 'nonce) sig_lib \<Rightarrow> 'nonce \<Rightarrow> 'sk test" where
  "test_sign_data_null_signing_key sl n =
     (let data = ascii_bytes ''test message'' in
      sign_then sl n None (Some data) (usize_len data) (\<lambda>sig.
      assert_then (sb_data sig = None) (assert_then (sb_len sig = 0) done_test)))"

definition test_sign_data_null_data_ptr ::
    "hexlib \<Rightarrow> ('sk, 'vk, 'sig, 'nonce) sig_lib \<Rightarrow> 'nonce \<Rightarrow> 'sk test" where
  "test_sign_data_null_data_ptr hx sl n =
     with_key_array hx valid_key_hex (\<lambda>key_array.
     key_then sl (Some key_array) 32 (\<lambda>key_ptr.
     assert_then (key_ptr \<noteq> None) (
     sign_then sl n key_ptr None 100 (\<lambda>sig.
     assert_then (sb_data sig = None) (
     assert_then (sb_len sig = 0) (
     free_then (free_signing_key key_ptr) done_test))))))"

definition test_sign_data_exceeds_max_length ::
    "hexlib \<Rightarrow> ('sk, 'vk, 'sig, 'nonce) sig_lib \<Rightarrow> 'nonce \<Rightarrow> 'sk test" where
  "test_sign_data_exceeds_max_length hx sl n =
     with_key_array hx valid_key_hex (\<lambda>key_array.
     key_then sl (Some key_array) 32 (\<lambda>key_ptr.
     assert_then (key_ptr \<noteq> None) (
     let data = replicate 100 0 in
     sign_then sl n key_ptr (Some data) (2 * 1024 * 1024) (\<lambda>sig.
     assert_then (sb_data sig = None) (
     assert_then (sb_len sig = 0) (
     free_then (free_signing_key key_ptr) done_test))))))"

definition test_get_verifying_key_null_pointer :: "('sk, 'vk, 'sig, 'nonce) sig_lib \<Rightarrow> 'sk test" where
  "test_get_verifying_key_null_pointer sl =
     verifying_then sl None (\<lambda>pub_key_ptr. assert_then (pub_key_ptr = None) done_test)"

definition test_no_early_returns_on_secret_data :: "('sk, 'vk, 'sig, 'nonce) sig_lib \<Rightarrow> 'sk test" where
  "test_no_early_returns_on_secret_data sl =
     key_then sl None 32 (\<lambda>null_result.
     assert_then (null_result = None) (
     key_then sl (Some (replicate 16 0)) 16 (\<lambda>wrong_len_result.
     assert_then (wrong_len_result = None) done_test)))"

text \<open>The last of these passes a dangling pointer with length zero: it returns before using it.\<close>

definition test_free_signature_with_null_pointer :: "'sk test" where
  "test_free_signature_with_null_pointer = free_then (free_signature None 64) done_test"

definition test_free_signing_key_with_null_pointer :: "'sk test" where
  "test_free_signing_key_with_null_pointer = free_then (free_signing_key None) done_test"

definition test_free_signature_with_zero_length :: "'sk test" where
  "test_free_signature_with_zero_length =
     (let dummy_ptr = Some 0x1234 in free_then (free_signature dummy_ptr 0) done_test)"

subsection \<open>Success paths\<close>

definition unwrap_then :: "'a option \<Rightarrow> ('a \<Rightarrow> 'sk test) \<Rightarrow> 'sk test" where
  "unwrap_then x k h = (case x of Some y \<Rightarrow> k y h | None \<Rightarrow> Fine (False, h))"

definition test_valid_key_creation_and_cleanup :: "hexlib \<Rightarrow> ('sk, 'vk, 'sig, 'nonce) sig_lib \<Rightarrow> 'sk test" where
  "test_valid_key_creation_and_cleanup hx sl =
     with_key_array hx valid_key_hex (\<lambda>key_array.
     key_then sl (Some key_array) 32 (\<lambda>key_ptr.
     assert_then (key_ptr \<noteq> None) (
     free_then (free_signing_key key_ptr) done_test)))"

text \<open>The draws of the nonce are numbered.\<close>

definition test_memory_lifecycle_multiple_signatures ::
    "hexlib \<Rightarrow> ('sk, 'vk, 'sig, 'nonce) sig_lib \<Rightarrow> (nat \<Rightarrow> 'nonce) \<Rightarrow> 'sk test" where
  "test_memory_lifecycle_multiple_signatures hx sl n =
     with_key_array hx valid_key_hex (\<lambda>key_array.
     key_then sl (Some key_array) 32 (\<lambda>key_ptr.
     assert_then (key_ptr \<noteq> None) (
     let msg1 = ascii_bytes ''message 1''; msg2 = ascii_bytes ''message 2''; msg3 = ascii_bytes ''message 3'' in
     sign_then sl (n 0) key_ptr (Some msg1) (usize_len msg1) (\<lambda>sig1.
     sign_then sl (n 1) key_ptr (Some msg2) (usize_len msg2) (\<lambda>sig2.
     sign_then sl (n 2) key_ptr (Some msg3) (usize_len msg3) (\<lambda>sig3.
     assert_then (sb_data sig1 \<noteq> None) (assert_then (sb_data sig2 \<noteq> None) (assert_then (sb_data sig3 \<noteq> None) (
     assert_then (sb_len sig1 = 64) (assert_then (sb_len sig2 = 64) (assert_then (sb_len sig3 = 64) (
     slice_then (sb_data sig1) (sb_len sig1) (\<lambda>sig1_slice.
     slice_then (sb_data sig2) (sb_len sig2) (\<lambda>sig2_slice.
     assert_then (sig1_slice \<noteq> sig2_slice) (
     free_then (free_signature (sb_data sig1) (sb_len sig1)) (
     free_then (free_signature (sb_data sig2) (sb_len sig2)) (
     free_then (free_signature (sb_data sig3) (sb_len sig3)) (
     free_then (free_signing_key key_ptr) done_test))))))))))))))))))"

definition test_sign_empty_data ::
    "hexlib \<Rightarrow> ('sk, 'vk, 'sig, 'nonce) sig_lib \<Rightarrow> 'nonce \<Rightarrow> 'sk test" where
  "test_sign_empty_data hx sl n =
     with_key_array hx valid_key_hex (\<lambda>key_array.
     key_then sl (Some key_array) 32 (\<lambda>key_ptr.
     assert_then (key_ptr \<noteq> None) (
     let empty_data = [] in
     sign_then sl n key_ptr (Some empty_data) 0 (\<lambda>sig.
     assert_then (sb_data sig \<noteq> None) (
     assert_then (sb_len sig = 64) (
     free_then (free_signature (sb_data sig) (sb_len sig)) (
     free_then (free_signing_key key_ptr) done_test)))))))"

definition test_sign_large_data ::
    "hexlib \<Rightarrow> ('sk, 'vk, 'sig, 'nonce) sig_lib \<Rightarrow> 'nonce \<Rightarrow> 'sk test" where
  "test_sign_large_data hx sl n =
     with_key_array hx valid_key_hex (\<lambda>key_array.
     key_then sl (Some key_array) 32 (\<lambda>key_ptr.
     assert_then (key_ptr \<noteq> None) (
     let large_data = replicate (100 * 1024) 0x42 in
     sign_then sl n key_ptr (Some large_data) (usize_len large_data) (\<lambda>sig.
     assert_then (sb_data sig \<noteq> None) (
     assert_then (sb_len sig = 64) (
     free_then (free_signature (sb_data sig) (sb_len sig)) (
     free_then (free_signing_key key_ptr) done_test)))))))"

text \<open>Decoding what was written and asking the scheme to verify it.\<close>

definition test_signature_verification ::
    "hexlib \<Rightarrow> ('sk, 'vk, 'sig, 'nonce) sig_lib \<Rightarrow> 'nonce \<Rightarrow> 'sk test" where
  "test_signature_verification hx sl n =
     with_key_array hx valid_key_hex (\<lambda>key_array.
     key_then sl (Some key_array) 32 (\<lambda>key_ptr.
     assert_then (key_ptr \<noteq> None) (
     let data = ascii_bytes ''test message'' in
     sign_then sl n key_ptr (Some data) (usize_len data) (\<lambda>sig.
     assert_then (sb_data sig \<noteq> None) (
     assert_then (sb_len sig = 64) (
     verifying_then sl key_ptr (\<lambda>pub_key_ptr.
     assert_then (pub_key_ptr \<noteq> None) (
     slice_then (sb_data sig) (sb_len sig) (\<lambda>sig_bytes.
     slice_then pub_key_ptr 32 (\<lambda>pub_key_bytes.
     unwrap_then (sg_sig_deser sl sig_bytes) (\<lambda>signature.
     unwrap_then (sg_vk_deser sl pub_key_bytes) (\<lambda>verifying_key.
     assert_then (sg_verify sl verifying_key data signature) (
     free_then (free_signature (sb_data sig) (sb_len sig)) (
     free_then (free_verifying_key pub_key_ptr) (
     free_then (free_signing_key key_ptr) done_test)))))))))))))))"

definition test_signature_components_are_valid ::
    "hexlib \<Rightarrow> ('sk, 'vk, 'sig, 'nonce) sig_lib \<Rightarrow> 'nonce \<Rightarrow> 'sk test" where
  "test_signature_components_are_valid hx sl n =
     with_key_array hx valid_key_hex (\<lambda>key_array.
     key_then sl (Some key_array) 32 (\<lambda>key_ptr.
     let data = ascii_bytes ''test message for signature format validation'' in
     sign_then sl n key_ptr (Some data) (usize_len data) (\<lambda>sig.
     slice_then (sb_data sig) (sb_len sig) (\<lambda>sig_bytes.
     assert_then (sg_sig_deser sl sig_bytes \<noteq> None) (
     free_then (free_signature (sb_data sig) (sb_len sig)) (
     free_then (free_signing_key key_ptr) done_test))))))"

definition test_endianness_independence ::
    "hexlib \<Rightarrow> ('sk, 'vk, 'sig, 'nonce) sig_lib \<Rightarrow> 'nonce \<Rightarrow> 'sk test" where
  "test_endianness_independence hx sl n =
     with_key_array hx valid_key_hex (\<lambda>key_array.
     key_then sl (Some key_array) 32 (\<lambda>key_ptr.
     let data = [0x01, 0x02, 0x03, 0x04, 0x05] in
     sign_then sl n key_ptr (Some data) (usize_len data) (\<lambda>sig.
     slice_then (sb_data sig) (sb_len sig) (\<lambda>sig_bytes.
     assert_then (sg_sig_deser sl sig_bytes \<noteq> None) (
     free_then (free_signature (sb_data sig) (sb_len sig)) (
     free_then (free_signing_key key_ptr) done_test))))))"

text \<open>The fuzzing tests: \<open>datas\<close> is what the generator drew, the \<open>i\<close>-th nonce goes to the \<open>i\<close>-th signature.\<close>

fun fuzz_lengths ::
    "('sk, 'vk, 'sig, 'nonce) sig_lib \<Rightarrow> (nat \<Rightarrow> 'nonce) \<Rightarrow> addr option \<Rightarrow> nat \<Rightarrow> bytes list \<Rightarrow> 'sk test \<Rightarrow> 'sk test" where
  "fuzz_lengths sl n key_ptr i [] k = k"
| "fuzz_lengths sl n key_ptr i (data # datas) k =
     sign_then sl (n i) key_ptr (Some data) (usize_len data) (\<lambda>sig.
     assert_then (sb_data sig \<noteq> None) (
     assert_then (sb_len sig = 64) (
     free_then (free_signature (sb_data sig) (sb_len sig)) (
     fuzz_lengths sl n key_ptr (Suc i) datas k))))"

definition test_fuzz_sign_random_data_lengths ::
    "hexlib \<Rightarrow> ('sk, 'vk, 'sig, 'nonce) sig_lib \<Rightarrow> (nat \<Rightarrow> 'nonce) \<Rightarrow> bytes list \<Rightarrow> 'sk test" where
  "test_fuzz_sign_random_data_lengths hx sl n datas =
     with_key_array hx valid_key_hex (\<lambda>key_array.
     key_then sl (Some key_array) 32 (\<lambda>key_ptr.
     fuzz_lengths sl n key_ptr 0 datas (
     free_then (free_signing_key key_ptr) done_test)))"

fun fuzz_patterns ::
    "('sk, 'vk, 'sig, 'nonce) sig_lib \<Rightarrow> (nat \<Rightarrow> 'nonce) \<Rightarrow> addr option \<Rightarrow> nat \<Rightarrow> bytes list \<Rightarrow> 'sk test \<Rightarrow> 'sk test" where
  "fuzz_patterns sl n key_ptr i [] k = k"
| "fuzz_patterns sl n key_ptr i (pattern # patterns) k =
     sign_then sl (n i) key_ptr (Some pattern) (usize_len pattern) (\<lambda>sig.
     assert_then (sb_data sig \<noteq> None) (
     assert_then (sb_len sig = 64) (
     verifying_then sl key_ptr (\<lambda>pub_key_ptr.
     slice_then (sb_data sig) (sb_len sig) (\<lambda>sig_bytes.
     slice_then pub_key_ptr 32 (\<lambda>pub_key_bytes.
     unwrap_then (sg_sig_deser sl sig_bytes) (\<lambda>signature.
     unwrap_then (sg_vk_deser sl pub_key_bytes) (\<lambda>verifying_key.
     assert_then (sg_verify sl verifying_key pattern signature) (
     free_then (free_verifying_key pub_key_ptr) (
     free_then (free_signature (sb_data sig) (sb_len sig)) (
     fuzz_patterns sl n key_ptr (Suc i) patterns k)))))))))))"

definition test_fuzz_sign_random_data_patterns ::
    "hexlib \<Rightarrow> ('sk, 'vk, 'sig, 'nonce) sig_lib \<Rightarrow> (nat \<Rightarrow> 'nonce) \<Rightarrow> 'sk test" where
  "test_fuzz_sign_random_data_patterns hx sl n =
     with_key_array hx valid_key_hex (\<lambda>key_array.
     key_then sl (Some key_array) 32 (\<lambda>key_ptr.
     fuzz_patterns sl n key_ptr 0
       [replicate 100 0, replicate 100 0xFF, replicate 100 0xAA, replicate 100 0x55, map of_nat [0..<100]] (
     free_then (free_signing_key key_ptr) done_test)))"

definition test_signature_determinism_with_same_key ::
    "hexlib \<Rightarrow> ('sk, 'vk, 'sig, 'nonce) sig_lib \<Rightarrow> (nat \<Rightarrow> 'nonce) \<Rightarrow> 'sk test" where
  "test_signature_determinism_with_same_key hx sl n =
     with_key_array hx valid_key_hex (\<lambda>key_array.
     key_then sl (Some key_array) 32 (\<lambda>key_ptr.
     let data = ascii_bytes ''determinism test'' in
     sign_then sl (n 0) key_ptr (Some data) (usize_len data) (\<lambda>sig1.
     sign_then sl (n 1) key_ptr (Some data) (usize_len data) (\<lambda>sig2.
     sign_then sl (n 2) key_ptr (Some data) (usize_len data) (\<lambda>sig3.
     slice_then (sb_data sig1) (sb_len sig1) (\<lambda>sig1_bytes.
     slice_then (sb_data sig2) (sb_len sig2) (\<lambda>sig2_bytes.
     slice_then (sb_data sig3) (sb_len sig3) (\<lambda>sig3_bytes.
     assert_then (sig1_bytes \<noteq> sig2_bytes) (
     assert_then (sig2_bytes \<noteq> sig3_bytes) (
     verifying_then sl key_ptr (\<lambda>pub_key_ptr.
     slice_then pub_key_ptr 32 (\<lambda>pub_key_bytes.
     unwrap_then (sg_vk_deser sl pub_key_bytes) (\<lambda>verifying_key.
     unwrap_then (sg_sig_deser sl sig1_bytes) (\<lambda>s1. assert_then (sg_verify sl verifying_key data s1) (
     unwrap_then (sg_sig_deser sl sig2_bytes) (\<lambda>s2. assert_then (sg_verify sl verifying_key data s2) (
     unwrap_then (sg_sig_deser sl sig3_bytes) (\<lambda>s3. assert_then (sg_verify sl verifying_key data s3) (
     free_then (free_verifying_key pub_key_ptr) (
     free_then (free_signature (sb_data sig1) (sb_len sig1)) (
     free_then (free_signature (sb_data sig2) (sb_len sig2)) (
     free_then (free_signature (sb_data sig3) (sb_len sig3)) (
     free_then (free_signing_key key_ptr) done_test)))))))))))))))))))))))"

subsection \<open>Running a test\<close>

text \<open>
  \<open>ends\<close> says that a test, from this heap on, passes without undefined behaviour and leaves the
  allocations \<open>c\<close>; a rule for each step runs the test symbolically.
\<close>

definition ends :: "(addr \<Rightarrow> 'sk block option) \<Rightarrow> 'sk test \<Rightarrow> 'sk heap \<Rightarrow> bool" where
  "ends c t h \<longleftrightarrow> (\<exists>h'. t h = Fine (True, h') \<and> hp_cells h' = c)"

definition scheme_ok :: "('sk, 'vk, 'sig, 'nonce) sig_lib \<Rightarrow> bool" where
  "scheme_ok sl \<longleftrightarrow> sig_ok sl \<and> (\<forall>sig. sg_sig_ser sl sig \<noteq> None) \<and>
     (\<forall>vk. \<exists>b. sg_vk_ser sl vk = Some b \<and> length b = 32) \<and>
     sg_capacity sl 32 = 32 \<and> sg_capacity sl 64 = 64"

text \<open>A key in hex is a key of the scheme; for the crate's test key, and its first three nonces sign apart.\<close>

definition key_hex_ok :: "hexlib \<Rightarrow> ('sk, 'vk, 'sig, 'nonce) sig_lib \<Rightarrow> string \<Rightarrow> bool" where
  "key_hex_ok hx sl key_hex \<longleftrightarrow> (case hx_dec hx key_hex of
     Some kb \<Rightarrow> length kb = 32 \<and> sg_from_bytes sl kb \<noteq> None | None \<Rightarrow> False)"

abbreviation "key_ok hx sl \<equiv> key_hex_ok hx sl valid_key_hex"

definition nonces_apart :: "('sk, 'vk, 'sig, 'nonce) sig_lib \<Rightarrow> (nat \<Rightarrow> 'nonce) \<Rightarrow> bool" where
  "nonces_apart sl n \<longleftrightarrow> (\<forall>sk d e. \<forall>i < 3. \<forall>j < i. sg_sign sl sk (n i) d \<noteq> sg_sign sl sk (n j) e)"

lemma ends_done: "(\<And>a. hp_cells h a = c a) \<Longrightarrow> ends c done_test h"
  by (auto simp: ends_def done_test_def)

lemma ends_assert: "b \<Longrightarrow> ends c k h \<Longrightarrow> ends c (assert_then b k) h"
  by (simp add: ends_def assert_then_def)

lemma ends_unwrap: "x = Some y \<Longrightarrow> ends c (k y) h \<Longrightarrow> ends c (unwrap_then x k) h"
  by (simp add: ends_def unwrap_then_def)

lemma ends_slice:
  "hp_cells h a = Some (ByteVec bs m) \<Longrightarrow> unat len = length bs \<Longrightarrow> ends c (k bs) h \<Longrightarrow>
   ends c (slice_then (Some a) len k) h"
  by (simp add: ends_def slice_then_def vec_at_def slice_from_def)

text \<open>Addresses are consecutive, so \<open>simp\<close> tells the blocks of a test apart.\<close>

definition grown :: "'sk heap \<Rightarrow> 'sk block \<Rightarrow> 'sk heap \<Rightarrow> bool" where
  "grown h b h' \<longleftrightarrow> heap_ok h' \<and> hp_next h' = Suc (hp_next h) \<and>
     hp_cells h' = (hp_cells h)(hp_next h \<mapsto> b) \<and> hp_cells h (hp_next h) = None"

definition dropped :: "'sk heap \<Rightarrow> addr \<Rightarrow> 'sk heap \<Rightarrow> bool" where
  "dropped h a h' \<longleftrightarrow> heap_ok h' \<and> hp_next h' = hp_next h \<and> hp_cells h' = (hp_cells h)(a := None)"

lemmas cells_simps = grown_def dropped_def

lemma alloc_grown:
  assumes "heap_ok h"
  shows "\<exists>h'. heap_alloc b h = (hp_next h, h') \<and> grown h b h'"
proof -
  have "grown h b (snd (heap_alloc b h))"
    using assms by (auto simp: grown_def heap_alloc_def heap_ok_def)
  then show ?thesis by (auto simp: heap_alloc_def)
qed

lemma ends_key:
  assumes "key_hex_ok hx sl key_hex" and "heap_ok h"
    and "\<And>sk h'. grown h (Boxed sk) h' \<Longrightarrow> ends c (k (Some (hp_next h))) h'"
  shows "ends c (with_key_array hx key_hex (\<lambda>key_array. key_then sl (Some key_array) 32 k)) h"
proof -
  obtain kb sk where kb: "hx_dec hx key_hex = Some kb" "length kb = 32" "sg_from_bytes sl kb = Some sk"
    using assms(1) by (auto simp: key_hex_ok_def split: option.splits)
  obtain h' where al: "heap_alloc (Boxed sk) h = (hp_next h, h')" "grown h (Boxed sk) h'"
    using alloc_grown [OF assms(2)] by blast
  then have "ends c (k (Some (hp_next h))) h'" by (intro assms(3))
  then show ?thesis
    using kb al by (simp add: ends_def with_key_array_def key_then_def create_signing_key_def slice_from_def)
qed

lemma ends_sign:
  assumes "scheme_ok sl" and "heap_ok h" and "hp_cells h p = Some (Boxed sk)"
    and "len = usize_len data" and "length data \<le> 1024 * 1024"
    and "\<And>b h'. grown h (ByteVec b 64) h' \<Longrightarrow> length b = 64 \<Longrightarrow>
      sg_sig_deser sl b = Some (sg_sign sl sk n data) \<Longrightarrow>
      ends c (k \<lparr>sb_data = Some (hp_next h), sb_len = 64\<rparr>) h'"
  shows "ends c (sign_then sl n (Some p) (Some data) len k) h"
proof -
  let ?sig = "sg_sign sl sk n data"
  have len: "unat len = length data" using assms(4,5) by (simp add: usize_len_def unat_of_nat)
  then have short: "\<not> MAX_DATA_LEN < len" using assms(5) by (simp add: word_less_nat_alt MAX_DATA_LEN_def)
  have data: "len = 0 \<Longrightarrow> data = []" "slice_from data len = data"
    using len by (auto simp: slice_from_def)
  obtain b where b: "sg_sig_ser sl ?sig = Some b" using assms(1) by (auto simp: scheme_ok_def)
  then have b': "length b = 64" "sg_sig_deser sl b = Some ?sig" "sg_capacity sl 64 = 64"
    using assms(1) by (auto simp: scheme_ok_def sig_ok_def)
  obtain h' where al: "heap_alloc (ByteVec b 64) h = (hp_next h, h')" "grown h (ByteVec b 64) h'"
    using alloc_grown [OF assms(2)] by blast
  from assms(6) [OF al(2) b'(1,2)] have "ends c (k \<lparr>sb_data = Some (hp_next h), sb_len = 64\<rparr>) h'" .
  then show ?thesis
    using assms(3) short data b b' al
    by (cases "len = 0") (simp_all add: ends_def sign_then_def sign_data_def deref_key_def Let_def)
qed

lemma ends_verifying:
  assumes "scheme_ok sl" and "heap_ok h" and "hp_cells h p = Some (Boxed sk)"
    and "\<And>b h'. grown h (ByteVec b 32) h' \<Longrightarrow> length b = 32 \<Longrightarrow>
      sg_vk_deser sl b = Some (sg_verifying_key sl sk) \<Longrightarrow> ends c (k (Some (hp_next h))) h'"
  shows "ends c (verifying_then sl (Some p) k) h"
proof -
  obtain b where b: "sg_vk_ser sl (sg_verifying_key sl sk) = Some b" "length b = 32"
    using assms(1) unfolding scheme_ok_def by blast
  then have b': "sg_vk_deser sl b = Some (sg_verifying_key sl sk)" "sg_capacity sl 32 = 32"
    using assms(1) by (auto simp: scheme_ok_def sig_ok_def)
  obtain h' where al: "heap_alloc (ByteVec b 32) h = (hp_next h, h')" "grown h (ByteVec b 32) h'"
    using alloc_grown [OF assms(2)] by blast
  from assms(4) [OF al(2) b(2) b'(1)] have "ends c (k (Some (hp_next h))) h'" .
  then show ?thesis
    using assms(3) b b' al by (simp add: ends_def verifying_then_def get_verifying_key_def deref_key_def)
qed

lemma ends_drop:
  assumes "\<And>h'. dropped h a h' \<Longrightarrow> ends c k h'"
    and "f h = Fine (heap_drop a h)" and "heap_ok h"
  shows "ends c (free_then f k) h"
proof -
  have "dropped h a (heap_drop a h)" using assms(3) by (simp add: dropped_def heap_drop_def heap_ok_def)
  with assms(1,2) show ?thesis by (simp add: ends_def free_then_def)
qed

lemma ends_free_key:
  "hp_cells h p = Some (Boxed sk) \<Longrightarrow> heap_ok h \<Longrightarrow>
   (\<And>h'. dropped h p h' \<Longrightarrow> ends c k h') \<Longrightarrow>
   ends c (free_then (free_signing_key (Some p)) k) h"
  by (rule ends_drop) (auto simp: own_key.free_live is_boxed_def)

lemma ends_free_signature:
  "hp_cells h a = Some (ByteVec b 64) \<Longrightarrow> heap_ok h \<Longrightarrow>
   (\<And>h'. dropped h a h' \<Longrightarrow> ends c k h') \<Longrightarrow>
   ends c (free_then (free_signature (Some a) 64) k) h"
  by (rule ends_drop) (auto simp: free_signature_def drop_vec_def)

lemma ends_free_verifying:
  "hp_cells h a = Some (ByteVec b 32) \<Longrightarrow> heap_ok h \<Longrightarrow>
   (\<And>h'. dropped h a h' \<Longrightarrow> ends c k h') \<Longrightarrow>
   ends c (free_then (free_verifying_key (Some a)) k) h"
  by (rule ends_drop) (auto simp: own_vk.free_live is_vec_cap_def)

lemmas ends_rules = ends_assert ends_free_key ends_free_signature ends_free_verifying ends_done

lemma short_ascii [simp]: "length (ascii_bytes s) = length s"
  by (simp add: ascii_bytes_def)

subsection \<open>The tests pass\<close>

lemmas test_defs = test_null_pointer_def test_invalid_key_length_too_short_def
  test_invalid_key_length_too_long_def test_sign_data_null_signing_key_def
  test_get_verifying_key_null_pointer_def test_no_early_returns_on_secret_data_def
  test_free_signature_with_null_pointer_def test_free_signing_key_with_null_pointer_def
  test_free_signature_with_zero_length_def

lemma guard_tests_end:
  "ends (hp_cells h) (test_null_pointer sl) h"
  "ends (hp_cells h) (test_invalid_key_length_too_short sl) h"
  "ends (hp_cells h) (test_invalid_key_length_too_long sl) h"
  "ends (hp_cells h) (test_sign_data_null_signing_key sl m) h"
  "ends (hp_cells h) (test_get_verifying_key_null_pointer sl) h"
  "ends (hp_cells h) (test_no_early_returns_on_secret_data sl) h"
  "ends (hp_cells h) test_free_signature_with_null_pointer h"
  "ends (hp_cells h) test_free_signing_key_with_null_pointer h"
  "ends (hp_cells h) test_free_signature_with_zero_length h"
  by (simp_all add: test_defs test_steps ends_def create_signing_key_def sign_data_def no_signature_def Let_def
      get_verifying_key_def free_signature_def free_signing_key_def)

text \<open>A refused signature allocates nothing.\<close>

lemma ends_no_signature:
  assumes "(data = None \<and> len \<noteq> 0) \<or> MAX_DATA_LEN < len" and "ends c (k no_signature) h"
  shows "ends c (sign_then sl n (Some p) data len k) h"
  using assms by (auto simp: ends_def sign_then_def sign_data_def)

lemma refused_tests_end:
  assumes "key_ok hx sl" and "heap_ok h"
  shows "ends (hp_cells h) (test_sign_data_null_data_ptr hx sl m) h"
    and "ends (hp_cells h) (test_sign_data_exceeds_max_length hx sl m) h"
    and "ends (hp_cells h) (test_valid_key_creation_and_cleanup hx sl) h"
  unfolding test_sign_data_null_data_ptr_def test_sign_data_exceeds_max_length_def
    test_valid_key_creation_and_cleanup_def Let_def
  by (rule ends_key [OF assms] ends_rules ends_no_signature
    | simp add: no_signature_def MAX_DATA_LEN_def cells_simps)+

text \<open>Reading back a signature or a verifying key.\<close>

lemma signing_tests_end:
  assumes sl: "scheme_ok sl" and k: "key_ok hx sl" and h: "heap_ok h"
  shows "ends (hp_cells h) (test_sign_empty_data hx sl m) h"
    and "ends (hp_cells h) (test_sign_large_data hx sl m) h"
    and "ends (hp_cells h) (test_signature_components_are_valid hx sl m) h"
    and "ends (hp_cells h) (test_endianness_independence hx sl m) h"
  unfolding test_sign_empty_data_def test_sign_large_data_def test_signature_components_are_valid_def
    test_endianness_independence_def Let_def
  by (rule ends_key [OF k h] ends_rules ends_sign [OF sl] ends_slice refl
    | simp add: usize_len_def cells_simps)+

lemma scheme_verifies: "scheme_ok sl \<Longrightarrow> sg_verify sl (sg_verifying_key sl sk) d (sg_sign sl sk m d)"
  by (simp add: scheme_ok_def sig_ok_def)

lemma signatures_apart:
  "nonces_apart sl n \<Longrightarrow> sg_sig_deser sl a = Some (sg_sign sl sk (n i) d) \<Longrightarrow>
   sg_sig_deser sl b = Some (sg_sign sl sk (n j) e) \<Longrightarrow> i < j \<Longrightarrow> j < 3 \<Longrightarrow> a \<noteq> b"
  unfolding nonces_apart_def by fastforce

lemma verification_tests_end:
  assumes sl: "scheme_ok sl" and k: "key_ok hx sl" and h: "heap_ok h"
  shows "ends (hp_cells h) (test_signature_verification hx sl m) h"
  unfolding test_signature_verification_def Let_def
  by (rule ends_key [OF k h] ends_rules ends_sign [OF sl] ends_verifying [OF sl] ends_slice ends_unwrap refl
      scheme_verifies [OF sl] | assumption | simp add: usize_len_def cells_simps)+

lemma multi_tests_end:
  assumes sl: "scheme_ok sl" and k: "key_ok hx sl" and h: "heap_ok h" and n: "nonces_apart sl n"
  shows "ends (hp_cells h) (test_memory_lifecycle_multiple_signatures hx sl n) h"
    and "ends (hp_cells h) (test_signature_determinism_with_same_key hx sl n) h"
  unfolding test_memory_lifecycle_multiple_signatures_def test_signature_determinism_with_same_key_def Let_def
  by (rule ends_key [OF k h] ends_rules ends_sign [OF sl] ends_verifying [OF sl] ends_slice ends_unwrap refl
      scheme_verifies [OF sl] | assumption | (rule signatures_apart [OF n], assumption, assumption)
    | simp add: usize_len_def cells_simps)+

text \<open>One round of a fuzzing loop gives the heap back, so the loop runs however long it is.\<close>

lemma round_trip_cells: "grown h b h1 \<Longrightarrow> dropped h1 (hp_next h) h2 \<Longrightarrow> heap_ok h2 \<and> hp_cells h2 = hp_cells h"
  by (auto simp: cells_simps fun_eq_iff)

lemma fuzz_lengths_end:
  assumes sl: "scheme_ok sl" and "hp_cells h p = Some (Boxed sk)" and "heap_ok h"
    and "\<And>d. d \<in> set datas \<Longrightarrow> length d \<le> 1048576"
    and "\<And>h'. heap_ok h' \<and> hp_cells h' = hp_cells h \<Longrightarrow> ends c k h'"
  shows "ends c (fuzz_lengths sl n (Some p) i datas k) h"
  using assms(2-)
proof (induction datas arbitrary: h i)
  case (Cons d datas)
  have next_round: "ends c (fuzz_lengths sl n (Some p) (Suc i) datas k) h'"
    if "heap_ok h' \<and> hp_cells h' = hp_cells h" for h'
    using that Cons.prems by (intro Cons.IH) auto
  show ?case
    unfolding fuzz_lengths.simps
    by (rule ends_sign [OF sl Cons.prems(2,1)] ends_assert ends_free_signature refl
        | (rule next_round, erule round_trip_cells, assumption)
        | (simp only: signature_bytes.select_convs) | simp add: Cons.prems(1,3) cells_simps)+
qed simp

lemma fuzz_patterns_end:
  assumes sl: "scheme_ok sl" and "hp_cells h p = Some (Boxed sk)" and "heap_ok h"
    and "\<And>d. d \<in> set datas \<Longrightarrow> length d \<le> 1048576"
    and "\<And>h'. heap_ok h' \<and> hp_cells h' = hp_cells h \<Longrightarrow> ends c k h'"
  shows "ends c (fuzz_patterns sl n (Some p) i datas k) h"
  using assms(2-)
proof (induction datas arbitrary: h i)
  case (Cons d datas)
  have live: "p \<noteq> hp_next h" "p \<noteq> Suc (hp_next h)" and short: "length d \<le> 1048576"
    using Cons.prems(1-3) by (auto simp: heap_ok_def)
  have next_round: "ends c (fuzz_patterns sl n (Some p) (Suc i) datas k) h'"
    if "heap_ok h'" "hp_cells h' = hp_cells h" for h'
    using that Cons.prems by (intro Cons.IH) auto
  show ?case
    unfolding fuzz_patterns.simps
    by (rule ends_sign [OF sl Cons.prems(2,1)] ends_assert ends_verifying [OF sl, where p = p and sk = sk] ends_slice ends_unwrap
        ends_free_signature ends_free_verifying refl scheme_verifies [OF sl] | assumption
        | (rule next_round, simp add: cells_simps, simp add: cells_simps fun_eq_iff)
        | (simp only: signature_bytes.select_convs) | simp add: Cons.prems(1,2) live short cells_simps)+
qed simp

lemma free_key_end:
  assumes "grown h (Boxed sk) h1" and "heap_ok h2 \<and> hp_cells h2 = hp_cells h1"
  shows "ends (hp_cells h) (free_then (free_signing_key (Some (hp_next h))) done_test) h2"
  using assms by (intro ends_free_key [where sk = sk] ends_done) (auto simp: cells_simps)

lemma fuzz_tests_end:
  assumes sl: "scheme_ok sl" and k: "key_ok hx sl" and h: "heap_ok h"
  shows "ends (hp_cells h) (test_fuzz_sign_random_data_patterns hx sl n) h"
    and "\<forall>d \<in> set datas. length d < 1000 \<Longrightarrow>
      ends (hp_cells h) (test_fuzz_sign_random_data_lengths hx sl n datas) h"
proof -
  show "ends (hp_cells h) (test_fuzz_sign_random_data_patterns hx sl n) h"
    unfolding test_fuzz_sign_random_data_patterns_def
    by (rule ends_key [OF k h], rule fuzz_patterns_end [OF sl]) (erule (1) free_key_end | force simp: cells_simps)+
  assume "\<forall>d \<in> set datas. length d < 1000"
  then have long: "length d \<le> 1048576" if "d \<in> set datas" for d
    using that by fastforce
  show "ends (hp_cells h) (test_fuzz_sign_random_data_lengths hx sl n datas) h"
    unfolding test_fuzz_sign_random_data_lengths_def
    by (rule ends_key [OF k h], rule fuzz_lengths_end [OF sl]) (erule (1) free_key_end | simp add: cells_simps long)+
qed

text \<open>The tests of the module, one nonce per signature and the lengths test on any draws.\<close>

definition signing_tests ::
    "hexlib \<Rightarrow> ('sk, 'vk, 'sig, 'nonce) sig_lib \<Rightarrow> (nat \<Rightarrow> 'nonce) \<Rightarrow> bytes list \<Rightarrow> 'sk test list" where
  "signing_tests hx sl n datas =
     [test_null_pointer sl, test_invalid_key_length_too_short sl, test_invalid_key_length_too_long sl,
      test_sign_data_null_signing_key sl (n 0), test_sign_data_null_data_ptr hx sl (n 0),
      test_sign_data_exceeds_max_length hx sl (n 0), test_valid_key_creation_and_cleanup hx sl,
      test_memory_lifecycle_multiple_signatures hx sl n, test_sign_empty_data hx sl (n 0),
      test_sign_large_data hx sl (n 0), test_free_signature_with_null_pointer,
      test_free_signature_with_zero_length, test_free_signing_key_with_null_pointer,
      test_get_verifying_key_null_pointer sl, test_signature_verification hx sl (n 0),
      test_signature_components_are_valid hx sl (n 0),
      test_fuzz_sign_random_data_lengths hx sl n datas, test_fuzz_sign_random_data_patterns hx sl n,
      test_signature_determinism_with_same_key hx sl n, test_endianness_independence hx sl (n 0),
      test_no_early_returns_on_secret_data sl]"

text \<open>
  The signing module's tests pass on every signature scheme that keeps its documented laws
  (what it signs verifies, encodings are lossless and of the fixed size, nonces sign apart), from
  any heap: no step is undefined behaviour, and each test gives back exactly what it allocated.
\<close>

lemma signing_tests_pass:
  assumes "scheme_ok sl" and "key_ok hx sl" and "nonces_apart sl n" and "heap_ok h"
    and "\<forall>d \<in> set datas. length d < 1000"
  shows "\<forall>t \<in> set (signing_tests hx sl n datas).
    \<exists>h'. t h = Fine (True, h') \<and> hp_cells h' = hp_cells h"
proof -
  have "ends (hp_cells h) t h" if "t \<in> set (signing_tests hx sl n datas)" for t
    using that assms
    by (auto simp: signing_tests_def guard_tests_end refused_tests_end signing_tests_end verification_tests_end
        multi_tests_end fuzz_tests_end)
  then show ?thesis by (simp add: ends_def)
qed

text \<open>A scheme of 64-byte signatures: the key, a digest of the message, and the nonce.\<close>

definition demo_digest :: "bytes \<Rightarrow> u8" where
  "demo_digest d = sum_list d"

definition demo_scheme :: "(u8, u8, u8 \<times> u8 \<times> u8, u8) sig_lib" where
  "demo_scheme = \<lparr>sg_from_bytes = (\<lambda>b. Some (hd b)), sg_verifying_key = (\<lambda>k. k),
     sg_sign = (\<lambda>k m d. (k, demo_digest d, m)), sg_verify = (\<lambda>v d s. fst s = v \<and> fst (snd s) = demo_digest d),
     sg_vk_ser = (\<lambda>v. Some (replicate 32 v)), sg_vk_deser = (\<lambda>b. Some (hd b)),
     sg_sig_ser = (\<lambda>(k, d, m). Some ([k, d] @ replicate 62 m)),
     sg_sig_deser = (\<lambda>b. Some (b ! 0, b ! 1, b ! 2)), sg_capacity = (\<lambda>m. m)\<rparr>"

lemma demo_scheme_ok: "scheme_ok demo_scheme" "nonces_apart demo_scheme of_nat"
proof -
  show "scheme_ok demo_scheme" by (auto simp: scheme_ok_def sig_ok_def demo_scheme_def)
  have "(of_nat i :: u8) \<noteq> of_nat j" if "i < 3" "j < i" for i j
    using that by (auto simp: numeral_3_eq_3 less_Suc_eq)
  then show "nonces_apart demo_scheme of_nat" by (simp add: nonces_apart_def demo_scheme_def)
qed

lemma demo_key_ok: "key_ok ref_hex demo_scheme"
  by code_simp

lemma signing_tests_run:
  "list_all (\<lambda>t. \<exists>h'. t demo_heap = Fine (True, h') \<and> hp_cells h' = hp_cells demo_heap)
     (signing_tests ref_hex demo_scheme of_nat [[1, 2], []])"
proof -
  have "heap_ok demo_heap" by (simp add: heap_ok_def demo_heap_def)
  from signing_tests_pass [OF demo_scheme_ok(1) demo_key_ok demo_scheme_ok(2) this, of "[[1, 2], []]"]
  show ?thesis by (simp add: list_all_iff)
qed

end
