(* ===== verification/SchemeTests.thy ===== *)
theory SchemeTests
  imports SigningTests
begin

text \<open>
  The tests of \<open>transaction_ffi.rs\<close> that ask something of the signature scheme besides its laws: that
  signatures and keys are not zero, that a signature is not one of another message, that the zero key
  is none. They are programs as in \<open>SigningTests\<close> and end there where the scheme has that property.
  The BIP-340 vectors, which ask that the scheme derives known keys, are at the end.
\<close>

subsection \<open>The tests\<close>

definition all_zeros :: "bytes \<Rightarrow> bool" where
  "all_zeros bs \<longleftrightarrow> list_all (\<lambda>b. b = 0) bs"

definition test_invalid_all_zero_private_key :: "('sk, 'vk, 'sig, 'nonce) sig_lib \<Rightarrow> 'sk test" where
  "test_invalid_all_zero_private_key sl =
     (let invalid_key = replicate 32 0 in
      key_then sl (Some invalid_key) 32 (\<lambda>key_ptr. assert_then (key_ptr = None) done_test))"

definition test_sign_data_produces_valid_signature ::
    "hexlib \<Rightarrow> ('sk, 'vk, 'sig, 'nonce) sig_lib \<Rightarrow> 'nonce \<Rightarrow> 'sk test" where
  "test_sign_data_produces_valid_signature hx sl n =
     with_key_array hx valid_key_hex (\<lambda>key_array.
     key_then sl (Some key_array) 32 (\<lambda>key_ptr.
     assert_then (key_ptr \<noteq> None) (
     let data = ascii_bytes ''test message'' in
     sign_then sl n key_ptr (Some data) (usize_len data) (\<lambda>sig.
     assert_then (sb_data sig \<noteq> None) (
     assert_then (sb_len sig > 0) (
     assert_then (sb_len sig = 64) (
     slice_then (sb_data sig) (sb_len sig) (\<lambda>sig_slice.
     assert_then (\<not> all_zeros sig_slice) (
     free_then (free_signature (sb_data sig) (sb_len sig)) (
     free_then (free_signing_key key_ptr) done_test))))))))))"

definition test_get_verifying_key :: "hexlib \<Rightarrow> ('sk, 'vk, 'sig, 'nonce) sig_lib \<Rightarrow> 'sk test" where
  "test_get_verifying_key hx sl =
     with_key_array hx valid_key_hex (\<lambda>key_array.
     key_then sl (Some key_array) 32 (\<lambda>key_ptr.
     assert_then (key_ptr \<noteq> None) (
     verifying_then sl key_ptr (\<lambda>pub_key_ptr.
     assert_then (pub_key_ptr \<noteq> None) (
     slice_then pub_key_ptr 32 (\<lambda>pub_key_bytes.
     assert_then (length pub_key_bytes = 32) (
     assert_then (\<not> all_zeros pub_key_bytes) (
     free_then (free_verifying_key pub_key_ptr) (
     free_then (free_signing_key key_ptr) done_test)))))))))"

definition test_signature_verification_wrong_data_fails ::
    "hexlib \<Rightarrow> ('sk, 'vk, 'sig, 'nonce) sig_lib \<Rightarrow> 'nonce \<Rightarrow> 'sk test" where
  "test_signature_verification_wrong_data_fails hx sl n =
     with_key_array hx valid_key_hex (\<lambda>key_array.
     key_then sl (Some key_array) 32 (\<lambda>key_ptr.
     let data = ascii_bytes ''test message'' in
     sign_then sl n key_ptr (Some data) (usize_len data) (\<lambda>sig.
     verifying_then sl key_ptr (\<lambda>pub_key_ptr.
     slice_then (sb_data sig) (sb_len sig) (\<lambda>sig_bytes.
     slice_then pub_key_ptr 32 (\<lambda>pub_key_bytes.
     unwrap_then (sg_sig_deser sl sig_bytes) (\<lambda>signature.
     unwrap_then (sg_vk_deser sl pub_key_bytes) (\<lambda>verifying_key.
     let wrong_data = ascii_bytes ''wrong message'' in
     assert_then (\<not> sg_verify sl verifying_key wrong_data signature) (
     free_then (free_signature (sb_data sig) (sb_len sig)) (
     free_then (free_verifying_key pub_key_ptr) (
     free_then (free_signing_key key_ptr) done_test)))))))))))"

definition test_signature_format_is_64_bytes ::
    "hexlib \<Rightarrow> ('sk, 'vk, 'sig, 'nonce) sig_lib \<Rightarrow> 'nonce \<Rightarrow> 'sk test" where
  "test_signature_format_is_64_bytes hx sl n =
     with_key_array hx valid_key_hex (\<lambda>key_array.
     key_then sl (Some key_array) 32 (\<lambda>key_ptr.
     let data = ascii_bytes ''test'' in
     sign_then sl n key_ptr (Some data) (usize_len data) (\<lambda>sig.
     assert_then (sb_len sig = 64) (
     slice_then (sb_data sig) (sb_len sig) (\<lambda>sig_bytes.
     let r_bytes = take 32 sig_bytes; s_bytes = take 32 (drop 32 sig_bytes) in
     assert_then (\<not> all_zeros r_bytes) (
     assert_then (\<not> all_zeros s_bytes) (
     free_then (free_signature (sb_data sig) (sb_len sig)) (
     free_then (free_signing_key key_ptr) done_test))))))))"

definition bip32_private_key_hex :: string where
  "bip32_private_key_hex = ''d319aebe08e7706091e56b1abe83f50ba6d3ceb4209dd0deca8ab22b264ff31c''"

definition test_phase1_bip32_to_schnorr_integration ::
    "hexlib \<Rightarrow> ('sk, 'vk, 'sig, 'nonce) sig_lib \<Rightarrow> 'nonce \<Rightarrow> 'sk test" where
  "test_phase1_bip32_to_schnorr_integration hx sl n =
     with_key_array hx bip32_private_key_hex (\<lambda>key_array.
     key_then sl (Some key_array) 32 (\<lambda>key_ptr.
     assert_then (key_ptr \<noteq> None) (
     let transaction_data = ascii_bytes ''Midnight transaction intent data'' in
     sign_then sl n key_ptr (Some transaction_data) (usize_len transaction_data) (\<lambda>sig.
     assert_then (sb_data sig \<noteq> None) (
     assert_then (sb_len sig = 64) (
     verifying_then sl key_ptr (\<lambda>pub_key_ptr.
     assert_then (pub_key_ptr \<noteq> None) (
     slice_then (sb_data sig) (sb_len sig) (\<lambda>sig_bytes.
     slice_then pub_key_ptr 32 (\<lambda>pub_key_bytes.
     unwrap_then (sg_sig_deser sl sig_bytes) (\<lambda>signature.
     unwrap_then (sg_vk_deser sl pub_key_bytes) (\<lambda>verifying_key.
     assert_then (sg_verify sl verifying_key transaction_data signature) (
     let wrong_data = ascii_bytes ''Different transaction data'' in
     assert_then (\<not> sg_verify sl verifying_key wrong_data signature) (
     free_then (free_signature (sb_data sig) (sb_len sig)) (
     free_then (free_verifying_key pub_key_ptr) (
     free_then (free_signing_key key_ptr) done_test))))))))))))))))"

subsection \<open>They pass\<close>

text \<open>
  What the tests ask of the scheme, for the encodings of what it makes: neither half of a signature is
  zero, nor is a verifying key; a signature of these messages is none of the other; the zero key is
  refused.
\<close>

definition scheme_strict :: "('sk, 'vk, 'sig, 'nonce) sig_lib \<Rightarrow> bool" where
  "scheme_strict sl \<longleftrightarrow>
     (\<forall>sk n d b. length b = 64 \<and> sg_sig_deser sl b = Some (sg_sign sl sk n d) \<longrightarrow>
        \<not> all_zeros (take 32 b) \<and> \<not> all_zeros (drop 32 b)) \<and>
     (\<forall>sk b. length b = 32 \<and> sg_vk_deser sl b = Some (sg_verifying_key sl sk) \<longrightarrow> \<not> all_zeros b) \<and>
     (\<forall>sk n. \<not> sg_verify sl (sg_verifying_key sl sk) (ascii_bytes ''wrong message'')
        (sg_sign sl sk n (ascii_bytes ''test message''))) \<and>
     (\<forall>sk n. \<not> sg_verify sl (sg_verifying_key sl sk) (ascii_bytes ''Different transaction data'')
        (sg_sign sl sk n (ascii_bytes ''Midnight transaction intent data''))) \<and>
     sg_from_bytes sl (replicate 32 0) = None"

lemma strict_facts:
  assumes "scheme_strict sl"
  shows "length b = 64 \<Longrightarrow> sg_sig_deser sl b = Some (sg_sign sl sk n d) \<Longrightarrow> \<not> all_zeros (take 32 b)"
    and "length b = 64 \<Longrightarrow> sg_sig_deser sl b = Some (sg_sign sl sk n d) \<Longrightarrow> \<not> all_zeros (take 32 (drop 32 b))"
    and "length b = 64 \<Longrightarrow> sg_sig_deser sl b = Some (sg_sign sl sk n d) \<Longrightarrow> \<not> all_zeros b"
    and "length b = 32 \<Longrightarrow> sg_vk_deser sl b = Some (sg_verifying_key sl sk) \<Longrightarrow> \<not> all_zeros b"
    and "\<not> sg_verify sl (sg_verifying_key sl sk) (ascii_bytes ''wrong message'')
      (sg_sign sl sk n (ascii_bytes ''test message''))"
    and "\<not> sg_verify sl (sg_verifying_key sl sk) (ascii_bytes ''Different transaction data'')
      (sg_sign sl sk n (ascii_bytes ''Midnight transaction intent data''))"
proof -
  note s = assms [unfolded scheme_strict_def]
  show "\<not> all_zeros (take 32 b)" "\<not> all_zeros (take 32 (drop 32 b))" "\<not> all_zeros b"
    if "length b = 64" "sg_sig_deser sl b = Some (sg_sign sl sk n d)"
  proof -
    have h: "\<not> all_zeros (take 32 b)" "\<not> all_zeros (drop 32 b)" using s that by blast+
    then show "\<not> all_zeros (take 32 b)" "\<not> all_zeros (take 32 (drop 32 b))" using that(1) by simp_all
    show "\<not> all_zeros b" using h(1) by (auto simp: all_zeros_def list_all_iff dest: in_set_takeD)
  qed
  show "length b = 32 \<Longrightarrow> sg_vk_deser sl b = Some (sg_verifying_key sl sk) \<Longrightarrow> \<not> all_zeros b"
    "\<not> sg_verify sl (sg_verifying_key sl sk) (ascii_bytes ''wrong message'')
      (sg_sign sl sk n (ascii_bytes ''test message''))"
    "\<not> sg_verify sl (sg_verifying_key sl sk) (ascii_bytes ''Different transaction data'')
      (sg_sign sl sk n (ascii_bytes ''Midnight transaction intent data''))"
    using s by blast+
qed

lemma scheme_tests_end:
  assumes sl: "scheme_ok sl" and st: "scheme_strict sl" and k: "key_ok hx sl" and h: "heap_ok h"
  shows "ends (hp_cells h) (test_sign_data_produces_valid_signature hx sl m) h"
    and "ends (hp_cells h) (test_get_verifying_key hx sl) h"
    and "ends (hp_cells h) (test_signature_verification_wrong_data_fails hx sl m) h"
    and "ends (hp_cells h) (test_signature_format_is_64_bytes hx sl m) h"
  unfolding test_sign_data_produces_valid_signature_def test_get_verifying_key_def
    test_signature_verification_wrong_data_fails_def test_signature_format_is_64_bytes_def Let_def
  by (rule ends_key [OF k h] ends_rules ends_sign [OF sl] ends_verifying [OF sl] ends_slice ends_unwrap refl
      strict_facts(5) [OF st] | assumption | (rule strict_facts(1-4) [OF st], assumption, assumption)
    | simp add: usize_len_def cells_simps)+

lemma key_tests_end:
  assumes sl: "scheme_ok sl" and st: "scheme_strict sl" and h: "heap_ok h"
  shows "ends (hp_cells h) (test_invalid_all_zero_private_key sl) h"
    and "key_hex_ok hx sl bip32_private_key_hex \<Longrightarrow>
      ends (hp_cells h) (test_phase1_bip32_to_schnorr_integration hx sl m) h"
proof -
  show "ends (hp_cells h) (test_invalid_all_zero_private_key sl) h"
    using st by (simp add: test_invalid_all_zero_private_key_def test_steps ends_def create_signing_key_def
        slice_from_def scheme_strict_def)
  assume k: "key_hex_ok hx sl bip32_private_key_hex"
  show "ends (hp_cells h) (test_phase1_bip32_to_schnorr_integration hx sl m) h"
    unfolding test_phase1_bip32_to_schnorr_integration_def Let_def
    by (rule ends_key [OF k h] ends_rules ends_sign [OF sl] ends_verifying [OF sl] ends_slice ends_unwrap refl
        scheme_verifies [OF sl] strict_facts(6) [OF st] | assumption | simp add: usize_len_def cells_simps)+
qed

text \<open>A scheme with a mark at both ends of a signature and at the front of a key is strict.\<close>

definition marked_scheme :: "(u8, u8, u8 \<times> u8 \<times> u8, u8) sig_lib" where
  "marked_scheme = demo_scheme\<lparr>sg_from_bytes := (\<lambda>b. if hd b = 0 then None else Some (hd b)),
     sg_vk_ser := (\<lambda>v. Some (1 # replicate 31 v)), sg_vk_deser := (\<lambda>b. if b ! 0 = 1 then Some (b ! 1) else None),
     sg_sig_ser := (\<lambda>(k, d, m). Some ([1, k, d, m] @ replicate 60 1)),
     sg_sig_deser := (\<lambda>b. if b ! 0 = 1 \<and> b ! 63 = 1 then Some (b ! 1, b ! 2, b ! 3) else None)\<rparr>"

lemma marked_scheme_ok: "scheme_ok marked_scheme" "scheme_strict marked_scheme"
proof -
  show "scheme_ok marked_scheme"
    by (auto simp: scheme_ok_def sig_ok_def marked_scheme_def demo_scheme_def)
  have marks: "\<not> all_zeros bs" if "i < length bs" "bs ! i = 1" for bs :: bytes and i
    using that by (auto simp: all_zeros_def list_all_length)
  have digests: "demo_digest (ascii_bytes ''wrong message'') \<noteq> demo_digest (ascii_bytes ''test message'')"
    "demo_digest (ascii_bytes ''Different transaction data'') \<noteq> demo_digest (ascii_bytes ''Midnight transaction intent data'')"
    by code_simp+
  show "scheme_strict marked_scheme"
    unfolding scheme_strict_def
  proof (intro conjI allI impI)
    fix b :: bytes and sk m d
    assume "length b = 64 \<and> sg_sig_deser marked_scheme b = Some (sg_sign marked_scheme sk m d)"
    then have "length b = 64" "b ! 0 = 1" "b ! 63 = 1" by (auto simp: marked_scheme_def split: if_splits)
    then show "\<not> all_zeros (take 32 b)" "\<not> all_zeros (drop 32 b)"
      using marks [of 0 "take 32 b"] marks [of 31 "drop 32 b"] by simp_all
  next
    fix b :: bytes and sk
    assume "length b = 32 \<and> sg_vk_deser marked_scheme b = Some (sg_verifying_key marked_scheme sk)"
    then show "\<not> all_zeros b" using marks [of 0 b] by (auto simp: marked_scheme_def split: if_splits)
  qed (use digests in \<open>auto simp: marked_scheme_def demo_scheme_def\<close>)
qed

lemma scheme_tests_run:
  "ends (hp_cells demo_heap) (test_sign_data_produces_valid_signature ref_hex marked_scheme 1) demo_heap"
  "ends (hp_cells demo_heap) (test_phase1_bip32_to_schnorr_integration ref_hex marked_scheme 1) demo_heap"
proof -
  have h: "heap_ok demo_heap" by (simp add: heap_ok_def demo_heap_def)
  have k: "key_ok ref_hex marked_scheme" "key_hex_ok ref_hex marked_scheme bip32_private_key_hex" by code_simp+
  show "ends (hp_cells demo_heap) (test_sign_data_produces_valid_signature ref_hex marked_scheme 1) demo_heap"
    by (rule scheme_tests_end [OF marked_scheme_ok k(1) h])
  show "ends (hp_cells demo_heap) (test_phase1_bip32_to_schnorr_integration ref_hex marked_scheme 1) demo_heap"
    by (rule key_tests_end(2) [OF marked_scheme_ok h k(2)])
qed

subsection \<open>BIP-340 vectors\<close>

definition test_bip340_public_key_derivation :: "hexlib \<Rightarrow> ('sk, 'vk, 'sig, 'nonce) sig_lib \<Rightarrow> 'sk test" where
  "test_bip340_public_key_derivation hx sl =
     with_key_array hx ''0000000000000000000000000000000000000000000000000000000000000003'' (\<lambda>key_array.
     unwrap_then (hx_dec hx ''F9308A019258C31049344F85F89D5229B531C845836F99B08601F113BCE036F9'') (\<lambda>expected_pub_key.
     key_then sl (Some key_array) 32 (\<lambda>key_ptr.
     assert_then (key_ptr \<noteq> None) (
     verifying_then sl key_ptr (\<lambda>pub_key_ptr.
     assert_then (pub_key_ptr \<noteq> None) (
     slice_then pub_key_ptr 32 (\<lambda>pub_key_bytes.
     assert_then (pub_key_bytes = expected_pub_key) (
     free_then (free_verifying_key pub_key_ptr) (
     free_then (free_signing_key key_ptr) done_test)))))))))"

fun check_vectors ::
    "hexlib \<Rightarrow> ('sk, 'vk, 'sig, 'nonce) sig_lib \<Rightarrow> (string \<times> string) list \<Rightarrow> 'sk test" where
  "check_vectors hx sl [] = done_test"
| "check_vectors hx sl ((priv_hex, pub_hex) # test_vectors) =
     with_key_array hx priv_hex (\<lambda>key_array.
     unwrap_then (hx_dec hx pub_hex) (\<lambda>expected_pub_key.
     key_then sl (Some key_array) 32 (\<lambda>key_ptr.
     assert_then (key_ptr \<noteq> None) (
     verifying_then sl key_ptr (\<lambda>pub_key_ptr.
     slice_then pub_key_ptr 32 (\<lambda>pub_key_bytes.
     assert_then (pub_key_bytes = expected_pub_key) (
     free_then (free_verifying_key pub_key_ptr) (
     free_then (free_signing_key key_ptr) (check_vectors hx sl test_vectors)))))))))"

definition test_bip340_additional_test_vectors :: "hexlib \<Rightarrow> ('sk, 'vk, 'sig, 'nonce) sig_lib \<Rightarrow> 'sk test" where
  "test_bip340_additional_test_vectors hx sl = check_vectors hx sl
     [(''B7E151628AED2A6ABF7158809CF4F3C762E7160F38B4DA56A784D9045190CFEF'',
       ''DFF1D77F2A671C5F36183726DB2341BE58FEAE1DA2DECED843240F7B502BA659'')]"

text \<open>A vector holds when the scheme derives that public key from that private key.\<close>

definition vector_holds :: "hexlib \<Rightarrow> ('sk, 'vk, 'sig, 'nonce) sig_lib \<Rightarrow> string \<Rightarrow> string \<Rightarrow> bool" where
  "vector_holds hx sl priv_hex pub_hex \<longleftrightarrow>
     (case (hx_dec hx priv_hex, hx_dec hx pub_hex) of
        (Some kb, Some pb) \<Rightarrow> length kb = 32 \<and>
          (case sg_from_bytes sl kb of Some sk \<Rightarrow> sg_vk_ser sl (sg_verifying_key sl sk) = Some pb | None \<Rightarrow> False)
      | _ \<Rightarrow> False)"

lemma ends_array:
  "hx_dec hx key_hex = Some kb \<Longrightarrow> length kb = 32 \<Longrightarrow> ends c (k kb) h \<Longrightarrow> ends c (with_key_array hx key_hex k) h"
  by (simp add: ends_def with_key_array_def)

lemma ends_accepted:
  assumes "sg_from_bytes sl kb = Some sk" and "length kb = 32" and "heap_ok h"
    and "\<And>h'. grown h (Boxed sk) h' \<Longrightarrow> ends c (k (Some (hp_next h))) h'"
  shows "ends c (key_then sl (Some kb) 32 k) h"
proof -
  obtain h' where "heap_alloc (Boxed sk) h = (hp_next h, h')" "grown h (Boxed sk) h'"
    using alloc_grown [OF assms(3)] by blast
  then show ?thesis
    using assms by (simp add: ends_def key_then_def create_signing_key_def slice_from_def)
qed

lemma ends_refused:
  "sg_from_bytes sl kb = None \<Longrightarrow> length kb = 32 \<Longrightarrow> ends c (k None) h \<Longrightarrow> ends c (key_then sl (Some kb) 32 k) h"
  by (simp add: ends_def key_then_def create_signing_key_def slice_from_def)

lemma vector_facts:
  assumes "vector_holds hx sl priv_hex pub_hex"
  obtains kb pb sk where "hx_dec hx priv_hex = Some kb" "length kb = 32" "hx_dec hx pub_hex = Some pb"
    "sg_from_bytes sl kb = Some sk" "sg_vk_ser sl (sg_verifying_key sl sk) = Some pb"
  using assms by (auto simp: vector_holds_def split: option.splits)

lemma ends_public_key:
  assumes "scheme_ok sl" and "sg_vk_ser sl (sg_verifying_key sl sk) = Some pb"
    and "heap_ok h" and "hp_cells h p = Some (Boxed sk)"
    and "\<And>h'. grown h (ByteVec pb 32) h' \<Longrightarrow> length pb = 32 \<Longrightarrow> ends c (k (Some (hp_next h))) h'"
  shows "ends c (verifying_then sl (Some p) k) h"
proof -
  have "\<exists>b. sg_vk_ser sl (sg_verifying_key sl sk) = Some b \<and> length b = 32"
    using assms(1) unfolding scheme_ok_def by blast
  then have b: "length pb = 32" "sg_capacity sl 32 = 32"
    using assms(1,2) by (auto simp: scheme_ok_def sig_ok_def)
  obtain h' where al: "heap_alloc (ByteVec pb 32) h = (hp_next h, h')" "grown h (ByteVec pb 32) h'"
    using alloc_grown [OF assms(3)] by blast
  from assms(5) [OF al(2) b(1)] have "ends c (k (Some (hp_next h))) h'" .
  then show ?thesis
    using assms(2,4) b al by (simp add: ends_def verifying_then_def get_verifying_key_def deref_key_def)
qed

lemma vector_tests_end:
  assumes sl: "scheme_ok sl" and h: "heap_ok h"
  shows "vector_holds hx sl ''0000000000000000000000000000000000000000000000000000000000000003''
      ''F9308A019258C31049344F85F89D5229B531C845836F99B08601F113BCE036F9'' \<Longrightarrow>
      ends (hp_cells h) (test_bip340_public_key_derivation hx sl) h"
    and "vector_holds hx sl ''B7E151628AED2A6ABF7158809CF4F3C762E7160F38B4DA56A784D9045190CFEF''
      ''DFF1D77F2A671C5F36183726DB2341BE58FEAE1DA2DECED843240F7B502BA659'' \<Longrightarrow>
      ends (hp_cells h) (test_bip340_additional_test_vectors hx sl) h"
proof -
  assume "vector_holds hx sl ''0000000000000000000000000000000000000000000000000000000000000003''
      ''F9308A019258C31049344F85F89D5229B531C845836F99B08601F113BCE036F9''"
  then show "ends (hp_cells h) (test_bip340_public_key_derivation hx sl) h"
  proof (rule vector_facts)
    fix kb pb sk
    assume "hx_dec hx ''0000000000000000000000000000000000000000000000000000000000000003'' = Some kb" "length kb = 32"
      "hx_dec hx ''F9308A019258C31049344F85F89D5229B531C845836F99B08601F113BCE036F9'' = Some pb"
      "sg_from_bytes sl kb = Some sk" "sg_vk_ser sl (sg_verifying_key sl sk) = Some pb"
    then show ?thesis
      unfolding test_bip340_public_key_derivation_def
      by - (rule ends_array ends_unwrap ends_accepted ends_public_key [OF sl] ends_slice h ends_rules refl
        | assumption | simp add: cells_simps)+
  qed
next
  assume "vector_holds hx sl ''B7E151628AED2A6ABF7158809CF4F3C762E7160F38B4DA56A784D9045190CFEF''
      ''DFF1D77F2A671C5F36183726DB2341BE58FEAE1DA2DECED843240F7B502BA659''"
  then show "ends (hp_cells h) (test_bip340_additional_test_vectors hx sl) h"
  proof (rule vector_facts)
    fix kb pb sk
    assume "hx_dec hx ''B7E151628AED2A6ABF7158809CF4F3C762E7160F38B4DA56A784D9045190CFEF'' = Some kb" "length kb = 32"
      "hx_dec hx ''DFF1D77F2A671C5F36183726DB2341BE58FEAE1DA2DECED843240F7B502BA659'' = Some pb"
      "sg_from_bytes sl kb = Some sk" "sg_vk_ser sl (sg_verifying_key sl sk) = Some pb"
    then show ?thesis
      unfolding test_bip340_additional_test_vectors_def check_vectors.simps
      by - (rule ends_array ends_unwrap ends_accepted ends_public_key [OF sl] ends_slice h ends_rules refl
        | assumption | simp add: cells_simps)+
  qed
qed

end
