(* ===== verification/KeyTests.thy ===== *)
theory KeyTests
  imports SchemeTests
begin

text \<open>
  The checks of \<open>test_key_validity.rs\<close>, whether two given keys are accepted: programs on the heap as in
  \<open>SigningTests\<close>, with the schemes for which they end there. The last one ends exactly on the branch
  the scheme takes for each key, frees what it got, and asks that one of them is valid.
\<close>

subsection \<open>The checks\<close>

text \<open>
  The null pointer panics, otherwise the key is freed. The third test makes
  both keys before it frees the ones it got.
\<close>

definition hd_wallet_key_hex :: string where
  "hd_wallet_key_hex = ''ebf2aa00a28d02aa026f21813615b242d0dbf3f5166b659689a3b31fe98e0b5f''"

definition test_working_test_key :: "hexlib \<Rightarrow> ('sk, 'vk, 'sig, 'nonce) sig_lib \<Rightarrow> 'sk test" where
  "test_working_test_key hx sl =
     with_key_array hx bip32_private_key_hex (\<lambda>key_array.
     key_then sl (Some key_array) 32 (\<lambda>signing_key_ptr.
     assert_then (signing_key_ptr \<noteq> None) (
     free_then (free_signing_key signing_key_ptr) done_test)))"

definition test_hd_wallet_key :: "hexlib \<Rightarrow> ('sk, 'vk, 'sig, 'nonce) sig_lib \<Rightarrow> 'sk test" where
  "test_hd_wallet_key hx sl =
     with_key_array hx hd_wallet_key_hex (\<lambda>key_array.
     key_then sl (Some key_array) 32 (\<lambda>signing_key_ptr.
     assert_then (signing_key_ptr \<noteq> None) (
     free_then (free_signing_key signing_key_ptr) done_test)))"

definition free_if :: "bool \<Rightarrow> addr option \<Rightarrow> 'sk test \<Rightarrow> 'sk test" where
  "free_if valid p k = (if valid then free_then (free_signing_key p) k else k)"

definition test_both_keys_together :: "hexlib \<Rightarrow> ('sk, 'vk, 'sig, 'nonce) sig_lib \<Rightarrow> 'sk test" where
  "test_both_keys_together hx sl =
     with_key_array hx bip32_private_key_hex (\<lambda>working_array.
     with_key_array hx hd_wallet_key_hex (\<lambda>hd_array.
     key_then sl (Some working_array) 32 (\<lambda>working_ptr.
     key_then sl (Some hd_array) 32 (\<lambda>hd_ptr.
     let working_valid = (working_ptr \<noteq> None); hd_valid = (hd_ptr \<noteq> None) in
     free_if working_valid working_ptr (
     free_if hd_valid hd_ptr (
     assert_then (working_valid \<or> hd_valid) done_test))))))"

subsection \<open>They end\<close>

lemma key_checks_end:
  assumes h: "heap_ok h"
  shows "key_hex_ok hx sl bip32_private_key_hex \<Longrightarrow> ends (hp_cells h) (test_working_test_key hx sl) h"
    and "key_hex_ok hx sl hd_wallet_key_hex \<Longrightarrow> ends (hp_cells h) (test_hd_wallet_key hx sl) h"
  unfolding test_working_test_key_def test_hd_wallet_key_def
  by (rule ends_key [OF _ h] ends_rules refl | assumption | simp add: cells_simps)+

lemma ends_free_if:
  "ends c k h \<Longrightarrow> ends c (free_if (None \<noteq> None) None k) h"
  "ends c (free_then (free_signing_key (Some a)) k) h \<Longrightarrow> ends c (free_if (Some a \<noteq> None) (Some a) k) h"
  by (simp_all add: free_if_def)

lemma both_keys_end:
  assumes w: "hx_dec hx bip32_private_key_hex = Some wk" "length wk = 32"
    and d: "hx_dec hx hd_wallet_key_hex = Some hk" "length hk = 32"
    and a: "sg_from_bytes sl wk \<noteq> None \<or> sg_from_bytes sl hk \<noteq> None" and h: "heap_ok h"
  shows "ends (hp_cells h) (test_both_keys_together hx sl) h"
proof (cases "sg_from_bytes sl wk")
  case None
  then obtain sk where sk: "sg_from_bytes sl hk = Some sk" using a by auto
  show ?thesis unfolding test_both_keys_together_def Let_def
    by (rule ends_array [OF w] ends_array [OF d] ends_refused [OF None w(2)] ends_accepted [OF sk d(2)] h
        ends_free_if ends_rules | assumption | simp add: cells_simps)+
next
  case (Some sk)
  note wk = this
  show ?thesis
  proof (cases "sg_from_bytes sl hk")
    case None
    show ?thesis unfolding test_both_keys_together_def Let_def
      by (rule ends_array [OF w] ends_array [OF d] ends_accepted [OF wk w(2)] ends_refused [OF None d(2)] h
          ends_free_if ends_rules | assumption | simp add: cells_simps)+
  next
    case (Some sk')
    show ?thesis unfolding test_both_keys_together_def Let_def
      by (rule ends_array [OF w] ends_array [OF d] ends_accepted [OF wk w(2)] ends_accepted [OF Some d(2)] h
          ends_free_if ends_rules | assumption | simp add: cells_simps)+
  qed
qed

end
