(* ===== verification/ContractTests.thy ===== *)
theory ContractTests
  imports ErrorText Balance
begin

text \<open>
  Unit tests of \<open>contract_ffi.rs\<close> and \<open>balance_ffi.rs\<close> as predicates on the model: each says what
  its assertions say, with the same inputs, for any library that reads the test's texts the way
  they are written. The tests that need the ledger to build, prove or print a transaction are not
  here.
\<close>

subsection \<open>Fees, TTL windows and tags\<close>

definition test_dust_intent_ttl_window_fits_tight_global_ttl :: bool where
  "test_dust_intent_ttl_window_fits_tight_global_ttl \<longleftrightarrow>
     dust_intent_ttl_window_secs 100 = 85 \<and> dust_intent_ttl_window_secs 100 < 100"

definition test_dust_intent_ttl_window_caps_at_30min :: bool where
  "test_dust_intent_ttl_window_caps_at_30min \<longleftrightarrow> dust_intent_ttl_window_secs 3600 = 30 * 60"

definition test_dust_intent_ttl_window_halves_tiny_global_ttl :: bool where
  "test_dust_intent_ttl_window_halves_tiny_global_ttl \<longleftrightarrow> dust_intent_ttl_window_secs 10 = 5"

definition test_merged_total_fee_covers_dust_intent_cost :: bool where
  "test_merged_total_fee_covers_dust_intent_cost \<longleftrightarrow>
     (let base = 1000000; dust_intent = 400000; tot = merged_total_fee base dust_intent in
      tot \<ge> base + dust_intent \<and> tot > merged_total_fee base 0)"

definition test_strip_tag_prefix_with_tag :: bool where
  "test_strip_tag_prefix_with_tag \<longleftrightarrow>
     balance_strip_tag_prefix (map of_char ''midnight:ledger-parameters[v4]:deadbeef'') = map of_char ''deadbeef''"

definition test_strip_tag_prefix_with_params_tag :: bool where
  "test_strip_tag_prefix_with_params_tag \<longleftrightarrow>
     balance_strip_tag_prefix
       (map of_char ''midnight:transaction[v6](signature[v1],proof,pedersen-schnorr[v1]):cafebabe'') =
     map of_char ''cafebabe''"

definition test_strip_tag_prefix_no_tag :: bool where
  "test_strip_tag_prefix_no_tag \<longleftrightarrow>
     (let raw = map of_char ''deadbeef'' in balance_strip_tag_prefix raw = raw)"

lemma fee_and_tag_tests_pass:
  "test_dust_intent_ttl_window_fits_tight_global_ttl" "test_dust_intent_ttl_window_caps_at_30min"
  "test_dust_intent_ttl_window_halves_tiny_global_ttl" "test_merged_total_fee_covers_dust_intent_cost"
  "test_strip_tag_prefix_with_tag" "test_strip_tag_prefix_with_params_tag" "test_strip_tag_prefix_no_tag"
  by code_simp+

subsection \<open>The entry of the balancer\<close>

definition test_null_safety ::
    "hexlib \<Rightarrow> ('st, 'sk, 'utxo, 'spend, 'nul) dust_lib \<Rightarrow>
     ('ptx, 'etx, 'utx, 'stx, 'par, 'spend, 'reg, 'bind, 'offer, 'act) balance_lib \<Rightarrow> bool" where
  "test_null_safety hx dl bl \<longleftrightarrow>
     fst (balance_proven_transaction hx dl bl None None None 0 None 0 None None None 0) = None"

definition test_invalid_seed_length ::
    "hexlib \<Rightarrow> ('st, 'sk, 'utxo, 'spend, 'nul) dust_lib \<Rightarrow>
     ('ptx, 'etx, 'utx, 'stx, 'par, 'spend, 'reg, 'bind, 'offer, 'act) balance_lib \<Rightarrow> bool" where
  "test_invalid_seed_length hx dl bl \<longleftrightarrow>
     (let tx_hex = ''deadbeef''; params_hex = ''deadbeef''; keys_dir = ''/tmp''; network = ''undeployed'';
          seed = replicate 16 0 in
      fst (balance_proven_transaction hx dl bl (Some tx_hex) None (Some seed) (of_nat (length seed))
             (Some params_hex) 0 (Some keys_dir) (Some network) None 0) = None)"

definition test_invalid_proven_tx_hex ::
    "hexlib \<Rightarrow> ('st, 'sk, 'utxo, 'spend, 'nul) dust_lib \<Rightarrow>
     ('ptx, 'etx, 'utx, 'stx, 'par, 'spend, 'reg, 'bind, 'offer, 'act) balance_lib \<Rightarrow> 'st \<Rightarrow> bool" where
  "test_invalid_proven_tx_hex hx dl bl dust_state \<longleftrightarrow>
     (let tx_hex = ''not_valid_hex''; params_hex = ''deadbeef''; keys_dir = ''/tmp''; network = ''undeployed'';
          seed = replicate 32 0 in
      fst (balance_proven_transaction hx dl bl (Some tx_hex) (Some dust_state) (Some seed)
             (of_nat (length seed)) (Some params_hex) 1704067200000 (Some keys_dir) (Some network) None
             1704067200000) = None)"

text \<open>Text of odd length is no hex.\<close>

lemma odd_hex: "hex_ok hx \<Longrightarrow> odd (length s) \<Longrightarrow> hx_dec hx s = None"
  by (cases "hx_dec hx s") (auto simp: hex_ok_def)

lemma balancer_entry_tests_pass:
  "test_null_safety hx dl bl" "test_invalid_seed_length hx dl bl"
  "hex_ok hx \<Longrightarrow> test_invalid_proven_tx_hex hx dl bl st"
proof -
  show "test_null_safety hx dl bl" "test_invalid_seed_length hx dl bl"
    by (simp_all add: test_null_safety_def test_invalid_seed_length_def balance_proven_transaction_def)
  assume "hex_ok hx"
  moreover have "str_trim ''not_valid_hex'' = ''not_valid_hex''" by code_simp
  ultimately have "res_ok (balance_proven_transaction_impl hx dl bl (str_trim ''not_valid_hex'') st s p t k n e a) = None"
    for s p t k n e a by (simp add: balance_proven_transaction_impl_def odd_hex)
  then show "test_invalid_proven_tx_hex hx dl bl st"
    by (auto simp: test_invalid_proven_tx_hex_def balance_proven_transaction_def Let_def cstr_to_str_ascii is_ascii_def
        split: bind_splits option.splits)
qed

subsection \<open>The state pool\<close>

definition state_pool_len_reflects_create_and_free ::
    "json_lib \<Rightarrow> ('data, 'op, 'rest, 'gop, 'ev, 'gas) pool_lib \<Rightarrow>
     ('data, 'op, 'rest) contract_state pool \<Rightarrow> bool" where
  "state_pool_len_reflects_create_and_free jl pl p \<longleftrightarrow>
     (let (handle, p1) = contract_state_create_with_nulls jl pl (Some ''4'') p;
          len = contract_state_pool_len p1;
          (cloned, p2) = contract_state_clone handle p1;
          p3 = contract_state_free cloned p2;
          p4 = contract_state_free handle p3;
          (again, p5) = contract_state_clone handle p4;
          p6 = contract_state_free handle p5
      in handle > 0 \<and> len \<ge> 1 \<and> cloned > 0 \<and> again = 0 \<and> sp_entries p6 = sp_entries p5)"

text \<open>What the structure tests look at: the tree of the state behind the handle, if it is live.\<close>

definition created_tree ::
    "json_lib \<Rightarrow> ('data, 'op, 'rest, 'gop, 'ev, 'gas) pool_lib \<Rightarrow> string \<Rightarrow>
     ('data, 'op, 'rest) contract_state pool \<Rightarrow> state_value option" where
  "created_tree jl pl json p =
     (let (handle, pool) = contract_state_create_with_nulls jl pl (Some json) p in
      if handle > 0 then map_option (\<lambda>state. pl_get_ref pl (cs_data state)) (pool_get pool handle) else None)"

definition flat_number_creates_array_of_nulls ::
    "json_lib \<Rightarrow> ('data, 'op, 'rest, 'gop, 'ev, 'gas) pool_lib \<Rightarrow>
     ('data, 'op, 'rest) contract_state pool \<Rightarrow> bool" where
  "flat_number_creates_array_of_nulls jl pl p \<longleftrightarrow>
     (case created_tree jl pl ''4'' p of Some (SVArray arr) \<Rightarrow> length arr = 4 | _ \<Rightarrow> False)"

definition nested_json :: string where
  \<open>nested_json = ''{"array":[{"array":[null,null,null,null,null,null,null,null,null,null]},{"array":[]}]}''\<close>

definition nested_structure_creates_nested_arrays ::
    "json_lib \<Rightarrow> ('data, 'op, 'rest, 'gop, 'ev, 'gas) pool_lib \<Rightarrow>
     ('data, 'op, 'rest) contract_state pool \<Rightarrow> bool" where
  "nested_structure_creates_nested_arrays jl pl p \<longleftrightarrow>
     (case created_tree jl pl nested_json p of
        Some (SVArray arr) \<Rightarrow> length arr = 2 \<and>
          (case arr of SVArray inner # rest \<Rightarrow> length inner = 10 | _ \<Rightarrow> False)
      | _ \<Rightarrow> False)"

definition null_structure_creates_null ::
    "json_lib \<Rightarrow> ('data, 'op, 'rest, 'gop, 'ev, 'gas) pool_lib \<Rightarrow>
     ('data, 'op, 'rest) contract_state pool \<Rightarrow> bool" where
  "null_structure_creates_null jl pl p \<longleftrightarrow> created_tree jl pl ''null'' p = Some SVNull"

definition oversized_json :: string where
  \<open>oversized_json = ''{"array":['' @ str_join '','' (replicate 100 ''null'') @ '']}''\<close>

definition oversized_array_capped_at_64 ::
    "json_lib \<Rightarrow> ('data, 'op, 'rest, 'gop, 'ev, 'gas) pool_lib \<Rightarrow>
     ('data, 'op, 'rest) contract_state pool \<Rightarrow> bool" where
  "oversized_array_capped_at_64 jl pl p \<longleftrightarrow>
     (case created_tree jl pl oversized_json p of Some (SVArray arr) \<Rightarrow> length arr = 64 | _ \<Rightarrow> False)"

text \<open>The texts mean what they say, and a charged state is read back.\<close>

definition reads_structures :: "json_lib \<Rightarrow> bool" where
  "reads_structures jl \<longleftrightarrow>
     jl_parse jl ''4'' = Some (json_u64 4) \<and> jl_parse jl ''null'' = Some JNull \<and>
     jl_parse jl nested_json = Some (JObject [(''array'', JArray
       [JObject [(''array'', JArray (replicate 10 JNull))], JObject [(''array'', JArray [])]])]) \<and>
     jl_parse jl oversized_json = Some (JObject [(''array'', JArray (replicate 100 JNull))])"

definition charged_readable :: "('data, 'op, 'rest, 'gop, 'ev, 'gas) pool_lib \<Rightarrow> bool" where
  "charged_readable pl \<longleftrightarrow> (\<forall>sv. pl_get_ref pl (pl_charged pl sv) = sv)"

lemma plain_c_str: "is_ascii s \<Longrightarrow> CHR 0x00 \<notin> set s \<Longrightarrow> c_str_to_str (Some s) = Some s"
  by (simp add: c_str_to_str_def cstr_to_str_ascii)

lemma created_tree_value:
  assumes "charged_readable pl" "sp_next p \<noteq> 0" "c_str_to_str (Some json) = Some json"
    and "structure_value jl json = Some sv"
  shows "created_tree jl pl json p = Some sv"
proof -
  let ?s = "(pl_default pl)\<lparr>cs_data := pl_charged pl sv\<rparr>"
  have "contract_state_create_with_nulls jl pl (Some json) p = alloc ?s p"
    using assms(3,4) by (simp add: contract_state_create_with_nulls_def)
  moreover have "pool_get (snd (alloc ?s p)) (sp_next p) = Some ?s" "fst (alloc ?s p) = sp_next p"
    by (simp_all add: alloc_def take_handle_def sp.get_ins_same)
  ultimately show ?thesis
    using assms(1,2) by (simp add: created_tree_def charged_readable_def word_gt_0 case_prod_beta)
qed

lemma structure_number: "jl_parse jl json = Some (json_u64 n) \<Longrightarrow> unat n \<le> 64 \<Longrightarrow>
    structure_value jl json = Some (SVArray (replicate (unat n) SVNull))"
  by (simp add: structure_value_def build_state_from_descriptor_def build_state_recursive.simps json_u64_def)

lemma build_nulls: "mapE (\<lambda>item. build_state_recursive item 1) (replicate n JNull) = Inr (replicate n SVNull)"
  by (induction n) (simp_all add: build_state_recursive.simps)

lemma structure_tests_pass:
  assumes "reads_structures jl" "charged_readable pl" "sp_next p \<noteq> 0"
  shows "flat_number_creates_array_of_nulls jl pl p" "null_structure_creates_null jl pl p"
    and "oversized_array_capped_at_64 jl pl p" "nested_structure_creates_nested_arrays jl pl p"
proof -
  note r = assms(1) [unfolded reads_structures_def]
  note tree = created_tree_value [OF assms(2,3)]
  have s: "c_str_to_str (Some ''4'') = Some ''4''" "c_str_to_str (Some ''null'') = Some ''null''"
    "c_str_to_str (Some nested_json) = Some nested_json" "c_str_to_str (Some oversized_json) = Some oversized_json"
    by (rule plain_c_str; code_simp)+
  have "structure_value jl ''4'' = Some (SVArray (replicate 4 SVNull))"
    using structure_number [of jl "''4''" 4] r by simp
  from tree [OF s(1) this] show "flat_number_creates_array_of_nulls jl pl p"
    by (simp add: flat_number_creates_array_of_nulls_def)
  have "structure_value jl ''null'' = Some SVNull"
    using r by (simp add: structure_value_def build_state_from_descriptor_def build_state_recursive.simps)
  from tree [OF s(2) this] show "null_structure_creates_null jl pl p"
    by (simp add: null_structure_creates_null_def)
  have "structure_value jl oversized_json = Some (SVArray (replicate 64 SVNull))"
    using r build_nulls [of 64]
    by (simp add: structure_value_def build_state_from_descriptor_def build_state_recursive.simps [of "JObject xs" for xs])
  from tree [OF s(4) this] show "oversized_array_capped_at_64 jl pl p"
    by (simp add: oversized_array_capped_at_64_def)
  have "build_state_from_descriptor (JObject [(''array'', JArray
      [JObject [(''array'', JArray (replicate 10 JNull))], JObject [(''array'', JArray [])]])]) =
    Inr (SVArray [SVArray (replicate 10 SVNull), SVArray []])"
    by code_simp
  then have "structure_value jl nested_json = Some (SVArray [SVArray (replicate 10 SVNull), SVArray []])"
    using r by (simp add: structure_value_def)
  from tree [OF s(3) this] show "nested_structure_creates_nested_arrays jl pl p"
    by (simp add: nested_structure_creates_nested_arrays_def)
qed

text \<open>Handles are distinct and not null, so the pool's length fits the counter.\<close>

lemma pool_length_bound:
  assumes "pool_ok p"
  shows "length (sp_entries p) < 2 ^ 64"
proof -
  have "length (sp_entries p) = card (fst ` set (sp_entries p))"
    using assms by (metis distinct_card length_map list.set_map pool_ok_def)
  also have "\<dots> \<le> card (UNIV - {0 :: u64})"
    using assms by (intro card_mono) (auto simp: pool_ok_def)
  also have "\<dots> < 2 ^ 64" by (simp add: card_word)
  finally show ?thesis .
qed

lemma pool_len_test_passes:
  assumes "pool_ok p" "sp_next p \<noteq> 0" "sp_next p + 1 \<noteq> 0" "sp_next p + 2 \<noteq> 0" "reads_structures jl"
  shows "state_pool_len_reflects_create_and_free jl pl p"
proof -
  have s: "c_str_to_str (Some ''4'') = Some ''4''" by (rule plain_c_str; code_simp)
  have v: "structure_value jl ''4'' = Some (SVArray (replicate 4 SVNull))"
    using structure_number [of jl "''4''" 4] assms(5) by (simp add: reads_structures_def)
  define st where "st = (pl_default pl)\<lparr>cs_data := pl_charged pl (SVArray (replicate 4 SVNull))\<rparr>"
  define p1 where "p1 = snd (alloc st p)"
  have create: "contract_state_create_with_nulls jl pl (Some ''4'') p = (sp_next p, p1)"
    using s v by (simp add: contract_state_create_with_nulls_def st_def p1_def alloc_def take_handle_def)
  have ok1: "pool_ok p1" unfolding p1_def by (rule pool_ok_alloc [OF assms(1-3)])
  have p1: "pool_get p1 (sp_next p) = Some st" "sp_next p1 = sp_next p + 1"
    by (simp_all add: p1_def alloc_def take_handle_def sp.get_ins_same)
  have "sp_entries p1 \<noteq> []" using p1(1) by (auto simp: pool_get_def)
  then have len: "contract_state_pool_len p1 \<ge> 1"
    using pool_length_bound [OF ok1]
    by (simp add: contract_state_pool_len_def word_le_nat_alt unat_of_nat take_bit_nat_eq_self Suc_le_eq)
  define p2 where "p2 = snd (alloc st p1)"
  have clone: "contract_state_clone (sp_next p) p1 = (sp_next p + 1, p2)"
    by (simp add: contract_state_clone_def p1 p2_def alloc_def take_handle_def)
  define p4 where "p4 = pool_remove (sp_next p) (pool_remove (sp_next p + 1) p2)"
  have gone: "pool_get p4 (sp_next p) = None" unfolding p4_def by (simp add: sp.get_del)
  then have "contract_state_clone (sp_next p) p4 = (0, p4)" by (simp add: contract_state_clone_def)
  then show ?thesis
    using create clone len assms(2,3) pool_remove_fresh [OF gone]
    by (simp add: state_pool_len_reflects_create_and_free_def contract_state_free_def p4_def [symmetric] word_gt_0)
qed

subsection \<open>Aligned values\<close>

definition bytes_alignment :: "u64 \<Rightarrow> json" where
  "bytes_alignment len = JObject [(''tag'', JString ''atom''),
     (''value'', JObject [(''tag'', JString ''bytes''), (''length'', json_u64 len)])]"

definition empty_atom_matches_normalized_form :: bool where
  "empty_atom_matches_normalized_form \<longleftrightarrow>
     parse_aligned_value (JObject [(''value'', JArray [JArray []]), (''alignment'', JArray [bytes_alignment 1])]) =
     Inr \<lparr>av_value = [[]], av_alignment = [SegAtom (ABytes 1)]\<rparr>"

definition empty_bytes32_matches_normalized_form :: bool where
  "empty_bytes32_matches_normalized_form \<longleftrightarrow>
     parse_aligned_value (JObject [(''value'', JArray [JArray []]), (''alignment'', JArray [bytes_alignment 32])]) =
     Inr \<lparr>av_value = [[]], av_alignment = [SegAtom (ABytes 32)]\<rparr>"

definition nonzero_value_matches :: bool where
  "nonzero_value_matches \<longleftrightarrow>
     parse_aligned_value (JObject [(''value'', JArray [JArray [json_u64 1]]),
       (''alignment'', JArray [bytes_alignment 1])]) =
     Inr \<lparr>av_value = [[1]], av_alignment = [SegAtom (ABytes 1)]\<rparr>"

definition mixed_empty_and_nonzero_atoms :: bool where
  "mixed_empty_and_nonzero_atoms \<longleftrightarrow>
     parse_aligned_value (JObject [(''value'', JArray [JArray [json_u64 1], JArray [], JArray []]),
       (''alignment'', JArray [bytes_alignment 1, bytes_alignment 1, bytes_alignment 32])]) =
     Inr \<lparr>av_value = [[1], [], []],
          av_alignment = [SegAtom (ABytes 1), SegAtom (ABytes 1), SegAtom (ABytes 32)]\<rparr>"

lemmas value_test_defs = empty_atom_matches_normalized_form_def empty_bytes32_matches_normalized_form_def
  nonzero_value_matches_def mixed_empty_and_nonzero_atoms_def

lemma bytes_segment:
  "unat len < 2 ^ 32 \<Longrightarrow> parse_alignment_segment (bytes_alignment len) = Inr (SegAtom (ABytes (ucast len)))"
  by (simp add: parse_alignment_segment.simps parse_alignment_atom_def bytes_alignment_def jidx_def)

lemma value_tests_pass:
  "empty_atom_matches_normalized_form" "empty_bytes32_matches_normalized_form"
  "nonzero_value_matches" "mixed_empty_and_nonzero_atoms"
  by (simp_all add: value_test_defs parse_aligned_value_def jidx_def bytes_segment Let_def)
    (simp_all add: parse_atom_def truncate_atom_def)

text \<open>\<open>printed\<close> is the text of the input object; the reply must be the error that names 32 bytes.\<close>

definition test_persistent_commit_rejects_short_opening ::
    "json_lib \<Rightarrow> ('hash, 'fr) value_lib \<Rightarrow> string \<Rightarrow> bool" where
  "test_persistent_commit_rejects_short_opening jl vl printed \<longleftrightarrow>
     (case contract_persistent_commit_aligned jl vl (Some printed) of
        ErrorReply (OpeningLength n) \<Rightarrow> True | _ \<Rightarrow> False)"

definition short_opening_input :: json where
  "short_opening_input = JObject [(''value'', JObject
       [(''value'', JArray [JArray [json_u64 1, json_u64 2, json_u64 3]]), (''alignment'', JArray [bytes_alignment 3])]),
     (''opening'', JArray [json_u64 1, json_u64 2, json_u64 3])]"

lemma short_opening_test_passes:
  "is_ascii printed \<Longrightarrow> CHR 0x00 \<notin> set printed \<Longrightarrow> jl_parse jl printed = Some short_opening_input \<Longrightarrow>
   test_persistent_commit_rejects_short_opening jl vl printed"
  by (simp add: test_persistent_commit_rejects_short_opening_def contract_persistent_commit_aligned_def plain_c_str
      short_opening_input_def commit_parts_def opening_bytes_def map_filter_simps)

definition test_null_input :: "hexlib \<Rightarrow> ('hash, 'fr) value_lib \<Rightarrow> bool" where
  "test_null_input hx vl \<longleftrightarrow> contract_persistent_hash hx vl None = NullReply"

definition ledger_version_is_exported :: bool where
  "ledger_version_is_exported \<longleftrightarrow> (kuira_ledger_version :: unit reply) = TextReply ''8.0.3''"

lemma reply_tests_pass: "test_null_input hx vl" "ledger_version_is_exported"
  by (simp_all add: test_null_input_def contract_persistent_hash_def c_str_to_str_def ledger_version_is_exported_def
      kuira_ledger_version_def LEDGER_VERSION_def to_c_string_def cstring_new_def)

subsection \<open>Operations, deployments and the TTL\<close>

text \<open>One operation of every variant; \<open>key\<close> and \<open>zero\<close> are the library's field value.\<close>

definition every_op :: "'path \<Rightarrow> 'r \<Rightarrow> 'val \<Rightarrow> (nat, 'val, 'path, 'r, unit) vm_op list" where
  "every_op key zero null =
     [OpDup 1, OpPop, OpIdx False False key, OpIns False 1, OpLt, OpEq, OpAdd, OpSub, OpNeg, OpAnd, OpOr,
      OpType, OpSize, OpNew, OpLog, OpRoot, OpMember, OpCkpt, OpNoop 0, OpBranch 0, OpJmp 0,
      OpConcat False 1, OpSwap 0, OpRem False, OpAddi 1, OpSubi 1, OpPopeq False zero, OpPush False null]"

definition gather_conversion_covers_every_op :: "'path \<Rightarrow> 'r \<Rightarrow> 'val \<Rightarrow> bool" where
  "gather_conversion_covers_every_op key zero null \<longleftrightarrow>
     (case convert_verify_to_gather (every_op key zero null) of
        Inr gathered \<Rightarrow> length gathered = length (every_op key zero null) | Inl e \<Rightarrow> False)"

lemma gather_test_passes: "gather_conversion_covers_every_op key zero null"
  by (simp add: gather_conversion_covers_every_op_def every_op_def convert_verify_to_gather_def)

definition is_error :: "'e reply \<Rightarrow> bool" where
  "is_error r \<longleftrightarrow> (case r of ErrorReply e \<Rightarrow> True | _ \<Rightarrow> False)"

definition test_deploy_tx_invalid_handle ::
    "hexlib \<Rightarrow> json_lib \<Rightarrow> ('data, 'op, 'rest, 'vk, 'deploy, 'addr, 'tx) deploy_lib \<Rightarrow> u64 \<Rightarrow>
     ('data, 'op, 'rest) contract_state pool \<Rightarrow> bool" where
  \<open>test_deploy_tx_invalid_handle hx jl dp clock p \<longleftrightarrow>
     is_error (fst (contract_assemble_deploy_tx hx jl dp clock
       (Some ''{"network_id":"undeployed","state_handle":999999}'') p))\<close>

definition test_deploy_tx_missing_fields ::
    "hexlib \<Rightarrow> json_lib \<Rightarrow> ('data, 'op, 'rest, 'vk, 'deploy, 'addr, 'tx) deploy_lib \<Rightarrow> u64 \<Rightarrow>
     ('data, 'op, 'rest) contract_state pool \<Rightarrow> bool" where
  \<open>test_deploy_tx_missing_fields hx jl dp clock p \<longleftrightarrow>
     is_error (fst (contract_assemble_deploy_tx hx jl dp clock (Some ''{"network_id":"undeployed"}'') p))\<close>

definition reads_deploy_params :: "json_lib \<Rightarrow> bool" where
  \<open>reads_deploy_params jl \<longleftrightarrow>
     jl_parse jl ''{"network_id":"undeployed","state_handle":999999}'' =
       Some (JObject [(''network_id'', JString ''undeployed''), (''state_handle'', json_u64 999999)]) \<and>
     jl_parse jl ''{"network_id":"undeployed"}'' = Some (JObject [(''network_id'', JString ''undeployed'')])\<close>

lemma deploy_tests_pass:
  assumes "reads_deploy_params jl"
  shows "pool_get p 999999 = None \<Longrightarrow> test_deploy_tx_invalid_handle hx jl dp clock p"
    and "test_deploy_tx_missing_fields hx jl dp clock p"
proof -
  have s: \<open>c_str_to_str (Some ''{"network_id":"undeployed","state_handle":999999}'') =
      Some ''{"network_id":"undeployed","state_handle":999999}''\<close>
    \<open>c_str_to_str (Some ''{"network_id":"undeployed"}'') = Some ''{"network_id":"undeployed"}''\<close>
    by (rule plain_c_str; code_simp)+
  note r = assms [unfolded reads_deploy_params_def]
  show "test_deploy_tx_missing_fields hx jl dp clock p"
    using s r by (simp add: test_deploy_tx_missing_fields_def contract_assemble_deploy_tx_def
        assemble_deploy_tx_impl_def jidx_def as_u64_def is_error_def reply_of_def)
  show "pool_get p 999999 = None \<Longrightarrow> test_deploy_tx_invalid_handle hx jl dp clock p"
    using s r by (simp add: test_deploy_tx_invalid_handle_def contract_assemble_deploy_tx_def
        assemble_deploy_tx_impl_def jidx_def is_error_def reply_of_def)
qed

text \<open>Bad hex, bytes that are no parameters, and the empty string.\<close>

definition test_global_ttl_secs_invalid_input_returns_negative ::
    "hexlib \<Rightarrow> (bytes \<Rightarrow> 'params option) \<Rightarrow> ('params \<Rightarrow> int) \<Rightarrow> bool" where
  "test_global_ttl_secs_invalid_input_returns_negative hx deser ttl \<longleftrightarrow>
     list_all (\<lambda>s. ledger_params_global_ttl_secs hx deser ttl (Some s) = - 1) [''not-hex'', ''deadbeef'', []]"

lemma ttl_test_passes:
  assumes "hex_ok hx" and "\<And>s b. s \<in> {''deadbeef'', []} \<Longrightarrow> hx_dec hx s = Some b \<Longrightarrow> deser b = None"
  shows "test_global_ttl_secs_invalid_input_returns_negative hx deser ttl"
proof -
  have "hx_dec hx ''not-hex'' = None" using assms(1) by (rule odd_hex) simp
  moreover have "Option.bind (hx_dec hx s) deser = None" if "s \<in> {''deadbeef'', []}" for s
    using assms(2) [OF that] by (cases "hx_dec hx s") auto
  ultimately show ?thesis
    by (simp add: test_global_ttl_secs_invalid_input_returns_negative_def ledger_params_global_ttl_secs_def
        plain_c_str is_ascii_def)
qed

subsection \<open>Offers\<close>

definition rep32 :: "string \<Rightarrow> string" where
  "rep32 s = concat (replicate 32 s)"

definition is_ok :: "'e + 'a \<Rightarrow> bool" where
  "is_ok r \<longleftrightarrow> (case r of Inr x \<Rightarrow> True | Inl e \<Rightarrow> False)"

definition signals :: "(unfunded + unit) \<Rightarrow> (string \<Rightarrow> bool) \<Rightarrow> bool" where
  "signals r ok \<longleftrightarrow> (case r of Inl u \<Rightarrow> ok (unfunded_text u) | Inr x \<Rightarrow> False)"

definition unshielded_offer_precedence :: bool where
  "unshielded_offer_precedence \<longleftrightarrow>
     (let night = rep32 ''00''; recv = (\<lambda>a. Some (night, a)) in
      is_ok (check_unshielded_offer_present None None False False ''post'') \<and>
      is_ok (check_unshielded_offer_present (recv 1000) None True False ''deposit'') \<and>
      is_ok (check_unshielded_offer_present None (recv 1000) False True ''withdraw'') \<and>
      is_ok (check_unshielded_offer_present (recv 1000) (recv 1000) True False ''swap'') \<and>
      signals (check_unshielded_offer_present (recv 1000) None False False ''deposit'') (\<lambda>e.
        prefix (''UNSHIELDED_VALUE_UNFUNDED:funding:'' @ night @ '':1000|'') e \<and>
        sublist ''deposit'' e \<and> sublist ''buildUnshieldedFundingJson'' e) \<and>
      signals (check_unshielded_offer_present None (recv 500) False False ''withdraw'') (\<lambda>e.
        prefix (''UNSHIELDED_VALUE_UNFUNDED:withdrawal:'' @ night @ '':500|'') e \<and>
        sublist ''buildUnshieldedWithdrawalJson'' e))"

lemma precedence_test_passes: "unshielded_offer_precedence"
proof -
  have n: "show_word (1000 :: u128) = ''1000''" "show_word (500 :: u128) = ''500''"
    by (simp_all add: show_word_def show_nat.simps dec_char_def) code_simp+
  let ?d = "unfunded_text (UnfundedReceive (rep32 ''00'') 1000 ''deposit'')"
  let ?w = "unfunded_text (UnfundedSend (rep32 ''00'') 500 ''withdraw'')"
  have "prefix (''UNSHIELDED_VALUE_UNFUNDED:funding:'' @ rep32 ''00'' @ '':1000|'') ?d"
    "prefix (''UNSHIELDED_VALUE_UNFUNDED:withdrawal:'' @ rep32 ''00'' @ '':500|'') ?w"
    by (simp_all add: n)
  moreover have "sublist ''deposit'' ?d" "sublist ''buildUnshieldedFundingJson'' ?d"
    "sublist ''buildUnshieldedWithdrawalJson'' ?w"
    unfolding unfunded_text.simps n by code_simp+
  ultimately show ?thesis
    by (simp add: unshielded_offer_precedence_def check_unshielded_offer_present_def is_ok_def signals_def)
qed

text \<open>The key of the tests; \<open>vk_hex\<close> is the hex of its verifying key, \<open>nk_hex\<close> that of the key.\<close>

definition funding_entry :: "string \<Rightarrow> string \<Rightarrow> u64 \<Rightarrow> json" where
  "funding_entry vk_hex value output_no = JObject
     [(''value'', JString value), (''owner'', JString vk_hex), (''type'', JString (rep32 ''00'')),
      (''intent_hash'', JString (rep32 ''11'')), (''output_no'', json_u64 output_no)]"

definition funding_request :: "string \<Rightarrow> string \<Rightarrow> json list \<Rightarrow> json" where
  "funding_request nk_hex amount inputs = JObject
     [(''amount'', JString amount), (''change_owner'', JString (rep32 ''22'')),
      (''night_private_key'', JString nk_hex), (''inputs'', JArray inputs)]"

definition offer_sums :: "('vk, 'tok, 'hash, 'addr, unit) u_offer \<Rightarrow> u128 \<times> u128" where
  "offer_sums offer = (sum_list (map us_value (uf_inputs offer)), sum_list (map uo_value (uf_outputs offer)))"

definition funding_offer_provides_exactly_the_received_amount ::
    "hexlib \<Rightarrow> ('vk, 'tok, 'hash, 'addr, 'sk) offer_lib \<Rightarrow> string \<Rightarrow> string \<Rightarrow> bool" where
  "funding_offer_provides_exactly_the_received_amount hx ol nk_hex vk_hex \<longleftrightarrow>
     (let funding = funding_request nk_hex ''7000000''
        [funding_entry vk_hex ''6000000'' 0, funding_entry vk_hex ''4000000'' 1] in
      case build_funding_offer hx ol funding of
        Inl e \<Rightarrow> False
      | Inr (offer, keys) \<Rightarrow>
          (let (in_sum, out_sum) = offer_sums offer in
           in_sum = 10000000 \<and> out_sum = 3000000 \<and> in_sum - out_sum = 7000000 \<and>
           length keys = 2 \<and> length (uf_outputs offer) = 1))"

definition funding_offer_zero_change_emits_no_output ::
    "hexlib \<Rightarrow> ('vk, 'tok, 'hash, 'addr, 'sk) offer_lib \<Rightarrow> string \<Rightarrow> string \<Rightarrow> bool" where
  "funding_offer_zero_change_emits_no_output hx ol nk_hex vk_hex \<longleftrightarrow>
     (let funding = funding_request nk_hex ''5000000'' [funding_entry vk_hex ''5000000'' 0] in
      case build_funding_offer hx ol funding of
        Inl e \<Rightarrow> False
      | Inr (offer, keys) \<Rightarrow>
          length (uf_outputs offer) = 0 \<and> fst (offer_sums offer) = 5000000 \<and> length keys = 1)"

definition withdrawal_offer_is_output_only_no_signatures ::
    "hexlib \<Rightarrow> ('vk, 'tok, 'hash, 'addr, 'sk) offer_lib \<Rightarrow> bool" where
  "withdrawal_offer_is_output_only_no_signatures hx ol \<longleftrightarrow>
     (let withdrawal = JObject [(''recipient'', JString (rep32 ''33'')), (''color'', JString (rep32 ''00'')),
        (''amount'', JString ''2000000'')] in
      case (build_withdrawal_offer hx ol withdrawal :: offer_error + ('vk, 'tok, 'hash, 'addr, unit) u_offer) of
        Inl e \<Rightarrow> False
      | Inr offer \<Rightarrow>
          length (uf_inputs offer) = 0 \<and> length (uf_signatures offer) = 0 \<and>
          length (uf_outputs offer) = 1 \<and> uo_value (uf_outputs offer ! 0) = 2000000)"

definition funding_offer_rejects_insufficient_inputs ::
    "hexlib \<Rightarrow> ('vk, 'tok, 'hash, 'addr, 'sk) offer_lib \<Rightarrow> string \<Rightarrow> string \<Rightarrow> bool" where
  "funding_offer_rejects_insufficient_inputs hx ol nk_hex vk_hex \<longleftrightarrow>
     (let funding = funding_request nk_hex ''9000000'' [funding_entry vk_hex ''5000000'' 0] in
      case (build_funding_offer hx ol funding :: offer_error + ('vk, 'tok, 'hash, 'addr, unit) u_offer \<times> 'sk list) of
        Inl (InputsTooSmall tot amount) \<Rightarrow> tot < amount | _ \<Rightarrow> False)"

text \<open>The library reads the hex of the tests, and takes the key and every 32 bytes as what they name.\<close>

definition reads_offers :: "hexlib \<Rightarrow> ('vk, 'tok, 'hash, 'addr, 'sk) offer_lib \<Rightarrow> string \<Rightarrow> string \<Rightarrow> bool" where
  "reads_offers hx ol nk_hex vk_hex \<longleftrightarrow>
     hx_dec hx (rep32 ''00'') = Some (replicate 32 0) \<and> hx_dec hx (rep32 ''11'') = Some (replicate 32 0x11) \<and>
     hx_dec hx (rep32 ''22'') = Some (replicate 32 0x22) \<and> hx_dec hx (rep32 ''33'') = Some (replicate 32 0x33) \<and>
     hx_dec hx nk_hex = Some (replicate 32 7) \<and> ol_sk_of ol (replicate 32 7) \<noteq> None \<and>
     ol_hash_deser ol (replicate 32 0x11) \<noteq> None \<and> ol_addr_deser ol (replicate 32 0x22) \<noteq> None \<and>
     ol_addr_deser ol (replicate 32 0x33) \<noteq> None \<and>
     (case hx_dec hx vk_hex of Some b \<Rightarrow> length b = 32 \<and> ol_vk_deser ol b \<noteq> None | None \<Rightarrow> False)"

lemma test_amounts:
  "parse_u128 ''7000000'' = Some 7000000" "parse_u128 ''6000000'' = Some 6000000"
  "parse_u128 ''4000000'' = Some 4000000" "parse_u128 ''5000000'' = Some 5000000"
  "parse_u128 ''9000000'' = Some 9000000" "parse_u128 ''2000000'' = Some 2000000"
  "parse_u128 ''1000000'' = Some 1000000"
proof -
  have digits: "[dec_char 7, dec_char 6, dec_char 4, dec_char 5, dec_char 9, dec_char 2, dec_char 1, dec_char 0] = ''76459210''"
    by code_simp
  have "show_word (7000000 :: u128) = ''7000000''" "show_word (6000000 :: u128) = ''6000000''"
    "show_word (4000000 :: u128) = ''4000000''" "show_word (5000000 :: u128) = ''5000000''"
    "show_word (9000000 :: u128) = ''9000000''" "show_word (2000000 :: u128) = ''2000000''"
    "show_word (1000000 :: u128) = ''1000000''"
    using digits by (simp_all add: show_word_def show_nat.simps)
  then show "parse_u128 ''7000000'' = Some 7000000" "parse_u128 ''6000000'' = Some 6000000"
    "parse_u128 ''4000000'' = Some 4000000" "parse_u128 ''5000000'' = Some 5000000"
    "parse_u128 ''9000000'' = Some 9000000" "parse_u128 ''2000000'' = Some 2000000"
  "parse_u128 ''1000000'' = Some 1000000"
    by (metis parse_u128_show)+
qed

lemma funding_entry_read:
  assumes "reads_offers hx ol nk_hex vk_hex" "parse_u128 v = Some w" "t = None \<or> t = Some (rep32 ''00'')"
  shows "\<exists>sp. funding_input hx ol i (funding_entry vk_hex v k) t = Inr (sp, rep32 ''00'') \<and> us_value sp = w"
proof -
  obtain vb vk ih where "hx_dec hx vk_hex = Some vb" "length vb = 32" "ol_vk_deser ol vb = Some vk"
    "ol_hash_deser ol (replicate 32 0x11) = Some ih"
    using assms(1) by (auto simp: reads_offers_def split: option.splits)
  then show ?thesis
    using assms by (auto simp: funding_input_def funding_entry_def jidx_def reads_offers_def)
qed

lemma night_keys_read:
  assumes "reads_offers hx ol nk_hex vk_hex"
  shows "\<exists>keys. night_keys hx ol (funding_request nk_hex amount ins) k = Inr keys \<and> length keys = k"
proof -
  obtain sk where "ol_sk_of ol (replicate 32 7) = Some sk" using assms by (auto simp: reads_offers_def)
  moreover have "mapE (\<lambda>_. Inr sk :: offer_error + _) xs = Inr (replicate (length xs) sk)" for xs :: "nat list"
    by (induction xs) simp_all
  ultimately show ?thesis
    using assms by (simp add: night_keys_def funding_request_def jidx_def reads_offers_def)
qed

lemma offer_tests_pass:
  assumes r: "reads_offers hx ol nk_hex vk_hex"
  shows "funding_offer_provides_exactly_the_received_amount hx ol nk_hex vk_hex"
    and "funding_offer_zero_change_emits_no_output hx ol nk_hex vk_hex"
    and "funding_offer_rejects_insufficient_inputs hx ol nk_hex vk_hex"
    and "withdrawal_offer_is_output_only_no_signatures hx ol"
proof -
  note read = funding_entry_read [OF r]
  obtain s6 where s6: "funding_input hx ol 0 (funding_entry vk_hex ''6000000'' 0) None = Inr (s6, rep32 ''00'')"
    "us_value s6 = 6000000" using read [OF test_amounts(2)] by blast
  obtain s4 where s4: "funding_input hx ol 1 (funding_entry vk_hex ''4000000'' 1) (Some (rep32 ''00'')) = Inr (s4, rep32 ''00'')"
    "us_value s4 = 4000000" using read [OF test_amounts(3)] by blast
  obtain s5 where s5: "funding_input hx ol 0 (funding_entry vk_hex ''5000000'' 0) None = Inr (s5, rep32 ''00'')"
    "us_value s5 = 5000000" using read [OF test_amounts(4)] by blast
  have sums: "checked_add 0 6000000 = Some (6000000 :: u128)" "checked_add 6000000 4000000 = Some (10000000 :: u128)"
    "checked_add 0 5000000 = Some (5000000 :: u128)"
    by (simp_all add: checked_add_def)
  have two: "funding_loop hx ol 0 [funding_entry vk_hex ''6000000'' 0, funding_entry vk_hex ''4000000'' 1] (0, None, []) =
      Inr (10000000, Some (rep32 ''00''), [s6, s4])"
    using s6 s4 sums by simp
  have one: "funding_loop hx ol 0 [funding_entry vk_hex ''5000000'' 0] (0, None, []) =
      Inr (5000000, Some (rep32 ''00''), [s5])"
    using s5 sums by simp
  obtain ca where ca: "ol_addr_deser ol (replicate 32 0x22) = Some ca" using r by (auto simp: reads_offers_def)
  have change: "change_outputs hx ol (funding_request nk_hex a js) 3000000 (rep32 ''00'') =
      Inr [\<lparr>uo_value = 3000000, uo_owner = ca, uo_type = ol_tok_of ol (replicate 32 0)\<rparr>]" for a js
    using r ca by (simp add: change_outputs_def funding_request_def jidx_def reads_offers_def)
  obtain k2 where k2: "night_keys hx ol (funding_request nk_hex ''7000000''
      [funding_entry vk_hex ''6000000'' 0, funding_entry vk_hex ''4000000'' 1]) (Suc (Suc 0)) = Inr k2" "length k2 = Suc (Suc 0)"
    using night_keys_read [OF r] by blast
  show "funding_offer_provides_exactly_the_received_amount hx ol nk_hex vk_hex"
    using two change k2 s6(2) s4(2)
    by (simp add: funding_offer_provides_exactly_the_received_amount_def build_funding_offer_def funding_request_def
        jidx_def test_amounts Let_def offer_sums_def)
  obtain k1 where k1: "night_keys hx ol (funding_request nk_hex ''5000000'' [funding_entry vk_hex ''5000000'' 0]) (Suc 0) = Inr k1"
    "length k1 = Suc 0"
    using night_keys_read [OF r] by blast
  show "funding_offer_zero_change_emits_no_output hx ol nk_hex vk_hex"
    using one k1 s5(2)
    by (simp add: funding_offer_zero_change_emits_no_output_def build_funding_offer_def funding_request_def
        jidx_def test_amounts Let_def offer_sums_def change_outputs_def)
  show "funding_offer_rejects_insufficient_inputs hx ol nk_hex vk_hex"
    using one
    by (simp add: funding_offer_rejects_insufficient_inputs_def build_funding_offer_def funding_request_def
        jidx_def test_amounts Let_def guardE_def)
  show "withdrawal_offer_is_output_only_no_signatures hx ol"
    using r by (auto simp: withdrawal_offer_is_output_only_no_signatures_def build_withdrawal_offer_def
        jidx_def test_amounts Let_def reads_offers_def)
qed

end
