(* ===== verification/ValueTests.thy ===== *)
theory ValueTests
  imports ContractTests
begin

text \<open>
  The unit tests of \<open>contract_ffi.rs\<close> that go through the ledger's hashes and value codec: hashing,
  integers as values and back, commitments with an opening, a query and a deployment. The codec, the
  hash and the contract machine are the library's; the lemmas say what of them a test relies on.
\<close>

text \<open>The texts the library prints are ASCII without NUL, JSON arrays of arrays, and read back.\<close>

definition values_print :: "json_lib \<Rightarrow> ('hash, 'fr) value_lib \<Rightarrow> bool" where
  "values_print jl vl \<longleftrightarrow> (\<forall>v. \<exists>s rest xs. vl_value_print vl v = Some s \<and> is_ascii s \<and> CHR 0x00 \<notin> set s \<and>
     vl_value_parse vl s = Some v \<and> (v \<noteq> [] \<longrightarrow> s = ''[['' @ rest) \<and> jl_parse jl s = Some (JArray xs))"

lemma printed_value:
  assumes "values_print jl vl"
  obtains (prints) s rest xs where "value_reply vl v = TextReply s" "c_str_to_str (Some s) = Some s"
    "vl_value_parse vl s = Some v" "v \<noteq> [] \<Longrightarrow> s = ''[['' @ rest" "jl_parse jl s = Some (JArray xs)" "cstr_to_str s = Some s"
proof -
  obtain s rest xs where "vl_value_print vl v = Some s" "is_ascii s" "CHR 0x00 \<notin> set s"
    "vl_value_parse vl s = Some v" "v \<noteq> [] \<longrightarrow> s = ''[['' @ rest" "jl_parse jl s = Some (JArray xs)"
    using assms unfolding values_print_def by metis
  then show thesis
    by (intro prints [of s rest xs]) (simp_all add: value_reply_def to_c_string_def cstring_new_def plain_c_str cstr_to_str_ascii)
qed

subsection \<open>Hashes\<close>

definition test_persistent_hash :: "hexlib \<Rightarrow> ('hash, 'fr) value_lib \<Rightarrow> bool" where
  "test_persistent_hash hx vl \<longleftrightarrow>
     (case contract_persistent_hash hx vl (Some []) of TextReply hash_hex \<Rightarrow> length hash_hex = 64 | _ \<Rightarrow> False)"

definition SHA256_HELLO :: string where
  "SHA256_HELLO = ''2cf24dba5fb0a30e26e83b2ac5b9e29e1b161e5c1fa7425e73043362938b9824''"

definition test_persistent_hash_known_value :: "hexlib \<Rightarrow> ('hash, 'fr) value_lib \<Rightarrow> bool" where
  "test_persistent_hash_known_value hx vl \<longleftrightarrow>
     (case contract_persistent_hash hx vl (Some (hx_enc hx (ascii ''hello''))) of
        TextReply hash_hex \<Rightarrow> hash_hex = SHA256_HELLO | _ \<Rightarrow> False)"

text \<open>\<open>printed\<close> is the JSON text of the source, a field of 32 zero bytes.\<close>

definition test_persistent_hash_aligned :: "json_lib \<Rightarrow> ('hash, 'fr) value_lib \<Rightarrow> string \<Rightarrow> bool" where
  "test_persistent_hash_aligned jl vl printed \<longleftrightarrow>
     (case contract_persistent_hash_aligned jl vl (Some printed) of
        NullReply \<Rightarrow> False | ErrorReply e \<Rightarrow> True | TextReply s \<Rightarrow> take 2 s = ''[['')"

lemma hash_tests_pass:
  assumes "hex_ok hx"
  shows "(\<And>h. \<exists>b. vl_hash_ser vl h = Some b \<and> length b = 32) \<Longrightarrow> test_persistent_hash hx vl"
    and "map_option (hx_enc hx) (vl_hash_ser vl (vl_persistent_hash vl (ascii ''hello''))) = Some SHA256_HELLO \<Longrightarrow>
      test_persistent_hash_known_value hx vl"
proof -
  have c: "c_str_to_str (Some (hx_enc hx b)) = Some (hx_enc hx b)" "to_c_hex hx b = TextReply (hx_enc hx b)" for b
    using hex_enc_plain [OF assms, of b]
    by (simp_all add: plain_c_str to_c_hex_def to_c_string_def hex_enc_cstring [OF assms])
  have "hx_enc hx [] = []" using hex_enc_length [OF assms, of "[]"] by simp
  then have e: "c_str_to_str (Some []) = Some []" "hx_dec hx [] = Some []"
    using hex_dec_enc [OF assms, of "[]"] c(1) [of "[]"] by simp_all
  show "test_persistent_hash hx vl" if len: "\<And>h. \<exists>b. vl_hash_ser vl h = Some b \<and> length b = 32"
  proof -
    obtain b where "vl_hash_ser vl (vl_persistent_hash vl []) = Some b" "length b = 32" using len by metis
    then show ?thesis
      by (simp add: test_persistent_hash_def contract_persistent_hash_def e c hex_enc_length [OF assms])
  qed
  show "test_persistent_hash_known_value hx vl"
    if "map_option (hx_enc hx) (vl_hash_ser vl (vl_persistent_hash vl (ascii ''hello''))) = Some SHA256_HELLO"
    using that
    by (auto simp: test_persistent_hash_known_value_def contract_persistent_hash_def c hex_dec_enc [OF assms])
qed

subsection \<open>Integers\<close>

definition test_big_int_to_value :: "hexlib \<Rightarrow> ('hash, 'fr) value_lib \<Rightarrow> bool" where
  "test_big_int_to_value hx vl \<longleftrightarrow>
     (case contract_big_int_to_value hx vl (Some ''42'') of TextReply s \<Rightarrow> True | _ \<Rightarrow> False)"

definition test_value_to_big_int :: "hexlib \<Rightarrow> ('hash, 'fr) value_lib \<Rightarrow> bool" where
  "test_value_to_big_int hx vl \<longleftrightarrow>
     (case contract_big_int_to_value hx vl (Some ''2a'') of
        TextReply value_json \<Rightarrow>
          (case contract_value_to_big_int vl (Some value_json) of TextReply result \<Rightarrow> result = ''42'' | _ \<Rightarrow> False)
      | _ \<Rightarrow> False)"

text \<open>One byte is a field element, whose value is one atom with that byte first.\<close>

definition bytes_are_fields :: "hexlib \<Rightarrow> ('hash, 'fr) value_lib \<Rightarrow> bool" where
  "bytes_are_fields hx vl \<longleftrightarrow> hx_dec hx ''42'' = Some [0x42] \<and> hx_dec hx ''2a'' = Some [0x2a] \<and>
     (\<forall>b. b \<noteq> 0 \<longrightarrow> (\<exists>fr. vl_fr_from_le vl [b] = Some fr \<and> vl_value_of_fr vl fr = [[b]]))"

lemma integer_tests_pass:
  assumes "bytes_are_fields hx vl" "values_print jl vl"
  shows "test_big_int_to_value hx vl" "test_value_to_big_int hx vl"
proof -
  obtain fr where f: "vl_fr_from_le vl [0x42] = Some fr" "vl_value_of_fr vl fr = [[0x42]]"
    using assms(1) unfolding bytes_are_fields_def by (elim conjE allE [of _ "0x42"]) auto
  obtain s rest xs where "value_reply vl [[0x42]] = TextReply s"
    using printed_value [OF assms(2), of "[[0x42]]"] by blast
  with f show "test_big_int_to_value hx vl"
    using assms(1) by (simp add: test_big_int_to_value_def contract_big_int_to_value_def bytes_are_fields_def
        plain_c_str is_ascii_def Let_def)
  obtain fr' where g: "vl_fr_from_le vl [0x2a] = Some fr'" "vl_value_of_fr vl fr' = [[0x2a]]"
    using assms(1) unfolding bytes_are_fields_def by (elim conjE allE [of _ "0x2a"]) auto
  obtain s' where s': "value_reply vl [[0x2a]] = TextReply s'" "c_str_to_str (Some s') = Some s'" "vl_value_parse vl s' = Some [[0x2a]]"
    using printed_value [OF assms(2), of "[[0x2a]]"] by metis
  have "unat (low_u128 [0x2a]) = 42" by (simp add: low_u128_val)
  moreover have "[dec_char 4, dec_char 2] = ''42''" by code_simp
  ultimately have "show_word (low_u128 [0x2a]) = ''42''" by (simp add: show_word_def show_nat.simps)
  then show "test_value_to_big_int hx vl"
    using assms(1) g s' by (simp add: test_value_to_big_int_def contract_big_int_to_value_def bytes_are_fields_def
        plain_c_str is_ascii_def Let_def contract_value_to_big_int_def to_c_string_def cstring_new_def)
qed

subsection \<open>Commitments\<close>

definition field_alignment :: json where
  "field_alignment = JObject [(''tag'', JString ''atom''), (''value'', JObject [(''tag'', JString ''field'')])]"

text \<open>The input object of the commitment tests.\<close>

definition json_bytes :: "bytes \<Rightarrow> json" where
  "json_bytes bs = JArray (map (\<lambda>b. json_u64 (ucast b)) bs)"

definition commit_input :: "bytes \<Rightarrow> json \<Rightarrow> bytes \<Rightarrow> json" where
  "commit_input value_bytes align_seg opening =
     JObject [(''value'', JObject [(''value'', JArray [json_bytes value_bytes]), (''alignment'', JArray [align_seg])]),
       (''opening'', json_bytes opening)]"

text \<open>\<open>print\<close> is \<open>Value::to_string\<close>.\<close>

definition commits_to_array :: "json_lib \<Rightarrow> ('hash, 'fr) value_lib \<Rightarrow> (json \<Rightarrow> string) \<Rightarrow> json \<Rightarrow> bool" where
  "commits_to_array jl vl print v \<longleftrightarrow>
     (case contract_persistent_commit_aligned jl vl (Some (print v)) of
        TextReply result \<Rightarrow>
          (case Option.bind (cstr_to_str result) (jl_parse jl) of Some (JArray xs) \<Rightarrow> True | _ \<Rightarrow> False)
      | _ \<Rightarrow> False)"

definition test_persistent_commit_basic :: "json_lib \<Rightarrow> ('hash, 'fr) value_lib \<Rightarrow> (json \<Rightarrow> string) \<Rightarrow> bool" where
  "test_persistent_commit_basic jl vl print \<longleftrightarrow>
     commits_to_array jl vl print (commit_input [1, 2, 3] (bytes_alignment 3) (map of_nat [0..<32]))"

definition test_persistent_commit_with_field_alignment ::
    "json_lib \<Rightarrow> ('hash, 'fr) value_lib \<Rightarrow> (json \<Rightarrow> string) \<Rightarrow> bool" where
  "test_persistent_commit_with_field_alignment jl vl print \<longleftrightarrow>
     commits_to_array jl vl print (commit_input (replicate 32 0) field_alignment (map (\<lambda>i. of_nat i * 7) [0..<32]))"

definition test_persistent_commit_deterministic ::
    "json_lib \<Rightarrow> ('hash, 'fr) value_lib \<Rightarrow> (json \<Rightarrow> string) \<Rightarrow> bool" where
  "test_persistent_commit_deterministic jl vl print \<longleftrightarrow>
     (let inp = commit_input [10, 20, 30] (bytes_alignment 3) (map of_nat [0..<32]) in
      case (contract_persistent_commit_aligned jl vl (Some (print inp)),
            contract_persistent_commit_aligned jl vl (Some (print inp))) of
        (TextReply s1, TextReply s2) \<Rightarrow> s1 = s2 | _ \<Rightarrow> False)"

definition test_persistent_commit_different_opening_different_result ::
    "json_lib \<Rightarrow> ('hash, 'fr) value_lib \<Rightarrow> (json \<Rightarrow> string) \<Rightarrow> bool" where
  "test_persistent_commit_different_opening_different_result jl vl print \<longleftrightarrow>
     (let input1 = commit_input [1, 2, 3] (bytes_alignment 3) (replicate 32 0);
          input2 = commit_input [1, 2, 3] (bytes_alignment 3) (replicate 32 1) in
      case (contract_persistent_commit_aligned jl vl (Some (print input1)),
            contract_persistent_commit_aligned jl vl (Some (print input2))) of
        (TextReply s1, TextReply s2) \<Rightarrow> s1 \<noteq> s2 | _ \<Rightarrow> False)"

lemma opening_read: "opening_bytes (map (\<lambda>b. json_u64 (ucast b)) bs) = bs"
  by (induction bs) (simp_all add: opening_bytes_def map_filter_simps ucast_up_ucast_id is_up)

lemma field_segment: "parse_alignment_segment field_alignment = Inr (SegAtom AField)"
  by (simp add: parse_alignment_segment.simps parse_alignment_atom_def field_alignment_def jidx_def)

lemma commit_input_parts:
  assumes "parse_alignment_segment al = Inr seg" "length opening = 32"
  shows "commit_parts (commit_input bs al opening) =
    Inr (opening, \<lparr>av_value = [truncate_atom (parse_atom (json_bytes bs)) seg], av_alignment = [seg]\<rparr>)"
proof -
  have "parse_aligned_value (JObject [(''value'', JArray [json_bytes bs]), (''alignment'', JArray [al])]) =
      Inr \<lparr>av_value = [truncate_atom (parse_atom (json_bytes bs)) seg], av_alignment = [seg]\<rparr>"
    using assms(1) by (simp add: parse_aligned_value_def jidx_def)
  moreover have "json_bytes opening = JArray (map (\<lambda>b. json_u64 (ucast b)) opening)" by (simp add: json_bytes_def)
  ultimately show ?thesis using assms(2) by (simp add: commit_parts_def commit_input_def opening_read)
qed

text \<open>The library prints an input as text that it parses back.\<close>

definition prints_back :: "json_lib \<Rightarrow> (json \<Rightarrow> string) \<Rightarrow> bool" where
  "prints_back jl print \<longleftrightarrow> (\<forall>v. is_ascii (print v) \<and> CHR 0x00 \<notin> set (print v) \<and> jl_parse jl (print v) = Some v)"

abbreviation "commit_hash vl opening bs seg \<equiv> vl_finalize vl (vl_hash_repr vl opening @
  vl_value_repr vl \<lparr>av_value = [truncate_atom (parse_atom (json_bytes bs)) seg], av_alignment = [seg]\<rparr>)"

lemma commit_reply:
  assumes "prints_back jl print" "parse_alignment_segment al = Inr seg" "length opening = 32"
  shows "contract_persistent_commit_aligned jl vl (Some (print (commit_input bs al opening))) =
    value_reply vl (vl_value_of_hash vl (commit_hash vl opening bs seg))"
  using assms(1) commit_input_parts [OF assms(2,3)]
  by (simp add: contract_persistent_commit_aligned_def prints_back_def plain_c_str)

lemma commit_array:
  assumes "prints_back jl print" "values_print jl vl" "parse_alignment_segment al = Inr seg" "length opening = 32"
  shows "commits_to_array jl vl print (commit_input bs al opening)"
proof -
  obtain s xs where "value_reply vl (vl_value_of_hash vl (commit_hash vl opening bs seg)) = TextReply s"
    "jl_parse jl s = Some (JArray xs)" "cstr_to_str s = Some s"
    by (rule printed_value [OF assms(2)])
  then show ?thesis by (simp add: commits_to_array_def commit_reply [OF assms(1,3,4)])
qed

lemma commit_tests_pass:
  assumes "prints_back jl print" "values_print jl vl"
  shows "test_persistent_commit_basic jl vl print" "test_persistent_commit_with_field_alignment jl vl print"
    and "test_persistent_commit_deterministic jl vl print"
proof -
  have b3: "parse_alignment_segment (bytes_alignment 3) = Inr (SegAtom (ABytes 3))" by (simp add: bytes_segment)
  show "test_persistent_commit_basic jl vl print" "test_persistent_commit_with_field_alignment jl vl print"
    unfolding test_persistent_commit_basic_def test_persistent_commit_with_field_alignment_def
    by (rule commit_array [OF assms b3] commit_array [OF assms field_segment], simp)+
  obtain s where "value_reply vl (vl_value_of_hash vl (commit_hash vl (map of_nat [0..<32]) [10, 20, 30] (SegAtom (ABytes 3)))) = TextReply s"
    by (rule printed_value [OF assms(2)])
  moreover have "length (map of_nat [0..<32] :: bytes) = 32" by simp
  ultimately show "test_persistent_commit_deterministic jl vl print"
    by (simp only: test_persistent_commit_deterministic_def Let_def commit_reply [OF assms(1) b3] prod.case reply.case)
qed

text \<open>The two commitments differ when their hashes do and a hash can be read off its value.\<close>

lemma opening_test_passes:
  assumes "prints_back jl print" "values_print jl vl" "inj (vl_value_of_hash vl)"
    and "commit_hash vl (replicate 32 0) [1, 2, 3] (SegAtom (ABytes 3)) \<noteq>
      commit_hash vl (replicate 32 1) [1, 2, 3] (SegAtom (ABytes 3))"
  shows "test_persistent_commit_different_opening_different_result jl vl print"
proof -
  have b3: "parse_alignment_segment (bytes_alignment 3) = Inr (SegAtom (ABytes 3))" by (simp add: bytes_segment)
  obtain s1 where s1: "value_reply vl (vl_value_of_hash vl (commit_hash vl (replicate 32 0) [1, 2, 3] (SegAtom (ABytes 3)))) = TextReply s1"
    "vl_value_parse vl s1 = Some (vl_value_of_hash vl (commit_hash vl (replicate 32 0) [1, 2, 3] (SegAtom (ABytes 3))))"
    by (rule printed_value [OF assms(2)])
  obtain s2 where s2: "value_reply vl (vl_value_of_hash vl (commit_hash vl (replicate 32 1) [1, 2, 3] (SegAtom (ABytes 3)))) = TextReply s2"
    "vl_value_parse vl s2 = Some (vl_value_of_hash vl (commit_hash vl (replicate 32 1) [1, 2, 3] (SegAtom (ABytes 3))))"
    by (rule printed_value [OF assms(2)])
  have "s1 \<noteq> s2"
  proof
    assume "s1 = s2"
    with s1(2) s2(2) have "vl_value_of_hash vl (commit_hash vl (replicate 32 0) [1, 2, 3] (SegAtom (ABytes 3))) =
        vl_value_of_hash vl (commit_hash vl (replicate 32 1) [1, 2, 3] (SegAtom (ABytes 3)))" by simp
    with injD [OF assms(3)] assms(4) show False by blast
  qed
  moreover have "length (replicate 32 b) = 32" for b :: u8 by simp
  ultimately show ?thesis
    by (simp only: test_persistent_commit_different_opening_different_result_def Let_def commit_reply [OF assms(1) b3]
        s1(1) s2(1) prod.case reply.case not_False_eq_True)
qed

lemma hash_aligned_test_passes:
  assumes "c_str_to_str (Some printed) = Some printed" "values_print jl vl" "\<And>h. vl_value_of_hash vl h \<noteq> []"
    and "jl_parse jl printed = Some (JObject [(''value'', JArray [json_bytes (replicate 32 0)]),
      (''alignment'', JArray [field_alignment])])"
  shows "test_persistent_hash_aligned jl vl printed"
proof -
  obtain s rest where "value_reply vl (vl_value_of_hash vl (vl_finalize vl (vl_value_repr vl
      \<lparr>av_value = [truncate_atom (parse_atom (json_bytes (replicate 32 0))) (SegAtom AField)], av_alignment = [SegAtom AField]\<rparr>))) = TextReply s"
    "s = ''[['' @ rest"
    by (rule printed_value [OF assms(2)]) (use assms(3) in blast)
  then show ?thesis
    using assms(1,4) by (simp add: test_persistent_hash_aligned_def contract_persistent_hash_aligned_def
        parse_aligned_value_def jidx_def field_segment)
qed

lemma shown_plain: "CHR 0x00 \<notin> set (show_word w)" "is_ascii (show_word w)"
  using digits_plain [OF show_nat_digits [of "unat w"]] by (simp_all add: show_word_def)

subsection \<open>A state queried, a state deployed\<close>

definition pop_opcodes :: string where
  \<open>pop_opcodes = ''[{"dup":{"n":0}},"pop"]''\<close>

definition test_create_state_with_nulls ::
    "hexlib \<Rightarrow> json_lib \<Rightarrow> ('hash, 'fr) value_lib \<Rightarrow> ('data, 'op, 'rest, 'gop, 'ev, 'gas) pool_lib \<Rightarrow> u64 \<Rightarrow>
     ('data, 'op, 'rest) contract_state pool \<Rightarrow> bool" where
  "test_create_state_with_nulls hx jl vl pl now_secs p \<longleftrightarrow>
     (let (handle, p1) = contract_state_create_with_nulls jl pl (Some ''4'') p;
          p2 = contract_state_set_operation pl handle (Some ''post'') p1;
          p3 = contract_state_set_operation pl handle (Some ''takeDown'') p2;
          zero_value = contract_big_int_to_value hx vl (Some ''0'')
      in handle > 0 \<and> zero_value \<noteq> NullReply \<and>
         (case fst (contract_query pl now_secs handle (Some pop_opcodes) p3) of TextReply result \<Rightarrow> True | _ \<Rightarrow> False))"

text \<open>The two opcodes parse and run on any state, and their events and gas print without NUL.\<close>

definition pops_run :: "('data, 'op, 'rest, 'gop, 'ev, 'gas) pool_lib \<Rightarrow> bool" where
  "pops_run pl \<longleftrightarrow> (\<exists>ops. pl_ops_parse pl pop_opcodes = Some ops \<and>
     (\<forall>d now. \<exists>d' events gas es gs. pl_query pl d now ops = Some (d', events, gas) \<and> pl_events_json pl events = Some es \<and>
        pl_gas_json pl gas = Some gs \<and> CHR 0x00 \<notin> set es \<and> CHR 0x00 \<notin> set gs))"

lemma query_test_passes:
  assumes "reads_structures jl" "pops_run pl" "sp_next p \<noteq> 0"
    and "contract_big_int_to_value hx vl (Some ''0'') \<noteq> NullReply"
  shows "test_create_state_with_nulls hx jl vl pl now p"
proof -
  have s: "c_str_to_str (Some ''4'') = Some ''4''" "c_str_to_str (Some pop_opcodes) = Some pop_opcodes"
    unfolding pop_opcodes_def by (rule plain_c_str; code_simp)+
  have "structure_value jl ''4'' = Some (SVArray (replicate 4 SVNull))"
    using structure_number [of jl "''4''" 4] assms(1) by (simp add: reads_structures_def)
  then obtain state p1 where c: "contract_state_create_with_nulls jl pl (Some ''4'') p = (sp_next p, p1)"
    "pool_get p1 (sp_next p) = Some state"
    using s by (simp add: contract_state_create_with_nulls_def alloc_def take_handle_def sp.get_ins_same)
  obtain ops d events gas es gs where q: "pl_ops_parse pl pop_opcodes = Some ops"
    "pl_query pl (cs_data state) now ops = Some (d, events, gas)" "pl_events_json pl events = Some es"
    "pl_gas_json pl gas = Some gs" "CHR 0x00 \<notin> set es" "CHR 0x00 \<notin> set gs"
    using assms(2) unfolding pops_run_def by metis
  have "CHR 0x00 \<notin> set (show_word (sp_next p))" by (rule shown_plain)
  then have "\<exists>t. query_reply pl (sp_next p) events gas = TextReply t"
    using q(3-6) by (simp add: query_reply_def to_c_string_def cstring_new_def)
  then show ?thesis
    using c s q(1,2) assms(3,4)
    by (auto simp: test_create_state_with_nulls_def set_operation_lost contract_query_def query_begin_def word_gt_0)
qed

text \<open>\<open>tx_deser\<close> is the tagged decoding of the transaction tuple that the test asks for.\<close>

definition test_assemble_deploy_tx ::
    "hexlib \<Rightarrow> json_lib \<Rightarrow> ('data, 'op, 'rest, 'gop, 'ev, 'gas) pool_lib \<Rightarrow>
     ('data, 'op, 'rest, 'vk, 'deploy, 'addr, 'tx) deploy_lib \<Rightarrow> (bytes \<Rightarrow> 'tx option) \<Rightarrow> u64 \<Rightarrow>
     ('data, 'op, 'rest) contract_state pool \<Rightarrow> bool" where
  \<open>test_assemble_deploy_tx hx jl pl dp tx_deser clock p \<longleftrightarrow>
     (let state = pl_default pl;
          (handle, p1) = take_handle p;
          p2 = pool_insert handle state p1;
          params = ''{"network_id":"undeployed","state_handle":'' @ show_word handle @ ''}'';
          (result_ptr, p3) = contract_assemble_deploy_tx hx jl dp clock (Some params) p2
      in (case result_ptr of
            TextReply result_str \<Rightarrow>
              (case jl_parse jl result_str of
                 None \<Rightarrow> False
               | Some result \<Rightarrow>
                   jget ''error'' result = None \<and>
                   (case (as_str (jidx result ''tx_hex''), as_str (jidx result ''contract_address'')) of
                      (Some tx_hex, Some contract_address) \<Rightarrow>
                        tx_hex \<noteq> [] \<and> contract_address \<noteq> [] \<and> length contract_address = 64 \<and>
                        (case hx_dec hx tx_hex of Some tx_bytes \<Rightarrow> tx_deser tx_bytes \<noteq> None | None \<Rightarrow> False)
                    | _ \<Rightarrow> False))
          | _ \<Rightarrow> False) \<and>
         pool_get p3 handle = None)\<close>

text \<open>Addresses have 32 bytes, transactions an encoding that reads back, and the two texts parse.\<close>

definition deploys :: "hexlib \<Rightarrow> json_lib \<Rightarrow> ('data, 'op, 'rest, 'vk, 'deploy, 'addr, 'tx) deploy_lib \<Rightarrow> (bytes \<Rightarrow> 'tx option) \<Rightarrow> bool" where
  \<open>deploys hx jl dp tx_deser \<longleftrightarrow>
     (\<forall>a. \<exists>b. dp_addr_ser dp a = Some b \<and> length b = 32) \<and>
     (\<forall>tx. \<exists>b. dp_ser_tuple dp tx = Some b \<and> b \<noteq> [] \<and> tx_deser b = Some tx) \<and>
     (\<forall>h. jl_parse jl (''{"network_id":"undeployed","state_handle":'' @ show_word h @ ''}'') =
        Some (JObject [(''network_id'', JString ''undeployed''), (''state_handle'', json_u64 h)])) \<and>
     (\<forall>t a. jl_parse jl (deploy_text hx t a) =
        Some (JObject [(''tx_hex'', JString (hx_enc hx t)), (''contract_address'', JString (hx_enc hx a))]))\<close>

lemma deploy_test_passes:
  assumes "hex_ok hx" "deploys hx jl dp tx_deser"
  shows "test_assemble_deploy_tx hx jl pl dp tx_deser clock p"
proof -
  let ?h = "sp_next p"
  let ?params = \<open>''{"network_id":"undeployed","state_handle":'' @ show_word ?h @ ''}''\<close>
  let ?obj = "JObject [(''network_id'', JString ''undeployed''), (''state_handle'', json_u64 ?h)]"
  let ?deploy = "dp_deploy dp (pl_default pl)"
  obtain a where a: "dp_addr_ser dp (dp_address dp ?deploy) = Some a" "length a = 32"
    using assms(2) unfolding deploys_def by metis
  obtain b where b: "dp_ser_tuple dp (dp_tx dp ''undeployed'' (default_ttl ?obj clock) ?deploy) = Some b"
    "b \<noteq> []" "tx_deser b = Some (dp_tx dp ''undeployed'' (default_ttl ?obj clock) ?deploy)"
    using assms(2) unfolding deploys_def by metis
  have w: "is_ascii (show_word ?h)" "CHR 0x00 \<notin> set (show_word ?h)" by (rule shown_plain)+
  have c: "c_str_to_str (Some ?params) = Some ?params"
    by (rule plain_c_str) (use w in \<open>simp_all add: is_ascii_def\<close>)
  have p: "jl_parse jl ?params = Some ?obj"
    "jl_parse jl (deploy_text hx b a) = Some (JObject [(''tx_hex'', JString (hx_enc hx b)), (''contract_address'', JString (hx_enc hx a))])"
    using assms(2) unfolding deploys_def by blast+
  have "deploy_tx hx dp ?obj ''undeployed'' (default_ttl ?obj clock) (pl_default pl) = Inr (deploy_text hx b a)"
    using a b by (simp add: deploy_tx_def jidx_def as_object_def Let_def)
  moreover have "cstring_new (deploy_text hx b a) = Some (deploy_text hx b a)"
    by (simp add: cstring_new_eq_Some deploy_text_def hex_enc_plain [OF assms(1)])
  moreover have "hx_enc hx b \<noteq> []" "length (hx_enc hx a) = 64"
    using b(2) a(2) hex_enc_length [OF assms(1)] by (metis length_0_conv mult_eq_0_iff zero_neq_numeral, simp)
  moreover from this have "hx_enc hx a \<noteq> []" by auto
  ultimately show ?thesis
    using c p b(3) hex_dec_enc [OF assms(1)]
    by (simp add: test_assemble_deploy_tx_def take_handle_def contract_assemble_deploy_tx_def assemble_deploy_tx_impl_def
        jidx_def sp.get_ins_same sp.get_del reply_of_def to_c_string_def Let_def)
qed

end
