(* ===== verification/WalletTests.thy ===== *)
theory WalletTests
  imports ContractTests ZswapTx DustState Replay Proving DustRegistration UnshieldedTx Signing
begin

text \<open>
  Unit tests of \<open>dust_ffi.rs\<close>, \<open>zswap_ffi.rs\<close>, \<open>serialize.rs\<close>, \<open>prove_ffi.rs\<close> and \<open>lib.rs\<close> as
  predicates on the model, with the inputs and assertions of the source: the refusals of every
  entry point, and what a fresh wallet answers. Tests over coins and events minted by the ledger are
  not here. A test that makes a wallet and frees it runs on the heap.
\<close>

subsection \<open>A wallet made and freed\<close>

text \<open>The pointee is looked at, then the pointer is freed; a null pointer fails the test.\<close>

definition on_fresh ::
    "addr option \<times> 'st heap \<Rightarrow> (addr option \<Rightarrow> 'st heap \<Rightarrow> 'st heap mem) \<Rightarrow> ('st option \<Rightarrow> bool) \<Rightarrow> bool" where
  "on_fresh made free look =
     (case made of
        (Some a, h) \<Rightarrow>
          (case hp_cells h a of
             Some (Boxed st) \<Rightarrow> look (Some st) \<and> (case free (Some a) h of Fine h' \<Rightarrow> True | UB \<Rightarrow> False)
           | _ \<Rightarrow> False)
      | (None, h) \<Rightarrow> False)"

lemma on_fresh_dust:
  "on_fresh (create_dust_local_state ds h) free_dust_local_state look \<longleftrightarrow> look (Some (ds_new ds))"
  by (simp add: on_fresh_def create_dust_local_state_def heap_alloc_def free_dust_local_state_def drop_box_def)

lemma on_fresh_zswap:
  "on_fresh (create_zswap_local_state zl h) free_zswap_local_state look \<longleftrightarrow> look (Some (zl_new zl))"
  by (simp add: on_fresh_def create_zswap_local_state_def heap_alloc_def free_zswap_local_state_def drop_box_def)

subsection \<open>Dust\<close>

definition dust_test_invalid_seed_length ::
    "hexlib \<Rightarrow> ('st, 'sk, 'utxo, 'spend, 'nul) dust_lib \<Rightarrow> ('st, 'sk, 'utxo, 'spend) dust_state_lib \<Rightarrow> bool" where
  "dust_test_invalid_seed_length hx dl ds \<longleftrightarrow>
     (let invalid_seed = replicate 16 0 in
      derive_dust_public_key hx dl ds (Some invalid_seed) (of_nat (length invalid_seed)) = None)"

definition dust_test_null_pointer ::
    "hexlib \<Rightarrow> ('st, 'sk, 'utxo, 'spend, 'nul) dust_lib \<Rightarrow> ('st, 'sk, 'utxo, 'spend) dust_state_lib \<Rightarrow> bool" where
  "dust_test_null_pointer hx dl ds \<longleftrightarrow> derive_dust_public_key hx dl ds None 32 = None"

definition test_create_dust_local_state :: "('st, 'sk, 'utxo, 'spend) dust_state_lib \<Rightarrow> 'st heap \<Rightarrow> bool" where
  "test_create_dust_local_state ds h \<longleftrightarrow>
     on_fresh (create_dust_local_state ds h) free_dust_local_state (\<lambda>state_ptr. state_ptr \<noteq> None)"

definition test_dust_wallet_balance_empty :: "('st, 'sk, 'utxo, 'spend) dust_state_lib \<Rightarrow> 'st heap \<Rightarrow> bool" where
  "test_dust_wallet_balance_empty ds h \<longleftrightarrow>
     on_fresh (create_dust_local_state ds h) free_dust_local_state (\<lambda>state_ptr.
       let time_millis = 1000000000 in dust_wallet_balance ds state_ptr time_millis = Some ''0'')"

definition test_dust_wallet_balance_null_ptr :: "('st, 'sk, 'utxo, 'spend) dust_state_lib \<Rightarrow> bool" where
  "test_dust_wallet_balance_null_ptr ds \<longleftrightarrow> dust_wallet_balance ds None 0 = None"

definition test_serialize_dust_state_null_ptr :: "('st, 'sk, 'utxo, 'spend) dust_state_lib \<Rightarrow> 'o heap \<Rightarrow> bool" where
  "test_serialize_dust_state_null_ptr ds h \<longleftrightarrow> fst (serialize_dust_state ds None h) = None"

text \<open>The length is read from the first eight bytes, the data starts after them.\<close>

definition test_deserialize_dust_state_round_trip ::
    "('st, 'sk, 'utxo, 'spend, 'nul) dust_lib \<Rightarrow> ('st, 'sk, 'utxo, 'spend) dust_state_lib \<Rightarrow> 'st heap \<Rightarrow> bool" where
  "test_deserialize_dust_state_round_trip dl ds h \<longleftrightarrow>
     on_fresh (create_dust_local_state ds h) free_dust_local_state (\<lambda>state_ptr.
       case serialize_dust_state ds state_ptr h of
         (bytes_ptr, h1) \<Rightarrow>
           (case vec_at bytes_ptr h1 of
              None \<Rightarrow> False
            | Some bs \<Rightarrow>
                (let len = u64_from_le_bytes (take 8 bs);
                     deserialized_ptr = deserialize_dust_state ds (Some (drop 8 bs)) len;
                     time_millis = 1000000000;
                     balance1 = dust_wallet_balance ds state_ptr time_millis;
                     balance2 = dust_wallet_balance ds deserialized_ptr time_millis
                 in deserialized_ptr \<noteq> None \<and> balance1 \<noteq> None \<and> balance2 \<noteq> None \<and> balance1 = balance2 \<and>
                    dust_utxo_count dl state_ptr = dust_utxo_count dl deserialized_ptr \<and>
                    (case free_byte_array bytes_ptr h1 of Fine h2 \<Rightarrow> True | UB \<Rightarrow> False))))"

definition test_deserialize_dust_state_null_ptr :: "('st, 'sk, 'utxo, 'spend) dust_state_lib \<Rightarrow> bool" where
  "test_deserialize_dust_state_null_ptr ds \<longleftrightarrow> deserialize_dust_state ds None 100 = None"

definition test_deserialize_dust_state_zero_length :: "('st, 'sk, 'utxo, 'spend) dust_state_lib \<Rightarrow> bool" where
  "test_deserialize_dust_state_zero_length ds \<longleftrightarrow>
     (let dummy_data = replicate 10 0 in deserialize_dust_state ds (Some dummy_data) 0 = None)"

definition test_dust_utxo_count_empty ::
    "('st, 'sk, 'utxo, 'spend, 'nul) dust_lib \<Rightarrow> ('st, 'sk, 'utxo, 'spend) dust_state_lib \<Rightarrow> 'st heap \<Rightarrow> bool" where
  "test_dust_utxo_count_empty dl ds h \<longleftrightarrow>
     on_fresh (create_dust_local_state ds h) free_dust_local_state (\<lambda>state_ptr. dust_utxo_count dl state_ptr = 0)"

definition test_dust_utxo_count_null_ptr :: "('st, 'sk, 'utxo, 'spend, 'nul) dust_lib \<Rightarrow> bool" where
  "test_dust_utxo_count_null_ptr dl \<longleftrightarrow> dust_utxo_count dl None = 0"

definition test_dust_get_utxo_at_out_of_bounds ::
    "hexlib \<Rightarrow> ('st, 'sk, 'utxo, 'spend, 'nul) dust_lib \<Rightarrow> ('st, 'sk, 'utxo, 'spend) dust_state_lib \<Rightarrow>
     'st heap \<Rightarrow> bool" where
  "test_dust_get_utxo_at_out_of_bounds hx dl ds h \<longleftrightarrow>
     on_fresh (create_dust_local_state ds h) free_dust_local_state (\<lambda>state_ptr.
       dust_get_utxo_at hx dl ds state_ptr 0 = None)"

definition test_dust_get_utxo_at_null_ptr ::
    "hexlib \<Rightarrow> ('st, 'sk, 'utxo, 'spend, 'nul) dust_lib \<Rightarrow> ('st, 'sk, 'utxo, 'spend) dust_state_lib \<Rightarrow> bool" where
  "test_dust_get_utxo_at_null_ptr hx dl ds \<longleftrightarrow> dust_get_utxo_at hx dl ds None 0 = None"

text \<open>\<open>events_hex\<close> is the hex of an empty serialised event list, which these two calls never read.\<close>

definition test_dust_replay_events_null_state :: "hexlib \<Rightarrow> ('st, 'sk, 'ev) replay_lib \<Rightarrow> string \<Rightarrow> bool" where
  "test_dust_replay_events_null_state hx rl events_hex \<longleftrightarrow>
     (let seed = replicate 32 0 in dust_replay_events hx rl None (Some seed) 32 (Some events_hex) = None)"

definition test_dust_replay_events_null_seed ::
    "hexlib \<Rightarrow> ('st, 'sk, 'ev) replay_lib \<Rightarrow> ('st, 'sk, 'utxo, 'spend) dust_state_lib \<Rightarrow> string \<Rightarrow> 'st heap \<Rightarrow> bool" where
  "test_dust_replay_events_null_seed hx rl ds events_hex h \<longleftrightarrow>
     on_fresh (create_dust_local_state ds h) free_dust_local_state (\<lambda>state_ptr.
       dust_replay_events hx rl state_ptr None 32 (Some events_hex) = None)"

definition test_dust_replay_events_empty ::
    "hexlib \<Rightarrow> ('st, 'sk, 'ev) replay_lib \<Rightarrow> ('st, 'sk, 'utxo, 'spend) dust_state_lib \<Rightarrow> 'st heap \<Rightarrow> bool" where
  "test_dust_replay_events_empty hx rl ds h \<longleftrightarrow>
     on_fresh (create_dust_local_state ds h) free_dust_local_state (\<lambda>state_ptr.
       let seed = replicate 32 0; new_state_ptr = dust_replay_events hx rl state_ptr (Some seed) 32 (Some []) in
       new_state_ptr \<noteq> None \<and> dust_wallet_balance ds new_state_ptr 1000000000 = Some ''0'')"

text \<open>A new dust wallet holds nothing, its bytes read back, and replaying nothing changes nothing.\<close>

definition fresh_dust ::
    "('st, 'sk, 'utxo, 'spend, 'nul) dust_lib \<Rightarrow> ('st, 'sk, 'utxo, 'spend) dust_state_lib \<Rightarrow> bool" where
  "fresh_dust dl ds \<longleftrightarrow> dl_utxos dl (ds_new ds) = [] \<and> (\<forall>t. ds_wallet_balance ds (ds_new ds) t = 0) \<and>
     (case ds_ser ds (ds_new ds) of
        Some b \<Rightarrow> b \<noteq> [] \<and> length b < 2 ^ 63 \<and> ds_deser ds b = Some (ds_new ds) \<and>
          ds_with_capacity ds (8 + length b) = 8 + length b
      | None \<Rightarrow> False)"

lemma dust_null_tests_pass:
  "dust_test_invalid_seed_length hx dl ds" "dust_test_null_pointer hx dl ds"
  "test_create_dust_local_state ds h" "test_dust_wallet_balance_null_ptr ds"
  "test_serialize_dust_state_null_ptr ds h" "test_deserialize_dust_state_null_ptr ds"
  "test_deserialize_dust_state_zero_length ds" "test_dust_utxo_count_null_ptr dl"
  "test_dust_get_utxo_at_null_ptr hx dl ds" "test_dust_replay_events_null_state hx rl ev"
  "test_dust_replay_events_null_seed hx rl ds ev h"
  by (simp_all add: dust_test_invalid_seed_length_def dust_test_null_pointer_def test_create_dust_local_state_def
      test_dust_wallet_balance_null_ptr_def test_serialize_dust_state_null_ptr_def
      test_deserialize_dust_state_null_ptr_def test_deserialize_dust_state_zero_length_def
      test_dust_utxo_count_null_ptr_def test_dust_get_utxo_at_null_ptr_def test_dust_replay_events_null_state_def
      test_dust_replay_events_null_seed_def derive_dust_public_key_def dust_wallet_balance_def serialize_dust_state_def
      deserialize_dust_state_def dust_utxo_count_def dust_get_utxo_at_def dust_replay_events_def on_fresh_dust)

lemma show_zero: "show_word (0 :: 'a::len word) = ''0''"
  by (simp add: show_word_def show_nat.simps dec_char_def) code_simp

lemma balance_zero: "fresh_dust dl ds \<Longrightarrow> dust_wallet_balance ds (Some (ds_new ds)) t = Some ''0''"
  by (simp add: dust_wallet_balance_def fresh_dust_def show_zero cstring_new_def)

lemma fresh_dust_tests_pass:
  assumes "fresh_dust dl ds"
  shows "test_dust_wallet_balance_empty ds h" "test_dust_utxo_count_empty dl ds h"
    and "test_dust_get_utxo_at_out_of_bounds hx dl ds h"
    and "(\<And>st sk. rl_replay rl st sk [] = Some st) \<Longrightarrow> test_dust_replay_events_empty hx rl ds h"
    and "test_deserialize_dust_state_round_trip dl ds h"
proof -
  note f = assms [unfolded fresh_dust_def]
  show "test_dust_wallet_balance_empty ds h" "test_dust_utxo_count_empty dl ds h"
    "test_dust_get_utxo_at_out_of_bounds hx dl ds h"
    using f by (simp_all add: test_dust_wallet_balance_empty_def test_dust_utxo_count_empty_def
        test_dust_get_utxo_at_out_of_bounds_def on_fresh_dust balance_zero [OF assms] dust_utxo_count_def
        dust_get_utxo_at_def Let_def)
  show "test_dust_replay_events_empty hx rl ds h" if "\<And>st sk. rl_replay rl st sk [] = Some st"
    using that by (simp add: test_dust_replay_events_empty_def on_fresh_dust dust_replay_events_def
        cstr_to_str_ascii is_ascii_def balance_zero [OF assms])
  obtain b where b: "ds_ser ds (ds_new ds) = Some b" "b \<noteq> []" "length b < 2 ^ 63" "ds_deser ds b = Some (ds_new ds)"
    "ds_with_capacity ds (8 + length b) = 8 + length b"
    using f by (auto split: option.splits)
  have n: "unat (of_nat (length b) :: u64) = length b"
    using b(3) by (simp add: unat_of_nat take_bit_nat_eq_self)
  then have z: "(of_nat (length b) :: u64) \<noteq> 0" using b(2) by (metis length_0_conv unat_0)
  have balance: "dust_wallet_balance ds (Some (ds_new ds)) t = Some ''0''" for t by (rule balance_zero [OF assms])
  show "test_deserialize_dust_state_round_trip dl ds h"
    using b(1,4,5) n z balance unat_8_len [OF b(3)] by (simp add: test_deserialize_dust_state_round_trip_def on_fresh_dust serialize_dust_state_def
        heap_alloc_def vec_at_def Let_def deserialize_dust_state_def free_byte_array_def slice_from_def drop_vec_def)
qed

subsection \<open>Zswap\<close>

definition test_create_and_free :: "('st, 'sk, 'tok, 'nonce, 'nul, 'inp) zswap_lib \<Rightarrow> 'st heap \<Rightarrow> bool" where
  "test_create_and_free zl h \<longleftrightarrow>
     on_fresh (create_zswap_local_state zl h) free_zswap_local_state (\<lambda>state.
       zswap_get_coin_count zl state = 0 \<and> zswap_get_first_free zl state = 0)"

definition test_empty_balances ::
    "hexlib \<Rightarrow> ('st, 'sk, 'tok, 'nonce, 'nul, 'inp) zswap_lib \<Rightarrow> 'st heap \<Rightarrow> bool" where
  "test_empty_balances hx zl h \<longleftrightarrow>
     on_fresh (create_zswap_local_state zl h) free_zswap_local_state (\<lambda>state.
       zswap_get_balances hx zl state = Some ''{}'')"

definition test_replay_empty_events ::
    "hexlib \<Rightarrow> ('st, 'sk, 'tok, 'nonce, 'nul, 'inp) zswap_lib \<Rightarrow> ('st, 'rk, 'ev) replay_lib \<Rightarrow> 'st heap \<Rightarrow> bool" where
  "test_replay_empty_events hx zl rl h \<longleftrightarrow>
     on_fresh (create_zswap_local_state zl h) free_zswap_local_state (\<lambda>state.
       let seed = replicate 32 0; new_state = zswap_replay_events hx rl state (Some seed) 32 (Some []) in
       new_state \<noteq> None \<and> zswap_get_coin_count zl new_state = 0)"

text \<open>\<open>file\<close> is the path of the empty file the test writes.\<close>

definition test_zswap_replay_from_file_empty ::
    "hexlib \<Rightarrow> ('st, 'sk, 'tok, 'nonce, 'nul, 'inp) zswap_lib \<Rightarrow> ('st, 'rk, 'ev) replay_lib \<Rightarrow> string \<Rightarrow>
     'st heap \<Rightarrow> bool" where
  "test_zswap_replay_from_file_empty hx zl rl path h \<longleftrightarrow>
     on_fresh (create_zswap_local_state zl h) free_zswap_local_state (\<lambda>base.
       let seed = replicate 32 3; new_state = zswap_replay_events_from_file hx rl base (Some seed) 32 (Some path) in
       new_state \<noteq> None \<and> zswap_get_coin_count zl new_state = 0)"

definition test_serialize_deserialize_empty ::
    "hexlib \<Rightarrow> ('st, 'sk, 'tok, 'nonce, 'nul, 'inp) zswap_lib \<Rightarrow> 'st heap \<Rightarrow> bool" where
  "test_serialize_deserialize_empty hx zl h \<longleftrightarrow>
     on_fresh (create_zswap_local_state zl h) free_zswap_local_state (\<lambda>state.
       case zswap_serialize hx zl state of
         None \<Rightarrow> False
       | Some hex \<Rightarrow>
           (let restored = zswap_deserialize hx zl (Some hex) in
            hex \<noteq> [] \<and> restored \<noteq> None \<and> zswap_get_coin_count zl restored = 0 \<and>
            zswap_get_first_free zl restored = 0))"

text \<open>All entry points with null arguments.\<close>

definition zswap_test_null_safety ::
    "hexlib \<Rightarrow> json_lib \<Rightarrow> ('st, 'sk, 'tok, 'nonce, 'nul, 'inp) zswap_lib \<Rightarrow> ('st, 'rk, 'ev) replay_lib \<Rightarrow>
     ('cpk, 'epk, 'tok, 'nonce, 'inp, 'out, 'offer, 'tx, 'spend, 'reg, 'bind, 'uoffer, 'act) ztx_lib \<Rightarrow>
     'st heap \<Rightarrow> bool" where
  "zswap_test_null_safety hx jl zl rl zt h \<longleftrightarrow>
     zswap_replay_events hx rl None None 0 None = None \<and> zswap_get_balances hx zl None = None \<and>
     zswap_get_coin_count zl None = 0 \<and> zswap_get_first_free zl None = 0 \<and>
     zswap_serialize hx zl None = None \<and> zswap_deserialize hx zl None = None \<and>
     zswap_select_coins hx zl None None None = None \<and>
     (let spend_result = zswap_spend_coin hx jl zl None None 0 None in
      zr_new_state spend_result = None \<and> zr_result_json spend_result = None) \<and>
     zswap_create_output hx zt None None None None = None \<and>
     free_zswap_local_state None h = Fine h \<and> free_zswap_string None h = Fine h"

definition NATIVE_HEX :: string where
  "NATIVE_HEX = replicate 64 (CHR ''0'')"

definition test_select_coins_empty_state ::
    "hexlib \<Rightarrow> ('st, 'sk, 'tok, 'nonce, 'nul, 'inp) zswap_lib \<Rightarrow> 'st heap \<Rightarrow> bool" where
  "test_select_coins_empty_state hx zl h \<longleftrightarrow>
     on_fresh (create_zswap_local_state zl h) free_zswap_local_state (\<lambda>state.
       zswap_select_coins hx zl state (Some NATIVE_HEX) (Some ''1000000'') = None)"

definition test_select_coins_invalid_amount ::
    "hexlib \<Rightarrow> ('st, 'sk, 'tok, 'nonce, 'nul, 'inp) zswap_lib \<Rightarrow> 'st heap \<Rightarrow> bool" where
  "test_select_coins_invalid_amount hx zl h \<longleftrightarrow>
     on_fresh (create_zswap_local_state zl h) free_zswap_local_state (\<lambda>state.
       zswap_select_coins hx zl state (Some NATIVE_HEX) (Some ''not_a_number'') = None)"

definition test_spend_coin_invalid_seed_len ::
    "hexlib \<Rightarrow> json_lib \<Rightarrow> ('st, 'sk, 'tok, 'nonce, 'nul, 'inp) zswap_lib \<Rightarrow> 'st heap \<Rightarrow> bool" where
  "test_spend_coin_invalid_seed_len hx jl zl h \<longleftrightarrow>
     on_fresh (create_zswap_local_state zl h) free_zswap_local_state (\<lambda>state.
       let seed = replicate 16 0; result = zswap_spend_coin hx jl zl state (Some seed) 16 (Some ''{}'') in
       zr_new_state result = None \<and> zr_result_json result = None)"

definition missing_coin_json :: string where
  \<open>missing_coin_json = ''{"type_hex":"'' @ NATIVE_HEX @ ''","value":"5000000","nonce_hex":"'' @ NATIVE_HEX @
     ''","mt_index":0}''\<close>

definition test_spend_coin_not_found_in_state ::
    "hexlib \<Rightarrow> json_lib \<Rightarrow> ('st, 'sk, 'tok, 'nonce, 'nul, 'inp) zswap_lib \<Rightarrow> 'st heap \<Rightarrow> bool" where
  "test_spend_coin_not_found_in_state hx jl zl h \<longleftrightarrow>
     on_fresh (create_zswap_local_state zl h) free_zswap_local_state (\<lambda>state.
       let seed = replicate 32 0; result = zswap_spend_coin hx jl zl state (Some seed) 32 (Some missing_coin_json) in
       zr_new_state result = None \<and> zr_result_json result = None)"

definition parsed_coin_json :: string where
  \<open>parsed_coin_json = ''{"type_hex":"'' @ NATIVE_HEX @ ''","value":"5000000","nonce_hex":"'' @ NATIVE_HEX @
     ''","mt_index":42}''\<close>

definition test_parse_qualified_coin_info ::
    "hexlib \<Rightarrow> json_lib \<Rightarrow> ('st, 'sk, 'tok, 'nonce, 'nul, 'inp) zswap_lib \<Rightarrow> bool" where
  "test_parse_qualified_coin_info hx jl zl \<longleftrightarrow>
     (case parse_qualified_coin_info hx jl zl parsed_coin_json of
        Inr coin \<Rightarrow> zc_value coin = 5000000 \<and> zc_mt_index coin = 42 | Inl e \<Rightarrow> False)"

text \<open>\<open>not json\<close> does not parse; the other text is an object without the remaining fields.\<close>

definition test_parse_qualified_coin_info_invalid ::
    "hexlib \<Rightarrow> json_lib \<Rightarrow> ('st, 'sk, 'tok, 'nonce, 'nul, 'inp) zswap_lib \<Rightarrow> bool" where
  \<open>test_parse_qualified_coin_info_invalid hx jl zl \<longleftrightarrow>
     res_ok (parse_qualified_coin_info hx jl zl ''not json'') = None \<and>
     res_ok (parse_qualified_coin_info hx jl zl ''{"type_hex":"ff"}'') = None\<close>

definition test_build_offer_empty_inputs_and_outputs ::
    "hexlib \<Rightarrow> ('cpk, 'epk, 'tok, 'nonce, 'inp, 'out, 'offer, 'tx, 'spend, 'reg, 'bind, 'uoffer, 'act) ztx_lib \<Rightarrow>
     bool" where
  "test_build_offer_empty_inputs_and_outputs hx zt \<longleftrightarrow> zswap_build_offer hx zt (Some ''[]'') (Some ''[]'') = None"

definition test_build_offer_null_safety ::
    "hexlib \<Rightarrow> ('cpk, 'epk, 'tok, 'nonce, 'inp, 'out, 'offer, 'tx, 'spend, 'reg, 'bind, 'uoffer, 'act) ztx_lib \<Rightarrow>
     bool" where
  "test_build_offer_null_safety hx zt \<longleftrightarrow> zswap_build_offer hx zt None None = None"

definition test_merge_offers_null_safety ::
    "hexlib \<Rightarrow> ('cpk, 'epk, 'tok, 'nonce, 'inp, 'out, 'offer, 'tx, 'spend, 'reg, 'bind, 'uoffer, 'act) ztx_lib \<Rightarrow>
     bool" where
  "test_merge_offers_null_safety hx zt \<longleftrightarrow> zswap_merge_offers hx zt None None = None"

definition test_serialize_offer_null_safety ::
    "hexlib \<Rightarrow> ('cpk, 'epk, 'tok, 'nonce, 'inp, 'out, 'offer, 'tx, 'spend, 'reg, 'bind, 'uoffer, 'act) ztx_lib \<Rightarrow>
     bool" where
  "test_serialize_offer_null_safety hx zt \<longleftrightarrow> zswap_serialize_offer hx zt None = None"

definition test_build_shielded_transaction_null_safety ::
    "hexlib \<Rightarrow> ('cpk, 'epk, 'tok, 'nonce, 'inp, 'out, 'offer, 'tx, 'spend, 'reg, 'bind, 'uoffer, 'act) ztx_lib \<Rightarrow>
     bool" where
  "test_build_shielded_transaction_null_safety hx zt \<longleftrightarrow> zswap_build_shielded_transaction hx zt None None None 0 = None"

text \<open>A new wallet has no coins, no tree and an encoding that reads back.\<close>

definition fresh_zswap :: "('st, 'sk, 'tok, 'nonce, 'nul, 'inp) zswap_lib \<Rightarrow> bool" where
  "fresh_zswap zl \<longleftrightarrow> zl_coins zl (zl_new zl) = [] \<and> zl_first_free zl (zl_new zl) = 0 \<and> zl_hash_order zl [] = [] \<and>
     (case zl_ser zl (zl_new zl) of Some b \<Rightarrow> b \<noteq> [] \<and> zl_deser zl b = Some (zl_new zl) | None \<Rightarrow> False)"

text \<open>The texts of the coin tests mean what they say; token types and nonces are any 32 bytes.\<close>

definition reads_coin_texts :: "hexlib \<Rightarrow> json_lib \<Rightarrow> ('st, 'sk, 'tok, 'nonce, 'nul, 'inp) zswap_lib \<Rightarrow> bool" where
  \<open>reads_coin_texts hx jl zl \<longleftrightarrow>
     jl_parse jl parsed_coin_json = Some (JObject [(''type_hex'', JString NATIVE_HEX), (''value'', JString ''5000000''),
       (''nonce_hex'', JString NATIVE_HEX), (''mt_index'', json_u64 42)]) \<and>
     jl_parse jl ''not json'' = None \<and>
     jl_parse jl ''{"type_hex":"ff"}'' = Some (JObject [(''type_hex'', JString ''ff'')]) \<and>
     hx_dec hx NATIVE_HEX = Some (replicate 32 0) \<and> zl_tok_deser zl (replicate 32 0) \<noteq> None \<and>
     zl_nonce_deser zl (replicate 32 0) \<noteq> None\<close>

lemma zswap_null_tests_pass:
  "zswap_test_null_safety hx jl zl rl zt h" "test_spend_coin_invalid_seed_len hx jl zl h"
  "test_build_offer_null_safety hx zt" "test_merge_offers_null_safety hx zt" "test_serialize_offer_null_safety hx zt"
  "test_build_shielded_transaction_null_safety hx zt"
  by (simp_all add: zswap_test_null_safety_def test_spend_coin_invalid_seed_len_def test_build_offer_null_safety_def
      test_merge_offers_null_safety_def test_serialize_offer_null_safety_def zswap_replay_events_def
      test_build_shielded_transaction_null_safety_def zswap_get_balances_def zswap_get_coin_count_def
      zswap_get_first_free_def zswap_serialize_def zswap_deserialize_def zswap_select_coins_def zswap_spend_coin_def
      zswap_null_result_def zswap_create_output_def free_zswap_local_state_def free_zswap_string_def
      zswap_build_offer_def zswap_merge_offers_def zswap_serialize_offer_def zswap_build_shielded_transaction_def
      on_fresh_zswap)

lemma fresh_zswap_tests_pass:
  assumes "fresh_zswap zl"
  shows "test_create_and_free zl h" "test_empty_balances hx zl h" "test_replay_empty_events hx zl rl h"
    and "hex_ok hx \<Longrightarrow> test_serialize_deserialize_empty hx zl h"
    and "rl_open rl path = Some ([], False) \<Longrightarrow> cstr_to_str path = Some path \<Longrightarrow>
      test_zswap_replay_from_file_empty hx zl rl path h"
proof -
  note f = assms [unfolded fresh_zswap_def]
  show "test_create_and_free zl h" "test_empty_balances hx zl h" "test_replay_empty_events hx zl rl h"
    using f by (simp_all add: test_create_and_free_def test_empty_balances_def test_replay_empty_events_def on_fresh_zswap
        zswap_get_coin_count_def zswap_get_first_free_def zswap_get_balances_def zswap_replay_events_def Let_def
        cstring_new_def cstr_to_str_ascii is_ascii_def)
  show "test_zswap_replay_from_file_empty hx zl rl path h"
    if "rl_open rl path = Some ([], False)" "cstr_to_str path = Some path"
    using that f by (simp add: test_zswap_replay_from_file_empty_def on_fresh_zswap zswap_replay_events_from_file_def
        read_lines_def replay_zswap_events_chunked_def zswap_get_coin_count_def)
  assume hx: "hex_ok hx"
  obtain b where b: "zl_ser zl (zl_new zl) = Some b" "b \<noteq> []" "zl_deser zl b = Some (zl_new zl)"
    using f by (auto split: option.splits)
  then have "hx_enc hx b \<noteq> []" using hex_enc_length [OF hx, of b] by auto
  with b show "test_serialize_deserialize_empty hx zl h"
    using f by (simp add: test_serialize_deserialize_empty_def on_fresh_zswap zswap_serialize_def zswap_deserialize_def
        hex_enc_cstring [OF hx] cstr_to_str_ascii hex_enc_plain [OF hx] hex_dec_enc [OF hx]
        zswap_get_coin_count_def zswap_get_first_free_def)
qed

lemma coin_tests_pass:
  assumes "fresh_zswap zl" "reads_coin_texts hx jl zl"
  shows "test_select_coins_empty_state hx zl h" "test_select_coins_invalid_amount hx zl h"
    and "test_parse_qualified_coin_info hx jl zl" "test_parse_qualified_coin_info_invalid hx jl zl"
    and "test_spend_coin_not_found_in_state hx jl zl h"
proof -
  note f = assms(1) [unfolded fresh_zswap_def] assms(2) [unfolded reads_coin_texts_def]
  have c: "c_str_to_rust ''1000000'' = Some ''1000000''" "c_str_to_rust ''not_a_number'' = Some ''not_a_number''"
    by (simp_all add: c_str_to_rust_def cstr_to_str_ascii is_ascii_def)
  have nan: "parse_u128 ''not_a_number'' = None"
    by (simp add: parse_u128_def parse_uint_def is_dec_def)
  have none: "matching_coins zl (zl_new zl) tok = []" for tok
    using f by (simp add: matching_coins_def map_filter_simps)
  show "test_select_coins_empty_state hx zl h" "test_select_coins_invalid_amount hx zl h"
    using none by (auto simp: test_select_coins_empty_state_def test_select_coins_invalid_amount_def on_fresh_zswap
        zswap_select_coins_def c test_amounts nan select_coins_def split: option.splits bind_splits)
  show "test_parse_qualified_coin_info hx jl zl" "test_parse_qualified_coin_info_invalid hx jl zl"
    using f by (auto simp: test_parse_qualified_coin_info_def test_parse_qualified_coin_info_invalid_def
        parse_qualified_coin_info_def test_amounts)
  show "test_spend_coin_not_found_in_state hx jl zl h"
    using f by (auto simp: test_spend_coin_not_found_in_state_def on_fresh_zswap zswap_spend_coin_def coin_exists_def
        zswap_null_result_def Let_def split: option.splits bind_splits)
qed

lemma empty_offer_test_passes:
  "zt_strings zt ''[]'' = Some [] \<Longrightarrow> test_build_offer_empty_inputs_and_outputs hx zt"
  by (simp add: test_build_offer_empty_inputs_and_outputs_def zswap_build_offer_def c_str_to_rust_def
      cstr_to_str_ascii is_ascii_def)

subsection \<open>Keys, proofs and registrations\<close>

definition lib_test_invalid_seed_length :: "hexlib \<Rightarrow> 'keys shielded_lib \<Rightarrow> 'o heap \<Rightarrow> bool" where
  "lib_test_invalid_seed_length hx kl h \<longleftrightarrow>
     (let invalid_seed = replicate 16 0 in
      fst (derive_shielded_keys hx kl (Some invalid_seed) (of_nat (length invalid_seed)) h) = None)"

definition lib_test_null_pointer :: "hexlib \<Rightarrow> 'keys shielded_lib \<Rightarrow> 'o heap \<Rightarrow> bool" where
  "lib_test_null_pointer hx kl h \<longleftrightarrow> fst (derive_shielded_keys hx kl None 32 h) = None"

definition prove_test_null_safety ::
    "hexlib \<Rightarrow> ('tx, 'ptx, 'params) prove_lib \<Rightarrow> (string \<Rightarrow> disk_entry) \<Rightarrow> usize option \<Rightarrow> bool \<Rightarrow> rayon \<Rightarrow> bool" where
  "prove_test_null_safety hx pr fs cores runtime_ok ry \<longleftrightarrow>
     fst (zkir_prove_transaction_local hx pr fs cores runtime_ok None None ry) = None"

definition prove_test_invalid_hex ::
    "hexlib \<Rightarrow> ('tx, 'ptx, 'params) prove_lib \<Rightarrow> (string \<Rightarrow> disk_entry) \<Rightarrow> usize option \<Rightarrow> bool \<Rightarrow> rayon \<Rightarrow> bool" where
  "prove_test_invalid_hex hx pr fs cores runtime_ok ry \<longleftrightarrow>
     fst (zkir_prove_transaction_local hx pr fs cores runtime_ok (Some ''not_hex'') (Some ''/tmp/nonexistent'') ry) = None"

definition test_stub_still_works :: bool where
  "test_stub_still_works \<longleftrightarrow> serialize_unshielded_transaction_stub 1704067200000 \<noteq> None"

definition one_utxo_json :: string where
  \<open>one_utxo_json = ''[{"value":"1000000","intent_hash":"ab6642ef7dd8420c4673a56c57da96adeeedfc5a98140c8a42500b8369464fed",'' @
     ''"output_no":0,"ctime":1737054000}]''\<close>

definition test_build_dust_registration_transaction_invalid_dust_key ::
    "hexlib \<Rightarrow> ('nsk, 'vk, 'tok, 'hash, 'addr, 'sig, 'dpk, 'fr, 'ped, 'par, 'tx, 'st) reg_lib \<Rightarrow> bool" where
  "test_build_dust_registration_transaction_invalid_dust_key hx rg \<longleftrightarrow>
     (let night_private_key = replicate 32 42 in
      res_ok (build_dust_registration_transaction_impl hx rg night_private_key ''not_valid_hex!!!''
        1737658800000 1737658700000 one_utxo_json ''undeployed'' []) = None)"

text \<open>\<open>dust_pk_hex\<close> is the hex of a dust key the test derives.\<close>

definition test_build_dust_registration_transaction_empty_utxos ::
    "hexlib \<Rightarrow> ('nsk, 'vk, 'tok, 'hash, 'addr, 'sig, 'dpk, 'fr, 'ped, 'par, 'tx, 'st) reg_lib \<Rightarrow> string \<Rightarrow> bool" where
  "test_build_dust_registration_transaction_empty_utxos hx rg dust_pk_hex \<longleftrightarrow>
     (let night_private_key = replicate 32 42 in
      build_dust_registration_transaction_impl hx rg night_private_key dust_pk_hex
        1737658800000 1737658700000 ''[]'' ''undeployed'' [] = Inl RegNoUtxo)"

lemma key_and_proof_tests_pass:
  "lib_test_invalid_seed_length hx kl h" "lib_test_null_pointer hx kl h"
  "prove_test_null_safety hx pr fs cores ok ry" "test_stub_still_works"
  "hex_ok hx \<Longrightarrow> prove_test_invalid_hex hx pr fs cores ok ry"
proof -
  show "lib_test_invalid_seed_length hx kl h" "lib_test_null_pointer hx kl h"
    "prove_test_null_safety hx pr fs cores ok ry" "test_stub_still_works"
    by (simp_all add: lib_test_invalid_seed_length_def lib_test_null_pointer_def derive_shielded_keys_def
        prove_test_null_safety_def zkir_prove_transaction_local_def test_stub_still_works_def
        serialize_unshielded_transaction_stub_def cstring_new_def)
  assume "hex_ok hx"
  then have "hx_dec hx ''not_hex'' = None" by (rule odd_hex) simp
  then show "prove_test_invalid_hex hx pr fs cores ok ry"
    by (simp add: prove_test_invalid_hex_def zkir_prove_transaction_local_def prove_local_def c_hex_to_bytes_def
        c_str_to_rust_def cstr_to_str_ascii is_ascii_def)
qed

lemma registration_tests_pass:
  "hx_dec hx ''not_valid_hex!!!'' = None \<Longrightarrow> test_build_dust_registration_transaction_invalid_dust_key hx rg"
  "rg_key_from_bytes rg (replicate 32 42) = Some k \<Longrightarrow> Option.bind (hx_dec hx dust_pk_hex) (rg_dpk_deser rg) = Some dpk \<Longrightarrow>
   rg_parse_utxos rg ''[]'' = Some [] \<Longrightarrow> test_build_dust_registration_transaction_empty_utxos hx rg dust_pk_hex"
  by (auto simp: test_build_dust_registration_transaction_invalid_dust_key_def
      test_build_dust_registration_transaction_empty_utxos_def build_dust_registration_transaction_impl_def
      guardE_def bind_eq_Some_conv ok_or_def res_ok_def split: option.splits sum.splits)

end
