(* ===== verification/ShieldedTests.thy ===== *)
theory ShieldedTests
  imports TransferPipeline WalletTests
begin

text \<open>
  The unit tests of \<open>zswap_ffi.rs\<close> that make outputs and offers through the FFI: an output is
  created for the keys of the test vector, offers are built from its hex, merged, validated and
  put into a transaction, and each text is read back as the test reads it. A test is given the
  nonces its outputs draw. They pass when the ledger makes the outputs and offers that are asked
  for and encodes them, which is a hypothesis.
\<close>

subsection \<open>Outputs\<close>

definition RECIPIENT_COIN_PK :: string where
  "RECIPIENT_COIN_PK = ''9408aeffbeedc6b9b45e1bcc621d1a273fb67f77de3f65bfbb1814d84f8b6524''"

definition RECIPIENT_ENC_PK :: string where
  "RECIPIENT_ENC_PK = ''f3ae706bf28c856a407690b468081a7f5a123e523501b69f4395abcd7e19032b''"

text \<open>\<open>CStr::from_ptr\<close>, \<open>serde_json::from_str\<close> and \<open>v[name].as_str()\<close>; \<open>None\<close> where a test panics.\<close>

definition result_field :: "json_lib \<Rightarrow> string \<Rightarrow> cptr \<Rightarrow> string option" where
  "result_field jl name result = do { c \<leftarrow> result; json \<leftarrow> cstr_to_str c; read_field jl name json }"

definition output_for ::
    "hexlib \<Rightarrow> ('cpk, 'epk, 'tok, 'nonce, 'inp, 'out, 'offer, 'tx, 'spend, 'reg, 'bind, 'uoffer, 'act) ztx_lib \<Rightarrow>
     'nonce \<Rightarrow> string \<Rightarrow> string \<Rightarrow> string \<Rightarrow> cptr" where
  "output_for hx zt nonce coin_pk enc_pk amount =
     zswap_create_output hx (zt\<lparr>zt_nonce := nonce\<rparr>) (Some coin_pk) (Some enc_pk) (Some NATIVE_HEX) (Some amount)"

definition test_create_output_valid ::
    "hexlib \<Rightarrow> json_lib \<Rightarrow> ('cpk, 'epk, 'tok, 'nonce, 'inp, 'out, 'offer, 'tx, 'spend, 'reg, 'bind, 'uoffer, 'act) ztx_lib \<Rightarrow>
     'nonce \<Rightarrow> bool" where
  "test_create_output_valid hx jl zt nonce \<longleftrightarrow>
     (let result = output_for hx zt nonce RECIPIENT_COIN_PK RECIPIENT_ENC_PK ''5000000'' in
      result \<noteq> None \<and> result_field jl ''output_hex'' result \<noteq> None \<and>
      result_field jl ''binding_randomness_hex'' result \<noteq> None \<and>
      result_field jl ''output_hex'' result \<noteq> Some [])"

text \<open>The second recipient's keys are derived on the heap, read from there and freed at the end.\<close>

definition test_create_output_different_recipients_differ ::
    "hexlib \<Rightarrow> json_lib \<Rightarrow> ('cpk, 'epk, 'tok, 'nonce, 'inp, 'out, 'offer, 'tx, 'spend, 'reg, 'bind, 'uoffer, 'act) ztx_lib \<Rightarrow>
     'keys shielded_lib \<Rightarrow> 'nonce \<Rightarrow> 'nonce \<Rightarrow> 'o heap \<Rightarrow> bool" where
  "test_create_output_different_recipients_differ hx jl zt kl nonce_a nonce_b h \<longleftrightarrow>
     (let result_a = output_for hx zt nonce_a RECIPIENT_COIN_PK RECIPIENT_ENC_PK ''1000000'';
          seed_b = replicate 32 2 in
      result_a \<noteq> None \<and>
      (case derive_shielded_keys hx kl (Some seed_b) 32 h of
         (None, h1) \<Rightarrow> False
       | (Some keys_b, h1) \<Rightarrow>
           (case hp_cells h1 keys_b of
              Some (ShieldedKeys (Some c) (Some e)) \<Rightarrow>
                (case (hp_cells h1 c, hp_cells h1 e) of
                   (Some (CStr cpk_c), Some (CStr epk_c)) \<Rightarrow>
                     (case (cstr_to_str cpk_c, cstr_to_str epk_c) of
                        (Some cpk_b, Some epk_b) \<Rightarrow>
                          (let result_b = output_for hx zt nonce_b cpk_b epk_b ''1000000'' in
                           result_b \<noteq> None \<and>
                           (case (result_field jl ''output_hex'' result_a, result_field jl ''output_hex'' result_b) of
                              (Some output_a, Some output_b) \<Rightarrow> output_a \<noteq> output_b
                            | _ \<Rightarrow> False) \<and>
                           (case free_shielded_keys (Some keys_b) h1 of Fine h2 \<Rightarrow> True | UB \<Rightarrow> False))
                      | _ \<Rightarrow> False)
                 | _ \<Rightarrow> False)
            | _ \<Rightarrow> False)))"

subsection \<open>Offers and transactions\<close>

definition helper_create_output_hex ::
    "hexlib \<Rightarrow> json_lib \<Rightarrow> ('cpk, 'epk, 'tok, 'nonce, 'inp, 'out, 'offer, 'tx, 'spend, 'reg, 'bind, 'uoffer, 'act) ztx_lib \<Rightarrow>
     'nonce \<Rightarrow> string option" where
  "helper_create_output_hex hx jl zt nonce =
     result_field jl ''output_hex'' (output_for hx zt nonce RECIPIENT_COIN_PK RECIPIENT_ENC_PK ''5000000'')"

text \<open>The offer of one fresh output, and no inputs; \<open>None\<close> inside is a panic of the helper.\<close>

definition one_output_offer ::
    "hexlib \<Rightarrow> json_lib \<Rightarrow> ('cpk, 'epk, 'tok, 'nonce, 'inp, 'out, 'offer, 'tx, 'spend, 'reg, 'bind, 'uoffer, 'act) ztx_lib \<Rightarrow>
     'nonce \<Rightarrow> cptr" where
  \<open>one_output_offer hx jl zt nonce = do {
     output_hex \<leftarrow> helper_create_output_hex hx jl zt nonce;
     zswap_build_offer hx zt (Some ''[]'') (Some (''["'' @ output_hex @ ''"]''))
   }\<close>

definition test_build_offer_with_single_output ::
    "hexlib \<Rightarrow> json_lib \<Rightarrow> ('cpk, 'epk, 'tok, 'nonce, 'inp, 'out, 'offer, 'tx, 'spend, 'reg, 'bind, 'uoffer, 'act) ztx_lib \<Rightarrow>
     'nonce \<Rightarrow> bool" where
  "test_build_offer_with_single_output hx jl zt nonce \<longleftrightarrow>
     (let result = one_output_offer hx jl zt nonce in
      result \<noteq> None \<and> result_field jl ''offer_hex'' result \<noteq> None \<and>
      result_field jl ''binding_randomness_hex'' result \<noteq> None \<and>
      result_field jl ''offer_hex'' result \<noteq> Some [])"

definition test_merge_offers_two_output_offers ::
    "hexlib \<Rightarrow> json_lib \<Rightarrow> ('cpk, 'epk, 'tok, 'nonce, 'inp, 'out, 'offer, 'tx, 'spend, 'reg, 'bind, 'uoffer, 'act) ztx_lib \<Rightarrow>
     'nonce \<Rightarrow> 'nonce \<Rightarrow> bool" where
  "test_merge_offers_two_output_offers hx jl zt nonce1 nonce2 \<longleftrightarrow>
     (case (result_field jl ''offer_hex'' (one_output_offer hx jl zt nonce1),
            result_field jl ''offer_hex'' (one_output_offer hx jl zt nonce2)) of
        (Some offer1_hex, Some offer2_hex) \<Rightarrow> zswap_merge_offers hx zt (Some offer1_hex) (Some offer2_hex) \<noteq> None
      | _ \<Rightarrow> False)"

definition test_serialize_offer_round_trip ::
    "hexlib \<Rightarrow> json_lib \<Rightarrow> ('cpk, 'epk, 'tok, 'nonce, 'inp, 'out, 'offer, 'tx, 'spend, 'reg, 'bind, 'uoffer, 'act) ztx_lib \<Rightarrow>
     'nonce \<Rightarrow> bool" where
  "test_serialize_offer_round_trip hx jl zt nonce \<longleftrightarrow>
     (case result_field jl ''offer_hex'' (one_output_offer hx jl zt nonce) of
        Some offer_hex \<Rightarrow>
          (let serialized = zswap_serialize_offer hx zt (Some offer_hex) in
           serialized \<noteq> None \<and> serialized \<noteq> Some [])
      | None \<Rightarrow> False)"

definition test_build_shielded_transaction_with_output_only_offer ::
    "hexlib \<Rightarrow> json_lib \<Rightarrow> ('cpk, 'epk, 'tok, 'nonce, 'inp, 'out, 'offer, 'tx, 'spend, 'reg, 'bind, 'uoffer, 'act) ztx_lib \<Rightarrow>
     'nonce \<Rightarrow> bool" where
  "test_build_shielded_transaction_with_output_only_offer hx jl zt nonce \<longleftrightarrow>
     (case result_field jl ''offer_hex'' (one_output_offer hx jl zt nonce) of
        Some offer_hex \<Rightarrow>
          (let ttl_ms = 1711584000000;
               result = zswap_build_shielded_transaction hx zt (Some offer_hex) (Some ''undeployed'') None ttl_ms in
           result \<noteq> None \<and> result \<noteq> Some [])
      | None \<Rightarrow> False)"

subsection \<open>They pass\<close>

text \<open>
  The test vector's keys and the zero token decode; the ledger makes any output, the offer of any one
  output and any transaction, and no encoding is empty.
\<close>

definition mints ::
    "hexlib \<Rightarrow> ('cpk, 'epk, 'tok, 'nonce, 'inp, 'out, 'offer, 'tx, 'spend, 'reg, 'bind, 'uoffer, 'act) ztx_lib \<Rightarrow> bool" where
  "mints hx zt \<longleftrightarrow>
     c_hex_deserialize hx (zt_cpk_deser zt) RECIPIENT_COIN_PK \<noteq> None \<and>
     c_hex_deserialize hx (zt_epk_deser zt) RECIPIENT_ENC_PK \<noteq> None \<and>
     c_hex_deserialize hx (zt_tok_deser zt) NATIVE_HEX \<noteq> None \<and>
     (\<forall>t v n c e. zt_new_output zt t v n c e \<noteq> None) \<and> (\<forall>x. zt_offer_new zt [] [x] \<noteq> None) \<and>
     (\<forall>x. zt_output_ser zt x \<noteq> Some []) \<and> (\<forall>x. zt_offer_ser zt x \<noteq> Some []) \<and>
     (\<forall>x. zt_tx_ser zt x \<noteq> None \<and> zt_tx_ser zt x \<noteq> Some [])"

lemma mints_make:
  assumes "mints hx zt"
  shows "\<exists>x. zt_new_output zt t v n c e = Some x" "\<exists>offer. zt_offer_new zt [] [x] = Some offer"
    and "\<exists>b. zt_tx_ser zt y = Some b \<and> b \<noteq> []"
  using assms unfolding mints_def not_None_eq by metis+

lemma hex_pair_ascii:
  assumes "hex_ok hx" "is_ascii name"
  shows "cstr_to_str (hex_pair_json name hx a b) = Some (hex_pair_json name hx a b)"
  using assms(2) hex_enc_plain(5) [OF assms(1)]
  by (intro cstr_to_str_ascii) (auto simp: is_ascii_def hex_pair_json_def)

lemma result_pair:
  assumes "pairs_read jl" "hex_ok hx" "name \<in> {''output_hex'', ''offer_hex''}"
  shows "result_field jl name (Some (hex_pair_json name hx a b)) = Some (hx_enc hx a)"
    and "result_field jl ''binding_randomness_hex'' (Some (hex_pair_json name hx a b)) = Some (hx_enc hx b)"
proof -
  have n: "is_ascii name" using assms(3) by (auto simp: is_ascii_def)
  show "result_field jl name (Some (hex_pair_json name hx a b)) = Some (hx_enc hx a)"
    using assms read_pair [OF assms(1,2), of name] hex_pair_ascii [OF assms(2) n] by (auto simp: result_field_def)
  show "result_field jl ''binding_randomness_hex'' (Some (hex_pair_json name hx a b)) = Some (hx_enc hx b)"
    using assms hex_pair_ascii [OF assms(2) n]
    by (auto simp: result_field_def read_field_def pairs_read_def)
qed

text \<open>An output made through the FFI is the ledger's output for the same recipient.\<close>

lemma output_ledger:
  assumes "hex_ok hx" "codecs_ok zl zt"
  shows "output_for hx zt nonce cpk epk amount =
    map_option (\<lambda>x. hex_pair_json ''output_hex'' hx (the (zt_output_ser zt x)) (the (zt_output_randomness_ser zt x)))
      (ledger_output hx zt \<lparr>to_nonce = nonce, to_coin_pk = cpk, to_enc_pk = epk, to_token = NATIVE_HEX, to_amount = amount\<rparr>)"
proof -
  obtain ob outr where "zt_output_ser zt = Some \<circ> ob" "zt_output_randomness_ser zt = Some \<circ> outr"
    using assms(2) by (rule codec_cases)
  then show ?thesis
    using pair_cstring [OF assms(1)]
    by (auto simp: output_for_def zswap_create_output_def ledger_output_def split: option.splits bind_splits)
qed

abbreviation "vector_output nonce amount \<equiv> \<lparr>to_nonce = nonce, to_coin_pk = RECIPIENT_COIN_PK,
  to_enc_pk = RECIPIENT_ENC_PK, to_token = NATIVE_HEX, to_amount = amount\<rparr>"

lemma vector_output_made:
  assumes "mints hx zt" "parse_u128 amount = Some v" "is_ascii amount"
  obtains (made) t c e x where "c_hex_deserialize hx (zt_tok_deser zt) NATIVE_HEX = Some t"
    "c_hex_deserialize hx (zt_cpk_deser zt) RECIPIENT_COIN_PK = Some c"
    "c_hex_deserialize hx (zt_epk_deser zt) RECIPIENT_ENC_PK = Some e"
    "ledger_output hx zt (vector_output nonce amount) = Some x" "zt_new_output zt t v nonce c e = Some x"
proof -
  obtain t c e where d: "c_hex_deserialize hx (zt_tok_deser zt) NATIVE_HEX = Some t"
    "c_hex_deserialize hx (zt_cpk_deser zt) RECIPIENT_COIN_PK = Some c"
    "c_hex_deserialize hx (zt_epk_deser zt) RECIPIENT_ENC_PK = Some e"
    using assms(1) unfolding mints_def not_None_eq by blast
  obtain x where "zt_new_output zt t v nonce c e = Some x" using mints_make(1) [OF assms(1)] by blast
  then show thesis
    using d assms(2) by (intro made [OF d])
      (simp_all add: ledger_output_def c_str_to_rust_def cstr_to_str_ascii assms(3))
qed

lemma helper_made:
  assumes "hex_ok hx" "pairs_read jl" "codecs_ok zl zt"
  shows "helper_create_output_hex hx jl zt nonce =
    map_option (output_text hx zt) (ledger_output hx zt (vector_output nonce ''5000000''))"
  using result_pair(1) [OF assms(2,1), of "''output_hex''"]
  by (cases "ledger_output hx zt (vector_output nonce ''5000000'')")
    (simp_all add: helper_create_output_hex_def output_ledger [OF assms(1,3)] result_field_def)

lemma one_offer_made:
  assumes "hex_ok hx" "pairs_read jl" "codecs_ok zl zt" "lists_read (zt_strings zt)"
  shows "one_output_offer hx jl zt nonce =
    map_option (\<lambda>offer. hex_pair_json ''offer_hex'' hx (the (zt_offer_ser zt offer)) (the (zt_offer_randomness_ser zt offer)))
      (Option.bind (ledger_output hx zt (vector_output nonce ''5000000'')) (\<lambda>x. zt_offer_new zt [] [x]))"
proof -
  have "show_strings [] = ''[]''" "show_strings [output_text hx zt x] = [CHR ''['', CHR 0x22] @ output_text hx zt x @ [CHR 0x22, CHR '']'']" for x
    by (simp_all add: show_strings_def)
  then show ?thesis
    using build_offer_ledger [OF assms(1,3,4), of "[]" "[x]" for x]
    by (cases "ledger_output hx zt (vector_output nonce ''5000000'')")
      (simp_all add: one_output_offer_def helper_made [OF assms(1-3)])
qed

lemma enc_nonempty: "hex_ok hx \<Longrightarrow> b \<noteq> [] \<Longrightarrow> hx_enc hx b \<noteq> []"
  by (metis hex_enc_length length_0_conv mult_eq_0_iff zero_neq_numeral)

lemma codecs_nonempty:
  assumes "codecs_ok zl zt" "mints hx zt"
  shows "the (zt_output_ser zt x) \<noteq> []" "the (zt_offer_ser zt y) \<noteq> []"
  using assms by (auto simp: codecs_ok_def mints_def) (metis option.sel)+

text \<open>The hex of a built offer decodes to it, which is what merging and validating start from.\<close>

lemma offer_text_read:
  assumes "hex_ok hx" "codecs_ok zl zt"
  shows "Option.bind (c_hex_to_bytes hx (offer_text hx zt offer)) (zt_offer_deser zt) = Some offer"
proof -
  obtain fb where "zt_offer_ser zt = Some \<circ> fb" "\<And>x. zt_offer_deser zt (fb x) = Some x"
    using codec_cases [OF assms(2)] by metis
  then show ?thesis
    by (simp add: c_hex_to_bytes_def c_str_to_rust_def cstr_to_str_ascii hex_enc_plain [OF assms(1)] hex_dec_enc [OF assms(1)])
qed

lemma merge_made:
  assumes "hex_ok hx" "codecs_ok zl zt" "zt_offer_merge zt a b = Some m"
  shows "zswap_merge_offers hx zt (Some (offer_text hx zt a)) (Some (offer_text hx zt b)) = Some (offer_text hx zt m)"
proof -
  have m: "zt_offer_ser zt m = Some (the (zt_offer_ser zt m))" using assms(2) by (auto simp: codecs_ok_def) (metis option.sel)
  show ?thesis
    using offer_text_read [OF assms(1,2), of a] offer_text_read [OF assms(1,2), of b] assms(3) m
      hex_enc_cstring [OF assms(1)]
    by (auto simp: zswap_merge_offers_def string_to_c_ptr_def bind_eq_Some_conv)
qed

lemma serialize_made:
  assumes "hex_ok hx" "codecs_ok zl zt"
  shows "zswap_serialize_offer hx zt (Some (offer_text hx zt a)) = Some (offer_text hx zt a)"
proof -
  have m: "zt_offer_ser zt a = Some (the (zt_offer_ser zt a))" using assms(2) by (auto simp: codecs_ok_def) (metis option.sel)
  show ?thesis
    using offer_text_read [OF assms, of a] m hex_enc_cstring [OF assms(1)]
    by (auto simp: zswap_serialize_offer_def string_to_c_ptr_def bind_eq_Some_conv)
qed

lemma five_ascii: "is_ascii ''5000000''"
  by (simp add: is_ascii_def)

lemma built_offer_tests_pass:
  assumes "hex_ok hx" "pairs_read jl" "codecs_ok zl zt" "lists_read (zt_strings zt)" "mints hx zt"
  shows "test_build_offer_with_single_output hx jl zt nonce" "test_serialize_offer_round_trip hx jl zt nonce"
    and "test_build_shielded_transaction_with_output_only_offer hx jl zt nonce"
proof -
  obtain x where x: "ledger_output hx zt (vector_output nonce ''5000000'') = Some x"
    using vector_output_made [OF assms(5) test_amounts(4)] by (metis five_ascii)
  obtain offer where "zt_offer_new zt [] [x] = Some offer" using mints_make(2) [OF assms(5)] by blast
  with x have o: "one_output_offer hx jl zt nonce = Some (hex_pair_json ''offer_hex'' hx
      (the (zt_offer_ser zt offer)) (the (zt_offer_randomness_ser zt offer)))"
    by (simp add: one_offer_made [OF assms(1-4)])
  note f = result_pair [OF assms(2,1), of "''offer_hex''"] enc_nonempty [OF assms(1) codecs_nonempty(2) [OF assms(3,5)]]
  show "test_build_offer_with_single_output hx jl zt nonce"
    using f by (simp add: test_build_offer_with_single_output_def o)
  show "test_serialize_offer_round_trip hx jl zt nonce"
    using f by (simp add: test_serialize_offer_round_trip_def o serialize_made [OF assms(1,3)])
  have "c_str_to_rust ''undeployed'' = Some ''undeployed''" by (simp add: c_str_to_rust_def cstr_to_str_ascii is_ascii_def)
  moreover obtain b where "zt_tx_ser zt (zt_new_tx zt ''undeployed'' [(1, \<lparr>in_guaranteed_offer = None,
      in_fallible_offer = None, in_actions = [], in_dust_actions = None, in_ttl = 1711584000000 div 1000,
      in_binding = zt_binding_default zt\<rparr>)] (Some offer)) = Some b" "b \<noteq> []"
    using mints_make(3) [OF assms(5)] by metis
  ultimately show "test_build_shielded_transaction_with_output_only_offer hx jl zt nonce"
    using f enc_nonempty [OF assms(1), of b]
    by (simp add: test_build_shielded_transaction_with_output_only_offer_def o build_transaction_ledger [OF assms(1,3)])
qed

lemma output_test_passes:
  assumes "hex_ok hx" "pairs_read jl" "codecs_ok zl zt" "mints hx zt"
  shows "test_create_output_valid hx jl zt nonce"
proof -
  obtain x where "ledger_output hx zt (vector_output nonce ''5000000'') = Some x"
    using vector_output_made [OF assms(4) test_amounts(4)] by (metis five_ascii)
  then show ?thesis
    using result_pair [OF assms(2,1), of "''output_hex''"] enc_nonempty [OF assms(1) codecs_nonempty(1) [OF assms(3,4)]]
    by (simp add: test_create_output_valid_def output_ledger [OF assms(1,3)])
qed

text \<open>The ledger merges offers of one output each when the outputs differ, and with another nonce they do.\<close>

definition merges_apart ::
    "('cpk, 'epk, 'tok, 'nonce, 'inp, 'out, 'offer, 'tx, 'spend, 'reg, 'bind, 'uoffer, 'act) ztx_lib \<Rightarrow> bool" where
  "merges_apart zt \<longleftrightarrow>
     (\<forall>t v n n' c e x. zt_new_output zt t v n c e = Some x \<and> zt_new_output zt t v n' c e = Some x \<longrightarrow> n = n') \<and>
     (\<forall>x y a b. x \<noteq> y \<and> zt_offer_new zt [] [x] = Some a \<and> zt_offer_new zt [] [y] = Some b \<longrightarrow>
        zt_offer_merge zt a b \<noteq> None)"

lemma merge_test_passes:
  assumes "hex_ok hx" "pairs_read jl" "codecs_ok zl zt" "lists_read (zt_strings zt)" "mints hx zt"
    and "merges_apart zt" "nonce1 \<noteq> nonce2"
  shows "test_merge_offers_two_output_offers hx jl zt nonce1 nonce2"
proof -
  note out = vector_output_made [OF assms(5) test_amounts(4) five_ascii]
  obtain t c e x where x: "c_hex_deserialize hx (zt_tok_deser zt) NATIVE_HEX = Some t"
    "c_hex_deserialize hx (zt_cpk_deser zt) RECIPIENT_COIN_PK = Some c"
    "c_hex_deserialize hx (zt_epk_deser zt) RECIPIENT_ENC_PK = Some e"
    "ledger_output hx zt (vector_output nonce1 ''5000000'') = Some x" "zt_new_output zt t 5000000 nonce1 c e = Some x"
    by (rule out)
  obtain y where y: "ledger_output hx zt (vector_output nonce2 ''5000000'') = Some y"
    "zt_new_output zt t 5000000 nonce2 c e = Some y"
    using x(1-3) by (rule_tac out [of nonce2]) simp
  obtain a b where ab: "zt_offer_new zt [] [x] = Some a" "zt_offer_new zt [] [y] = Some b"
    using mints_make(2) [OF assms(5)] by metis
  have "x \<noteq> y" using assms(6,7) x(5) y(2) unfolding merges_apart_def by blast
  then obtain m where "zt_offer_merge zt a b = Some m"
    using assms(6) ab unfolding merges_apart_def not_None_eq by blast
  then show ?thesis
    using x(4) y(1) ab result_pair(1) [OF assms(2,1), of "''offer_hex''"] merge_made [OF assms(1,3)]
    by (simp add: test_merge_offers_two_output_offers_def one_offer_made [OF assms(1-4)])
qed

text \<open>Keys derived from a seed decode as a recipient's, and outputs for different recipients differ.\<close>

definition recipients_apart ::
    "hexlib \<Rightarrow> ('cpk, 'epk, 'tok, 'nonce, 'inp, 'out, 'offer, 'tx, 'spend, 'reg, 'bind, 'uoffer, 'act) ztx_lib \<Rightarrow>
     'keys shielded_lib \<Rightarrow> bytes \<Rightarrow> bool" where
  "recipients_apart hx zt kl seed \<longleftrightarrow>
     (\<exists>cb eb c e. sk_coin_pk_ser kl (sk_from_seed kl seed) = Some cb \<and> sk_enc_pk_ser kl (sk_from_seed kl seed) = Some eb \<and>
        zt_cpk_deser zt cb = Some c \<and> zt_epk_deser zt eb = Some e \<and>
        c_hex_deserialize hx (zt_cpk_deser zt) RECIPIENT_COIN_PK \<noteq> Some c) \<and>
     (\<forall>t v n n' c c' e e' x. zt_new_output zt t v n c e = Some x \<and> zt_new_output zt t v n' c' e' = Some x \<longrightarrow> c = c')"

lemma recipients_test_passes:
  assumes "hex_ok hx" "pairs_read jl" "codecs_ok zl zt" "mints hx zt"
    and "recipients_apart hx zt kl (replicate 32 2)"
  shows "test_create_output_different_recipients_differ hx jl zt kl nonce_a nonce_b h"
proof -
  let ?seed = "replicate 32 2 :: bytes" and ?million = "''1000000''"
  obtain cb eb cB eB where b: "sk_coin_pk_ser kl (sk_from_seed kl ?seed) = Some cb"
    "sk_enc_pk_ser kl (sk_from_seed kl ?seed) = Some eb" "zt_cpk_deser zt cb = Some cB" "zt_epk_deser zt eb = Some eB"
    "c_hex_deserialize hx (zt_cpk_deser zt) RECIPIENT_COIN_PK \<noteq> Some cB"
    using assms(5) unfolding recipients_apart_def by blast
  have million: "is_ascii ?million" by (simp add: is_ascii_def)
  obtain t c e x where x: "c_hex_deserialize hx (zt_tok_deser zt) NATIVE_HEX = Some t"
    "c_hex_deserialize hx (zt_cpk_deser zt) RECIPIENT_COIN_PK = Some c"
    "ledger_output hx zt (vector_output nonce_a ?million) = Some x" "zt_new_output zt t 1000000 nonce_a c e = Some x"
    using vector_output_made [OF assms(4) test_amounts(7) million] by metis
  obtain y where y: "zt_new_output zt t 1000000 nonce_b cB eB = Some y" using mints_make(1) [OF assms(4)] by blast
  have lo: "ledger_output hx zt \<lparr>to_nonce = nonce_b, to_coin_pk = hx_enc hx cb, to_enc_pk = hx_enc hx eb,
      to_token = NATIVE_HEX, to_amount = ?million\<rparr> = Some y"
    using b(3,4) x(1) y test_amounts(7)
    by (simp add: ledger_output_def c_hex_deserialize_def c_hex_to_bytes_def c_str_to_rust_def cstr_to_str_ascii
        million hex_enc_plain [OF assms(1)] hex_dec_enc [OF assms(1)])
  have "x \<noteq> y" using assms(5) x(2,4) y b(5) unfolding recipients_apart_def by metis
  moreover have "zt_output_deser zt (the (zt_output_ser zt z)) = Some z" for z
    using assms(3) unfolding codecs_ok_def by (metis option.sel)
  ultimately have ne: "output_text hx zt x \<noteq> output_text hx zt y" by (metis hex_enc_inj [OF assms(1)] option.sel)
  obtain k h1 where d: "derive_shielded_keys hx kl (Some ?seed) 32 h = (Some k, h1)"
    "hp_cells h1 = (hp_cells h)(hp_next h \<mapsto> CStr (hx_enc hx cb), Suc (hp_next h) \<mapsto> CStr (hx_enc hx eb),
       k \<mapsto> ShieldedKeys (Some (hp_next h)) (Some (Suc (hp_next h))))" "k = Suc (Suc (hp_next h))"
    using b(1,2) by (simp add: derive_shielded_keys_def heap_alloc_def hex_enc_cstring [OF assms(1)] slice_from_def assertO_def)
  then obtain h2 where "free_shielded_keys (Some k) h1 = Fine h2"
    by (auto simp: free_shielded_keys_def drop_cstring_def heap_drop_def)
  with d show ?thesis
    using ne result_pair(1) [OF assms(2,1), of "''output_hex''"]
    by (simp add: test_create_output_different_recipients_differ_def output_ledger [OF assms(1,3)] x(3) lo Let_def
        cstr_to_str_ascii hex_enc_plain [OF assms(1)])
qed

subsection \<open>On a concrete ledger\<close>

text \<open>The bytes of an output, an offer and a transaction after a leading zero; a key is its first byte.\<close>

definition mint_lib :: "(u8, u8, u8, u8, u8, bytes, bytes, bytes, unit, unit, unit, unit, unit) ztx_lib" where
  "mint_lib = demo_transfer_lib\<lparr>zt_cpk_deser := (\<lambda>b. Some (hd b)), zt_epk_deser := (\<lambda>b. Some (hd b)),
     zt_tok_deser := (\<lambda>b. Some (hd b)), zt_output_ser := (\<lambda>x. Some (0 # x)), zt_output_deser := (\<lambda>b. Some (tl b)),
     zt_offer_ser := (\<lambda>x. Some (0 # x)), zt_offer_deser := (\<lambda>b. Some (tl b)), zt_tx_ser := (\<lambda>x. Some (0 # x))\<rparr>"

lemma vector_keys_decode:
  "\<exists>b. hx_dec ref_hex RECIPIENT_COIN_PK = Some (0x94 # b)" "hx_dec ref_hex RECIPIENT_ENC_PK \<noteq> None"
  "hx_dec ref_hex NATIVE_HEX \<noteq> None" "is_ascii RECIPIENT_COIN_PK" "is_ascii RECIPIENT_ENC_PK" "is_ascii NATIVE_HEX"
  unfolding RECIPIENT_COIN_PK_def RECIPIENT_ENC_PK_def NATIVE_HEX_def is_ascii_def
  by (simp_all add: ref_hex_def hex_val_def numeral_eq_Suc)

lemma mint_lib_ok:
  "codecs_ok demo_pay_lib mint_lib" "lists_read (zt_strings mint_lib)" "mints ref_hex mint_lib" "merges_apart mint_lib"
  "recipients_apart ref_hex mint_lib \<lparr>sk_from_seed = (\<lambda>b. b), sk_coin_pk_ser = Some, sk_enc_pk_ser = Some\<rparr> (replicate 32 2)"
  using vector_keys_decode demo_codecs_ok demo_lists_read
  by (auto simp: mint_lib_def codecs_ok_def mints_def merges_apart_def recipients_apart_def demo_transfer_lib_def
      c_hex_deserialize_def c_hex_to_bytes_def c_str_to_rust_def cstr_to_str_ascii)

lemma shielded_tests_run:
  "test_create_output_valid ref_hex demo_pair_parser mint_lib 1"
  "test_create_output_different_recipients_differ ref_hex demo_pair_parser mint_lib
     \<lparr>sk_from_seed = (\<lambda>b. b), sk_coin_pk_ser = Some, sk_enc_pk_ser = Some\<rparr> 1 2 h"
  "test_build_offer_with_single_output ref_hex demo_pair_parser mint_lib 1"
  "test_merge_offers_two_output_offers ref_hex demo_pair_parser mint_lib 1 2"
  "test_serialize_offer_round_trip ref_hex demo_pair_parser mint_lib 1"
  "test_build_shielded_transaction_with_output_only_offer ref_hex demo_pair_parser mint_lib 1"
  using output_test_passes [OF ref_hex_ok demo_pairs_read mint_lib_ok(1,3)]
    recipients_test_passes [OF ref_hex_ok demo_pairs_read mint_lib_ok(1,3,5)]
    built_offer_tests_pass [OF ref_hex_ok demo_pairs_read mint_lib_ok(1,2,3)]
    merge_test_passes [OF ref_hex_ok demo_pairs_read mint_lib_ok(1,2,3,4)]
  by simp_all

end
