(* ===== verification/FundedTests.thy ===== *)
theory FundedTests
  imports Balance ShieldedPayment ReplayParity WalletTests
begin

text \<open>
  Unit tests of \<open>balance_ffi.rs\<close> and \<open>zswap_ffi.rs\<close> on wallets that the ledger has filled: dust
  selection with spent nullifiers excluded, coin selection after a spend, and the agreement of the
  four ways to replay shielded events. The filled wallet, the minted events and their encodings are
  arguments, which the lemmas constrain by what the ledger's test utilities provide.
\<close>

subsection \<open>Dust: excluded nullifiers\<close>

definition select_dust_spends_skips_excluded_nullifier ::
    "hexlib \<Rightarrow> ('st, 'sk, 'utxo, 'spend, 'nul) dust_lib \<Rightarrow> 'st \<Rightarrow> 'sk \<Rightarrow> u64 \<Rightarrow> bool" where
  "select_dust_spends_skips_excluded_nullifier hx dl dust dust_key time \<longleftrightarrow>
     (let selectable = length (dl_utxos dl dust) in
      selectable \<ge> 2 \<and>
      (case select_dust_spends hx dl dust dust_key 42 time {} of
         Inl e \<Rightarrow> False
       | Inr (post1, spends1, spent1) \<Rightarrow>
           length spends1 = 1 \<and> length spent1 = 1 \<and>
           length (dl_utxos dl post1) = selectable - 1 \<and>
           (let first_nullifier = spent1 ! 0 in
            case select_dust_spends hx dl dust dust_key 42 time {first_nullifier} of
              Inl e \<Rightarrow> False
            | Inr (post2, spends2, spent2) \<Rightarrow> length spent2 = 1 \<and> spent2 ! 0 \<noteq> first_nullifier)))"

definition select_dust_spends_errors_when_only_utxo_is_excluded ::
    "hexlib \<Rightarrow> ('st, 'sk, 'utxo, 'spend, 'nul) dust_lib \<Rightarrow> 'st \<Rightarrow> 'sk \<Rightarrow> u64 \<Rightarrow> bool" where
  "select_dust_spends_errors_when_only_utxo_is_excluded hx dl dust dust_key time \<longleftrightarrow>
     (case select_dust_spends hx dl dust dust_key 42 time {} of
        Inl e \<Rightarrow> False
      | Inr (p, s, spent) \<Rightarrow>
          length spent = 1 \<and>
          (let only_nullifier = spent ! 0 in
           res_ok (select_dust_spends hx dl dust dust_key 42 time {only_nullifier}) = None))"

definition current_nullifiers_matches_what_the_balancer_spends ::
    "hexlib \<Rightarrow> (string \<Rightarrow> string) \<Rightarrow> ('st, 'sk, 'utxo, 'spend, 'nul) dust_lib \<Rightarrow> 'st \<Rightarrow> 'sk \<Rightarrow> u64 \<Rightarrow> bool" where
  "current_nullifiers_matches_what_the_balancer_spends hx unicode_lower dl dust dust_key time \<longleftrightarrow>
     (let selectable = length (dl_utxos dl dust) in
      selectable \<ge> 3 \<and>
      (case current_nullifiers hx dl dust dust_key of
         Inl e \<Rightarrow> False
       | Inr listed \<Rightarrow>
           length listed = selectable \<and> card (set listed) = length listed \<and>
           list_all (\<lambda>n. n = str_to_lowercase unicode_lower n) listed \<and>
           (case select_dust_spends hx dl dust dust_key 42 time {} of
              Inl e \<Rightarrow> False
            | Inr (post, spends, spent) \<Rightarrow> spent ! 0 \<in> set listed)))"

text \<open>
  A funded wallet: every UTXO pays the fee of 42 and is gone afterwards, a spend has its UTXO's
  nullifier, and nullifiers have texts, all different.
\<close>

definition funded ::
    "hexlib \<Rightarrow> ('st, 'sk, 'utxo, 'spend, 'nul) dust_lib \<Rightarrow> 'sk \<Rightarrow> u64 \<Rightarrow> 'st \<Rightarrow> bool" where
  "funded hx dl sk time st \<longleftrightarrow>
     (\<forall>u \<in> set (dl_utxos dl st). \<exists>st' sp n. dl_spend dl st sk u 42 time = Some (st', sp) \<and>
        length (dl_utxos dl st') = length (dl_utxos dl st) - 1 \<and> dl_old_nullifier dl sp = dl_nullifier dl u sk \<and>
        nullifier_to_hex hx dl (dl_nullifier dl u sk) = Inr n) \<and>
     distinct (map (\<lambda>u. nullifier_to_hex hx dl (dl_nullifier dl u sk)) (dl_utxos dl st))"

lemma funded_attempt:
  assumes "funded hx dl sk time st" "u \<in> set (dl_utxos dl st)"
  obtains (pays) st' sp n where "nullifier_to_hex hx dl (dl_nullifier dl u sk) = Inr n"
    "length (dl_utxos dl st') = length (dl_utxos dl st) - 1"
    "\<And>excl. select_attempt hx dl sk time excl st 42 u = (if n \<in> excl then None else Some (Inr (st', sp, n)))"
proof -
  obtain st' sp n where "dl_spend dl st sk u 42 time = Some (st', sp)"
    "length (dl_utxos dl st') = length (dl_utxos dl st) - 1" "dl_old_nullifier dl sp = dl_nullifier dl u sk"
    "nullifier_to_hex hx dl (dl_nullifier dl u sk) = Inr n"
    using assms unfolding funded_def by metis
  then show thesis by (intro pays [of n st' sp]) (simp_all add: select_attempt_def)
qed

text \<open>The first UTXO pays when nothing is excluded, the second when the first is.\<close>

lemma funded_select:
  assumes "funded hx dl sk time st" "dl_utxos dl st = u # us"
  obtains (picks) st1 sp1 n1 where "nullifier_to_hex hx dl (dl_nullifier dl u sk) = Inr n1"
    "select_dust_spends hx dl st sk 42 time {} = Inr (st1, [sp1], [n1])"
    "length (dl_utxos dl st1) = length us"
    "us = [] \<Longrightarrow> select_dust_spends hx dl st sk 42 time {n1} = Inl (InsufficientDust 42 1)"
    "us \<noteq> [] \<Longrightarrow> \<exists>st2 sp2 n2. select_dust_spends hx dl st sk 42 time {n1} = Inr (st2, [sp2], [n2]) \<and> n2 \<noteq> n1"
proof -
  obtain st1 sp1 n1 where one: "nullifier_to_hex hx dl (dl_nullifier dl u sk) = Inr n1"
    "length (dl_utxos dl st1) = length us"
    "\<And>excl. select_attempt hx dl sk time excl st 42 u = (if n1 \<in> excl then None else Some (Inr (st1, sp1, n1)))"
    using funded_attempt [OF assms(1), of u] assms(2) by (metis diff_Suc_1 length_Cons list.set_intros(1))
  note run = select_dust_spends_run [of "42 :: u128", simplified]
  have second: "\<exists>st2 sp2 n2. select_dust_spends hx dl st sk 42 time {n1} = Inr (st2, [sp2], [n2]) \<and> n2 \<noteq> n1"
    if ne: "us \<noteq> []"
  proof -
    obtain w ws where us: "us = w # ws" using ne by (cases us) auto
    obtain st2 sp2 n2 where two: "nullifier_to_hex hx dl (dl_nullifier dl w sk) = Inr n2"
      "\<And>excl. select_attempt hx dl sk time excl st 42 w = (if n2 \<in> excl then None else Some (Inr (st2, sp2, n2)))"
      using funded_attempt [OF assms(1), of w] assms(2) us by (metis list.set_intros(1,2))
    have "n2 \<noteq> n1" using assms one(1) two(1) us by (auto simp: funded_def)
    then show ?thesis
      using one(3) two(2) assms(2) us by (simp add: run balance_pick.run_skip balance_pick.run_accept)
  qed
  show thesis
    by (rule picks [OF one(1) _ one(2) _ second])
      (simp_all add: run assms(2) balance_pick.run_accept balance_pick.run_skip balance_pick.run_Nil one(3))
qed

lemma dust_tests_pass:
  assumes "funded hx dl sk time st"
  shows "length (dl_utxos dl st) \<ge> 2 \<Longrightarrow> select_dust_spends_skips_excluded_nullifier hx dl st sk time"
    and "length (dl_utxos dl st) = 1 \<Longrightarrow> select_dust_spends_errors_when_only_utxo_is_excluded hx dl st sk time"
    and "length (dl_utxos dl st) \<ge> 3 \<Longrightarrow> hex_ok hx \<Longrightarrow>
      current_nullifiers_matches_what_the_balancer_spends hx lower dl st sk time"
proof -
  show "select_dust_spends_skips_excluded_nullifier hx dl st sk time" if two: "length (dl_utxos dl st) \<ge> 2"
  proof -
    obtain u us where us: "dl_utxos dl st = u # us" using two by (cases "dl_utxos dl st") simp_all
    then have ne: "us \<noteq> []" using two by auto
    obtain st1 sp1 n1 where one: "select_dust_spends hx dl st sk 42 time {} = Inr (st1, [sp1], [n1])"
      "length (dl_utxos dl st1) = length us"
      "\<exists>st2 sp2 n2. select_dust_spends hx dl st sk 42 time {n1} = Inr (st2, [sp2], [n2]) \<and> n2 \<noteq> n1"
      using funded_select [OF assms us] ne by metis
    then obtain st2 sp2 n2 where "select_dust_spends hx dl st sk 42 time {n1} = Inr (st2, [sp2], [n2])" "n2 \<noteq> n1"
      by blast
    with one(1,2) two us show ?thesis by (simp add: select_dust_spends_skips_excluded_nullifier_def)
  qed
  show "select_dust_spends_errors_when_only_utxo_is_excluded hx dl st sk time" if single: "length (dl_utxos dl st) = 1"
  proof -
    obtain u where us: "dl_utxos dl st = [u]" using single by (auto simp: length_Suc_conv)
    then obtain st1 sp1 n1 where "select_dust_spends hx dl st sk 42 time {} = Inr (st1, [sp1], [n1])"
      "select_dust_spends hx dl st sk 42 time {n1} = Inl (InsufficientDust 42 1)"
      using funded_select [OF assms us] by metis
    then show ?thesis by (simp add: select_dust_spends_errors_when_only_utxo_is_excluded_def)
  qed
  show "current_nullifiers_matches_what_the_balancer_spends hx lower dl st sk time"
    if three: "length (dl_utxos dl st) \<ge> 3" and hx: "hex_ok hx"
  proof -
    let ?hex = "\<lambda>u. nullifier_to_hex hx dl (dl_nullifier dl u sk)"
    obtain u us where us: "dl_utxos dl st = u # us" using three by (cases "dl_utxos dl st") auto
    have "\<exists>f. \<forall>u \<in> set (dl_utxos dl st). ?hex u = Inr (f u)"
      using assms unfolding funded_def by (intro bchoice) blast
    then obtain f where "\<forall>u \<in> set (dl_utxos dl st). ?hex u = Inr (f u)" by blast
    then have ns: "current_nullifiers hx dl st sk = Inr (map f (dl_utxos dl st))"
      "map ?hex (dl_utxos dl st) = map Inr (map f (dl_utxos dl st))"
      by (simp_all add: current_nullifiers_def mapE_cong_ok)
    have dist: "distinct (map f (dl_utxos dl st))"
      using assms unfolding funded_def ns(2) by (metis distinct_map)
    have low: "n = str_to_lowercase lower n" if "n \<in> set (map f (dl_utxos dl st))" for n
      using mapE_set [OF ns(1) [unfolded current_nullifiers_def] that] nullifier_to_hex_set [OF hx]
      by (metis hex_string_facts(6))
    obtain st1 sp1 n1 where "?hex u = Inr n1" "select_dust_spends hx dl st sk 42 time {} = Inr (st1, [sp1], [n1])"
      using funded_select [OF assms us] by metis
    then show ?thesis
      using three ns(1) dist low us ns(2)
      by (simp add: current_nullifiers_matches_what_the_balancer_spends_def distinct_card list_all_iff
          del: set_map map_map)
  qed
qed

subsection \<open>Coins: pending spends\<close>

text \<open>\<open>state\<close> is the wallet after the ledger applied the offer of both coins.\<close>

definition test_internal_select_excludes_pending_spends ::
    "hexlib \<Rightarrow> json_lib \<Rightarrow> ('st, 'sk, 'tok, 'nonce, 'nul, 'inp) zswap_lib \<Rightarrow> 'sk \<Rightarrow> 'st \<Rightarrow> bool" where
  "test_internal_select_excludes_pending_spends hx jl zl secret_keys state \<longleftrightarrow>
     length (zl_coins zl state) = 2 \<and>
     (case find (\<lambda>(nul, c). zc_value c = 5000000) (zl_coins zl state) of
        None \<Rightarrow> False
      | Some (nul, coin_5m) \<Rightarrow>
          (case zl_spend zl state secret_keys coin_5m of
             None \<Rightarrow> False
           | Some (state_after_spend, inp) \<Rightarrow>
               length (zl_coins zl state_after_spend) = 2 \<and> length (zl_pending zl state_after_spend) = 1 \<and>
               (case zswap_select_coins hx zl (Some state_after_spend) (Some NATIVE_HEX) (Some ''1'') of
                  None \<Rightarrow> False
                | Some result \<Rightarrow>
                    (case Option.bind (cstr_to_str result) (jl_parse jl) of
                       Some (JArray [v]) \<Rightarrow> Option.bind (jget ''value'' v) as_str = Some ''3000000''
                     | _ \<Rightarrow> False)) \<and>
               zswap_select_coins hx zl (Some state_after_spend) (Some NATIVE_HEX) (Some ''4000000'') = None))"

text \<open>
  The ledger's part: two coins of the zero token with encodings, of 5 and 3 million in some order, a
  wallet without pending spends, and a spend that marks exactly its coin.
\<close>

definition two_coins ::
    "hexlib \<Rightarrow> ('st, 'sk, 'tok, 'nonce, 'nul, 'inp) zswap_lib \<Rightarrow> 'sk \<Rightarrow> 'st \<Rightarrow> bool" where
  "two_coins hx zl sk st \<longleftrightarrow>
     (\<exists>n5 n3 c5 c3 b5 b3 st' inp nb tb. n5 \<noteq> n3 \<and> (zl_coins zl st = [(n5, c5), (n3, c3)] \<or> zl_coins zl st = [(n3, c3), (n5, c5)]) \<and>
        zc_value c5 = 5000000 \<and> zc_value c3 = 3000000 \<and> zc_type c5 = zc_type c3 \<and>
        c_hex_deserialize hx (zl_tok_deser zl) NATIVE_HEX = Some (zc_type c3) \<and>
        zl_nul_ser zl n5 = Some b5 \<and> zl_nul_ser zl n3 = Some b3 \<and>
        zl_tok_ser zl (zc_type c3) = Some tb \<and> zl_nonce_ser zl (zc_nonce c3) = Some nb \<and>
        zl_spend zl st sk c5 = Some (st', inp) \<and> zl_coins zl st' = zl_coins zl st \<and> zl_pending zl st' = [n5])"

text \<open>An array of one object parses to an array of what the object parses to.\<close>

definition singletons_parse :: "json_lib \<Rightarrow> bool" where
  "singletons_parse jl \<longleftrightarrow> (\<forall>b v. jl_parse jl (''{'' @ b @ ''}'') = Some v \<longrightarrow>
     jl_parse jl (''[{'' @ b @ ''}]'') = Some (JArray [v]))"

lemma pending_test_passes:
  assumes "hex_ok hx" "coins_parse jl" "singletons_parse jl" "wallet_ok zl" "two_coins hx zl sk st"
  shows "test_internal_select_excludes_pending_spends hx jl zl sk st"
proof -
  obtain n5 n3 c5 c3 b5 b3 st' inp nb tb where w: "n5 \<noteq> n3"
    "zl_coins zl st = [(n5, c5), (n3, c3)] \<or> zl_coins zl st = [(n3, c3), (n5, c5)]"
    "zc_value c5 = 5000000" "zc_value c3 = 3000000" "zc_type c5 = zc_type c3"
    "c_hex_deserialize hx (zl_tok_deser zl) NATIVE_HEX = Some (zc_type c3)"
    "zl_nul_ser zl n5 = Some b5" "zl_nul_ser zl n3 = Some b3"
    "zl_tok_ser zl (zc_type c3) = Some tb" "zl_nonce_ser zl (zc_nonce c3) = Some nb"
    "zl_spend zl st sk c5 = Some (st', inp)" "zl_coins zl st' = zl_coins zl st" "zl_pending zl st' = [n5]"
    using assms(5) unfolding two_coins_def by blast
  have "b3 \<noteq> b5" using w(1,7,8) assms(4) unfolding wallet_ok_def by metis
  then have m: "matching_coins zl st' (zc_type c3) = [(b3, c3)]"
    using w by (auto simp: matching_coins_def pending_nullifiers_def map_filter_simps)
  have sel: "select_coins zl st' (zc_type c3) 1 = Some [(b3, c3)]" "select_coins zl st' (zc_type c3) 4000000 = None"
    using w(4) by (simp_all add: select_coins_def m sat_add_def)
  let ?body = "coin_body (hx_enc hx tb) 3000000 (hx_enc hx nb) (zc_mt_index c3) (hx_enc hx b3)"
  have e: "coin_entry hx zl (b3, c3) = Some (''{'' @ ?body @ ''}'')"
    using w(4,9,10) by (simp add: coin_entry_body)
  obtain obj where obj: "jl_parse jl (''{'' @ ?body @ ''}'') = Some obj" "jget ''value'' obj = Some (JString (show_word (3000000 :: u128)))"
    using assms(2) hex_enc_set [OF assms(1)] unfolding coins_parse_def by (metis Un_subset_iff)
  have arr: "jl_parse jl (''[{'' @ ?body @ ''}]'') = Some (JArray [obj])"
    using assms(3) obj(1) unfolding singletons_parse_def by blast
  have digits: "[dec_char 1, dec_char 3, dec_char 0] = ''130''" by code_simp
  then have one: "parse_u128 ''1'' = Some 1" "show_word (3000000 :: u128) = ''3000000''"
    using parse_u128_show [of 1] by (simp_all add: show_word_def show_nat.simps)
  have t: "is_ascii ?body" "CHR 0x00 \<notin> set ?body" 
    using entries_bodies [of hx zl "[(b3, c3)]"] e assms(1) by fastforce+
  have "zswap_select_coins hx zl (Some st') (Some NATIVE_HEX) (Some ''1'') = Some (''[{'' @ ?body @ ''}]'')"
    using sel(1) w(6) one e t(2)
    by (simp add: zswap_select_coins_def c_str_to_rust_def cstr_to_str_ascii is_ascii_def string_to_c_ptr_def cstring_new_def)
  moreover have "cstr_to_str (''[{'' @ ?body @ ''}]'') = Some (''[{'' @ ?body @ ''}]'')"
    using t(1) by (intro cstr_to_str_ascii) (simp add: is_ascii_def)
  moreover have "zswap_select_coins hx zl (Some st') (Some NATIVE_HEX) (Some ''4000000'') = None"
    using sel(2) w(6) test_amounts(3)
    by (simp add: zswap_select_coins_def c_str_to_rust_def cstr_to_str_ascii is_ascii_def)
  ultimately show ?thesis
    using w arr obj(2) one(2) by (auto simp: test_internal_select_excludes_pending_spends_def)
qed

subsection \<open>Replays of minted events\<close>

text \<open>
  \<open>events\<close> are those the ledger emitted while minting, \<open>enc\<close> and \<open>ser\<close> the encodings of an event and
  of a state; the test writes the events to the file at \<open>path\<close>.
\<close>

definition test_zswap_chunked_and_file_replay_match_single_pass ::
    "hexlib \<Rightarrow> ('st, 'sk, 'tok, 'nonce, 'nul, 'inp) zswap_lib \<Rightarrow> ('st, 'rk, 'ev) replay_lib \<Rightarrow> ('st \<Rightarrow> bytes) \<Rightarrow>
     ('ev \<Rightarrow> bytes) \<Rightarrow> 'ev list \<Rightarrow> string \<Rightarrow> 'st heap \<Rightarrow> bool" where
  "test_zswap_chunked_and_file_replay_match_single_pass hx zl rl ser enc events path h \<longleftrightarrow>
     (let seed = replicate 32 7; keys = rl_derive rl seed in
      events \<noteq> [] \<and>
      (case rl_replay rl (zl_new zl) keys events of
         None \<Rightarrow> False
       | Some single \<Rightarrow>
           length (zl_coins zl single) > 0 \<and>
           (case replay_zswap_events_chunked rl (zl_new zl) keys events 2 of
              None \<Rightarrow> False | Some chunked \<Rightarrow> ser single = ser chunked) \<and>
           (let written = rl\<lparr>rl_open := (rl_open rl)(path \<mapsto> (event_lines hx enc events, False))\<rparr> in
            on_fresh (create_zswap_local_state zl h) free_zswap_local_state (\<lambda>base.
              case zswap_replay_events_from_file hx written base (Some seed) 32 (Some path) of
                None \<Rightarrow> False | Some from_file_state \<Rightarrow> ser single = ser from_file_state)) \<and>
           on_fresh (create_zswap_local_state zl h) free_zswap_local_state (\<lambda>in_mem_base.
             case zswap_replay_events hx rl in_mem_base (Some seed) 32 (Some (event_text hx enc events)) of
               None \<Rightarrow> False | Some in_mem_state \<Rightarrow> ser single = ser in_mem_state)))"

lemma replay_test_passes:
  assumes "hex_ok hx" "replay_composes rl" "events_encoded hx rl enc raw events" "cstr_to_str path = Some path"
    and "events \<noteq> []" "rl_replay rl (zl_new zl) (rl_derive rl (replicate 32 7)) events = Some single"
    and "zl_coins zl single \<noteq> []"
  shows "test_zswap_chunked_and_file_replay_match_single_pass hx zl rl ser enc events path h"
proof -
  let ?written = "rl\<lparr>rl_open := (rl_open rl)(path \<mapsto> (event_lines hx enc events, False))\<rparr>"
  have w: "replay_composes ?written" "events_encoded hx ?written enc raw events"
    using assms(2,3) by (simp_all add: replay_composes_def events_encoded_def)
  have "zswap_replay_events_from_file hx ?written (Some (zl_new zl)) (Some (replicate 32 7)) 32 (Some path) = Some single"
    using event_file_parse [OF assms(1) w(2)] chunked_replay [OF w(1)] assms(4,6)
    by (simp add: zswap_replay_events_from_file_def slice_from_def)
  moreover have "zswap_replay_events hx rl (Some (zl_new zl)) (Some (replicate 32 7)) 32 (Some (event_text hx enc events)) =
      Some single"
    using memory_replay [OF assms(1,3,2)] assms(6) by (simp add: slice_from_def)
  ultimately show ?thesis
    using chunked_replay [OF assms(2)] assms(5-7)
    by (simp add: test_zswap_chunked_and_file_replay_match_single_pass_def on_fresh_zswap Let_def)
qed

end
