(* ===== verification/RegistrationTests.thy ===== *)
theory RegistrationTests
  imports WalletTests
begin

text \<open>
  The unit tests of \<open>serialize.rs\<close> that build a dust registration and read it back, as predicates on
  the model with the inputs and assertions of the source. Decoding a transaction, its intents, its
  cost and the node's check of it are the ledger's (\<open>reg_view\<close>). Behind them stands one fact about
  every registration the builder emits: it decodes to one intent whose two signatures verify.
\<close>

subsection \<open>Reading a registration back\<close>

record ('vk, 'tok, 'hash, 'addr, 'sig, 'dpk, 'fr, 'tx) reg_view =
  rv_deser :: "bytes \<Rightarrow> 'tx option"
  rv_intents :: "'tx \<Rightarrow> (u16 \<times> ('vk, 'tok, 'hash, 'addr, 'sig, 'dpk, 'fr) reg_intent) list"
  rv_network :: "'tx \<Rightarrow> string option"
  rv_verify :: "'vk \<Rightarrow> bytes \<Rightarrow> 'sig \<Rightarrow> bool"
  rv_cost_ok :: "'tx \<Rightarrow> bool"

text \<open>\<open>tagged_deserialize\<close> of the decoded hex, then \<open>tx.intents().find(|(seg, _)| *seg == 1)\<close>.\<close>

definition decoded_tx ::
    "hexlib \<Rightarrow> ('vk, 'tok, 'hash, 'addr, 'sig, 'dpk, 'fr, 'tx) reg_view \<Rightarrow> string \<Rightarrow> 'tx option" where
  "decoded_tx hx rv h = do { tx_bytes \<leftarrow> hx_dec hx h; rv_deser rv tx_bytes }"

definition segment_one ::
    "('vk, 'tok, 'hash, 'addr, 'sig, 'dpk, 'fr, 'tx) reg_view \<Rightarrow> 'tx \<Rightarrow>
     ('vk, 'tok, 'hash, 'addr, 'sig, 'dpk, 'fr) reg_intent option" where
  "segment_one rv tx = map_option snd (find (\<lambda>(seg_id, _). seg_id = 1) (rv_intents rv tx))"

text \<open>\<open>intent.erase_signatures().erase_proofs()\<close>: no signatures, the binding as its commitment.\<close>

definition unsigned_offer :: "('vk, 'tok, 'hash, 'addr, 'sig) offer \<Rightarrow> ('vk, 'tok, 'hash, 'addr, 'sig) offer" where
  "unsigned_offer off = off\<lparr>uf_signatures := []\<rparr>"

definition erased_intent ::
    "('nsk, 'vk, 'tok, 'hash, 'addr, 'sig, 'dpk, 'fr, 'ped, 'par, 'tx, 'st) reg_lib \<Rightarrow>
     ('vk, 'tok, 'hash, 'addr, 'sig, 'dpk, 'fr) reg_intent \<Rightarrow> ('vk, 'tok, 'hash, 'addr, 'sig, 'dpk, 'ped) reg_intent" where
  "erased_intent rg i =
     \<lparr>in_guaranteed_offer = map_option unsigned_offer (in_guaranteed_offer i),
      in_fallible_offer = map_option unsigned_offer (in_fallible_offer i), in_actions = in_actions i,
      in_dust_actions = map_option (\<lambda>d. d\<lparr>da_registrations := map (\<lambda>r. r\<lparr>dr_signature := None\<rparr>) (da_registrations d)\<rparr>)
        (in_dust_actions i),
      in_ttl = in_ttl i, in_binding = rg_pedersen rg (in_binding i)\<rparr>"

text \<open>
  What the code relies on: a transaction decodes to what was encoded, with its network and its intents
  in it, and a key verifies what it signed.
\<close>

definition reg_view_ok ::
    "('nsk, 'vk, 'tok, 'hash, 'addr, 'sig, 'dpk, 'fr, 'ped, 'par, 'tx, 'st) reg_lib \<Rightarrow>
     ('vk, 'tok, 'hash, 'addr, 'sig, 'dpk, 'fr, 'tx) reg_view \<Rightarrow> bool" where
  "reg_view_ok rg rv \<longleftrightarrow>
     (\<forall>tx b. rg_ser_tuple rg tx = Some b \<longrightarrow> rv_deser rv b = Some tx) \<and>
     (\<forall>net ints. rv_intents rv (rg_new_tx rg net ints) = ints \<and> rv_network rv (rg_new_tx rg net ints) = Some net) \<and>
     (\<forall>sk d. rv_verify rv (rg_verifying_key rg sk) d (rg_sign rg sk d))"

text \<open>The registration that pays with \<open>spend\<close>, signed by \<open>sk\<close>.\<close>

definition signed_registration ::
    "('nsk, 'vk, 'tok, 'hash, 'addr, 'sig, 'dpk, 'fr, 'ped, 'par, 'tx, 'st) reg_lib \<Rightarrow>
     'nsk \<Rightarrow> 'dpk \<Rightarrow> ('vk, 'tok, 'hash) utxo_spend \<Rightarrow> u128 \<Rightarrow> u128 \<Rightarrow> u64 \<Rightarrow> u64 \<Rightarrow>
     ('vk, 'tok, 'hash, 'addr, 'sig, 'dpk, 'fr) reg_intent" where
  "signed_registration rg sk dpk spend night allow ctime ttl =
     (let mk = registration_intent rg (rg_verifying_key rg sk) dpk spend night allow ctime ttl
      in registration_intent rg (rg_verifying_key rg sk) dpk spend night allow ctime ttl
           (Some (rg_sign rg sk (rg_data_to_sign rg 1 (mk None (rg_pedersen rg (rg_random_fr rg))))))
           (rg_random_fr rg))"

lemma registration_tx_signed:
  "registration_tx rg sk dpk spend night allow ctime ttl net =
     rg_new_tx rg net [(1, signed_registration rg sk dpk spend night allow ctime ttl)]"
  by (simp add: registration_tx_def signed_registration_def Let_def)

lemma erased_registration:
  "erased_intent rg (registration_intent rg vk dpk spend night allow ctime ttl sig binding) =
     registration_intent rg vk dpk spend night allow ctime ttl None (rg_pedersen rg binding)"
  by (simp add: erased_intent_def registration_intent_def unsigned_offer_def)

text \<open>Every registration that is built decodes to such an intent for the UTXO it chose.\<close>

lemma registration_decodes:
  assumes rv: "reg_view_ok rg rv" and hx: "hex_ok hx"
    and b: "build_dust_registration_transaction_impl hx rg key dpkh ttl ct uj net ph = Inr h"
  shows "\<exists>sk dpk jus spend night allow tx bytes.
    rg_key_from_bytes rg key = Some sk \<and> Option.bind (hx_dec hx dpkh) (rg_dpk_deser rg) = Some dpk \<and>
    rg_parse_utxos rg uj = Some jus \<and>
    best_utxo (night_spend hx rg (rg_verifying_key rg sk) (millis_to_secs ct)) jus None = Inr (Some (spend, night, allow)) \<and>
    rg_ser_tuple rg tx = Some bytes \<and> h = hx_enc hx bytes \<and>
    decoded_tx hx rv h = Some tx \<and> rv_network rv tx = Some net \<and>
    rv_intents rv tx = [(1, signed_registration rg sk dpk spend night allow (millis_to_secs ct) (ttl div 1000))]"
proof -
  obtain sk dpk jus spend night allow bytes where i:
    "rg_key_from_bytes rg key = Some sk" "Option.bind (hx_dec hx dpkh) (rg_dpk_deser rg) = Some dpk"
    "rg_parse_utxos rg uj = Some jus"
    "best_utxo (night_spend hx rg (rg_verifying_key rg sk) (millis_to_secs ct)) jus None = Inr (Some (spend, night, allow))"
    "rg_ser_tuple rg (registration_tx rg sk dpk spend night allow (millis_to_secs ct) (ttl div 1000) net) = Some bytes"
    "h = hx_enc hx bytes"
    using b by (clarsimp simp: build_dust_registration_transaction_impl_def resE Let_def)
  moreover have "decoded_tx hx rv h =
      Some (registration_tx rg sk dpk spend night allow (millis_to_secs ct) (ttl div 1000) net)"
    using i(5,6) rv hex_dec_enc [OF hx] by (simp add: decoded_tx_def reg_view_ok_def)
  moreover have "rv_network rv (registration_tx rg sk dpk spend night allow (millis_to_secs ct) (ttl div 1000) net) = Some net"
    "rv_intents rv (registration_tx rg sk dpk spend night allow (millis_to_secs ct) (ttl div 1000) net) =
       [(1, signed_registration rg sk dpk spend night allow (millis_to_secs ct) (ttl div 1000))]"
    using rv by (simp_all add: reg_view_ok_def registration_tx_signed)
  ultimately show ?thesis by blast
qed

subsection \<open>What a registration says\<close>

text \<open>Both signatures, on the offer and on the registration, are of the erased intent at segment 1.\<close>

definition signatures_verify ::
    "('nsk, 'vk, 'tok, 'hash, 'addr, 'sig, 'dpk, 'fr, 'ped, 'par, 'tx, 'st) reg_lib \<Rightarrow>
     ('vk, 'tok, 'hash, 'addr, 'sig, 'dpk, 'fr, 'tx) reg_view \<Rightarrow> 'vk \<Rightarrow>
     ('vk, 'tok, 'hash, 'addr, 'sig, 'dpk, 'fr) reg_intent \<Rightarrow> bool" where
  "signatures_verify rg rv verifying_key intent =
     (case (in_guaranteed_offer intent, in_dust_actions intent) of
        (Some off, Some dust_actions) \<Rightarrow>
          (let signing_data = rg_data_to_sign rg 1 (erased_intent rg intent) in
           map (rv_verify rv verifying_key signing_data) (uf_signatures off) = [True] \<and>
           map (\<lambda>reg. case dr_signature reg of Some s \<Rightarrow> rv_verify rv verifying_key signing_data s | None \<Rightarrow> False)
             (da_registrations dust_actions) = [True])
      | _ \<Rightarrow> False)"

lemma registration_parts:
  "in_guaranteed_offer (registration_intent rg vk dpk spend night allow ctime ttl sig b) =
     Some \<lparr>uf_inputs = [spend], uf_outputs = [\<lparr>uo_value = night, uo_owner = rg_address_of rg vk, uo_type = rg_night rg\<rparr>],
       uf_signatures = (case sig of None \<Rightarrow> [] | Some s \<Rightarrow> [s])\<rparr>"
  "in_fallible_offer (registration_intent rg vk dpk spend night allow ctime ttl sig b) = None"
  "in_actions (registration_intent rg vk dpk spend night allow ctime ttl sig b) = []"
  "in_dust_actions (registration_intent rg vk dpk spend night allow ctime ttl sig b) =
     Some \<lparr>da_spends = [], da_registrations = [\<lparr>dr_night_key = vk, dr_dust_address = Some dpk,
       dr_allow_fee_payment = allow, dr_signature = sig\<rparr>], da_ctime = ctime\<rparr>"
  "in_ttl (registration_intent rg vk dpk spend night allow ctime ttl sig b) = ttl"
  by (simp_all add: registration_intent_def)

lemma signed_registration_verifies:
  assumes "reg_view_ok rg rv"
  shows "signatures_verify rg rv (rg_verifying_key rg sk) (signed_registration rg sk dpk spend night allow ctime ttl)"
proof -
  have "rv_verify rv (rg_verifying_key rg sk) d (rg_sign rg sk d)" for d
    using assms by (simp add: reg_view_ok_def)
  then show ?thesis
    by (simp add: signatures_verify_def signed_registration_def Let_def erased_registration registration_parts)
qed

subsection \<open>The tests' inputs\<close>

text \<open>The JSON the tests format, and that serde reads the fields back where nothing is escaped.\<close>

definition ascii_hex :: "string \<Rightarrow> bool" where
  "ascii_hex s \<longleftrightarrow> list_all (\<lambda>c. c \<in> set ''0123456789abcdefABCDEF'') s"

definition night_item :: "json_dust_utxo \<Rightarrow> string" where
  \<open>night_item u = ''{"value":"'' @ jd_value u @ ''","intent_hash":"'' @ jd_intent_hash u @
     ''","output_no":'' @ show_word (jd_output_no u) @ '',"ctime":'' @ show_word (jd_ctime u) @ ''}''\<close>

definition night_json :: "json_dust_utxo list \<Rightarrow> string" where
  "night_json us = ''['' @ str_join '','' (map night_item us) @ '']''"

definition reads_nights ::
    "('nsk, 'vk, 'tok, 'hash, 'addr, 'sig, 'dpk, 'fr, 'ped, 'par, 'tx, 'st) reg_lib \<Rightarrow> bool" where
  "reads_nights rg \<longleftrightarrow> (\<forall>us. list_all (\<lambda>u. ascii_hex (jd_value u) \<and> ascii_hex (jd_intent_hash u)) us \<longrightarrow>
     rg_parse_utxos rg (night_json us) = Some us)"

definition hash_tail :: string where
  "hash_tail = ''6642ef7dd8420c4673a56c57da96adeeedfc5a98140c8a42500b8369464fed''"

definition test_night :: "string \<Rightarrow> string \<Rightarrow> u32 \<Rightarrow> u64 \<Rightarrow> json_dust_utxo" where
  "test_night value h output_no ctime =
     \<lparr>jd_value = value, jd_intent_hash = h @ hash_tail, jd_output_no = output_no, jd_ctime = ctime\<rparr>"

lemma one_utxo_is_night: "one_utxo_json = night_json [test_night ''1000000'' ''ab'' 0 1737054000]"
proof -
  have "show_nat 1737054000 = ''1737054000''" "show_nat 0 = ''0''"
    by (simp_all add: show_nat.simps dec_char_def char_of_def bit_0)
  then show ?thesis
    by (simp add: one_utxo_json_def night_json_def night_item_def test_night_def hash_tail_def show_word_def)
qed

subsection \<open>The tests\<close>

text \<open>A failed \<open>expect\<close> fails the test. \<open>pk_bytes\<close> is the serialised dust key the test derives.\<close>

definition expect_tx ::
    "hexlib \<Rightarrow> ('vk, 'tok, 'hash, 'addr, 'sig, 'dpk, 'fr, 'tx) reg_view \<Rightarrow> reg_error + string \<Rightarrow>
     (string \<Rightarrow> 'tx \<Rightarrow> bool) \<Rightarrow> bool" where
  "expect_tx hx rv result look =
     (case result of Inl e \<Rightarrow> False
      | Inr hex \<Rightarrow> (case decoded_tx hx rv hex of None \<Rightarrow> False | Some tx \<Rightarrow> look hex tx))"

definition expect_intent ::
    "('vk, 'tok, 'hash, 'addr, 'sig, 'dpk, 'fr, 'tx) reg_view \<Rightarrow> 'tx \<Rightarrow>
     (('vk, 'tok, 'hash, 'addr, 'sig, 'dpk, 'fr) reg_intent \<Rightarrow> bool) \<Rightarrow> bool" where
  "expect_intent rv tx look = (case segment_one rv tx of None \<Rightarrow> False | Some intent \<Rightarrow> look intent)"

definition test_build_dust_registration_transaction ::
    "hexlib \<Rightarrow> ('nsk, 'vk, 'tok, 'hash, 'addr, 'sig, 'dpk, 'fr, 'ped, 'par, 'tx, 'st) reg_lib \<Rightarrow>
     ('vk, 'tok, 'hash, 'addr, 'sig, 'dpk, 'fr, 'tx) reg_view \<Rightarrow> bytes \<Rightarrow> bool" where
  "test_build_dust_registration_transaction hx rg rv pk_bytes \<longleftrightarrow>
     (let night_private_key = replicate 32 42 in
      case rg_key_from_bytes rg night_private_key of
        None \<Rightarrow> False
      | Some signing_key \<Rightarrow>
          (let verifying_key = rg_verifying_key rg signing_key;
               ttl_millis = 1737658800000;
               current_time_millis = 1737658700000;
               current_time_secs = millis_to_secs current_time_millis;
               utxo_ctime = current_time_secs - 2 * 604800;
               utxos_json = night_json [test_night ''1000000'' ''ab'' 0 utxo_ctime] in
           expect_tx hx rv (build_dust_registration_transaction_impl hx rg night_private_key (hx_enc hx pk_bytes)
             ttl_millis current_time_millis utxos_json ''undeployed'' []) (\<lambda>hex tx.
           hex \<noteq> [] \<and> ascii_hex hex \<and> length hex div 2 > 100 \<and>
           expect_intent rv tx (\<lambda>intent.
             (case in_guaranteed_offer intent of
                None \<Rightarrow> False
              | Some off \<Rightarrow>
                  length (uf_inputs off) = 1 \<and> length (uf_outputs off) = 1 \<and> length (uf_signatures off) = 1 \<and>
                  (let inp = hd (uf_inputs off) in
                     us_value inp = 1000000 \<and> us_owner inp = verifying_key \<and> us_type inp = rg_night rg) \<and>
                  (let output = hd (uf_outputs off) in
                     uo_value output = 1000000 \<and> uo_owner output = rg_address_of rg verifying_key \<and>
                     uo_type output = rg_night rg)) \<and>
             in_fallible_offer intent = None \<and>
             (case in_dust_actions intent of
                None \<Rightarrow> False
              | Some dust_actions \<Rightarrow>
                  length (da_registrations dust_actions) = 1 \<and> length (da_spends dust_actions) = 0 \<and>
                  (let reg = hd (da_registrations dust_actions) in
                     dr_night_key reg = verifying_key \<and> dr_allow_fee_payment reg = 5000000000000000 \<and>
                     dr_dust_address reg \<noteq> None \<and> dr_signature reg \<noteq> None)) \<and>
             signatures_verify rg rv verifying_key intent))))"

definition single_input_under_budget ::
    "('vk, 'tok, 'hash, 'addr, 'sig, 'dpk, 'fr, 'tx) reg_view \<Rightarrow> string \<Rightarrow> 'tx \<Rightarrow> bool" where
  "single_input_under_budget rv hex tx \<longleftrightarrow>
     expect_intent rv tx (\<lambda>intent.
       case in_guaranteed_offer intent of
         None \<Rightarrow> False
       | Some off \<Rightarrow> length (uf_inputs off) = 1) \<and>
     rv_cost_ok rv tx"

text \<open>\<open>format!("{:02x}", 0xa0 + i)\<close> for the hashes of the loop.\<close>

definition loop_nights :: "u64 \<Rightarrow> nat \<Rightarrow> json_dust_utxo list" where
  "loop_nights utxo_ctime n =
     map (\<lambda>i. test_night ''3000000000'' [CHR ''a'', hex_digits ! i] (of_nat i) utxo_ctime) [0..<n]"

definition dust_registration_is_single_input_under_budget ::
    "hexlib \<Rightarrow> ('nsk, 'vk, 'tok, 'hash, 'addr, 'sig, 'dpk, 'fr, 'ped, 'par, 'tx, 'st) reg_lib \<Rightarrow>
     ('vk, 'tok, 'hash, 'addr, 'sig, 'dpk, 'fr, 'tx) reg_view \<Rightarrow> bytes \<Rightarrow> bool" where
  "dust_registration_is_single_input_under_budget hx rg rv pk_bytes \<longleftrightarrow>
     (let night_private_key = replicate 32 42;
          ttl_millis = 1737658800000;
          current_time_millis = 1737658700000;
          current_time_secs = millis_to_secs current_time_millis;
          utxo_ctime = current_time_secs - 2 * 604800;
          build = (\<lambda>nights. build_dust_registration_transaction_impl hx rg night_private_key (hx_enc hx pk_bytes)
            ttl_millis current_time_millis (night_json nights) ''undeployed'' []) in
      expect_tx hx rv (build [test_night ''3000000000'' ''ab'' 0 utxo_ctime, test_night ''3000000000'' ''cd'' 1 utxo_ctime])
        (single_input_under_budget rv) \<and>
      list_all (\<lambda>n. expect_tx hx rv (build (loop_nights utxo_ctime n)) (single_input_under_budget rv)) [1..<7])"

text \<open>\<open>params_bytes\<close> is what \<open>tagged_serialize\<close> makes of the ledger's initial parameters.\<close>

definition dust_registration_fresh_coin_gated_matured_coin_passes ::
    "hexlib \<Rightarrow> ('nsk, 'vk, 'tok, 'hash, 'addr, 'sig, 'dpk, 'fr, 'ped, 'par, 'tx, 'st) reg_lib \<Rightarrow> bytes \<Rightarrow> bytes \<Rightarrow> bool" where
  "dust_registration_fresh_coin_gated_matured_coin_passes hx rg pk_bytes params_bytes \<longleftrightarrow>
     (let night_private_key = replicate 32 42;
          params_hex = hx_enc hx params_bytes;
          ttl_millis = 1737658800000;
          current_time_millis = 1737658700000;
          current_time_secs = millis_to_secs current_time_millis;
          build = (\<lambda>nights. build_dust_registration_transaction_impl hx rg night_private_key (hx_enc hx pk_bytes)
            ttl_millis current_time_millis (night_json nights) ''undeployed'' params_hex);
          fresh = build [test_night ''3000000000'' ''ab'' 0 current_time_secs];
          matured_ctime = current_time_secs - 2 * 604800;
          matured = build [test_night ''3000000000'' ''ab'' 0 matured_ctime] in
      (case fresh of
         Inr hex \<Rightarrow> False
       | Inl e \<Rightarrow> (case reg_payload (Inl e) of
           Some err \<Rightarrow> take (length DUST_NOT_MATURED_PREFIX) err = DUST_NOT_MATURED_PREFIX
         | None \<Rightarrow> False)) \<and>
      (case matured of Inl e \<Rightarrow> False | Inr hex \<Rightarrow> ascii_hex hex))"

definition test_build_dust_registration_transaction_ttl_preserved ::
    "hexlib \<Rightarrow> ('nsk, 'vk, 'tok, 'hash, 'addr, 'sig, 'dpk, 'fr, 'ped, 'par, 'tx, 'st) reg_lib \<Rightarrow>
     ('vk, 'tok, 'hash, 'addr, 'sig, 'dpk, 'fr, 'tx) reg_view \<Rightarrow> bytes \<Rightarrow> bool" where
  "test_build_dust_registration_transaction_ttl_preserved hx rg rv pk_bytes \<longleftrightarrow>
     (let night_private_key = replicate 32 42;
          ttl_millis = 1800000000000;
          ctime_millis = 1737658700000 in
      expect_tx hx rv (build_dust_registration_transaction_impl hx rg night_private_key (hx_enc hx pk_bytes)
        ttl_millis ctime_millis one_utxo_json ''undeployed'' []) (\<lambda>hex tx.
      expect_intent rv tx (\<lambda>intent.
        in_ttl intent = ttl_millis div 1000 \<and>
        (case in_dust_actions intent of
           None \<Rightarrow> False
         | Some dust_actions \<Rightarrow> da_ctime dust_actions = millis_to_secs ctime_millis))))"

definition test_build_dust_registration_network_id_round_trips ::
    "hexlib \<Rightarrow> ('nsk, 'vk, 'tok, 'hash, 'addr, 'sig, 'dpk, 'fr, 'ped, 'par, 'tx, 'st) reg_lib \<Rightarrow>
     ('vk, 'tok, 'hash, 'addr, 'sig, 'dpk, 'fr, 'tx) reg_view \<Rightarrow> bytes \<Rightarrow> bool" where
  "test_build_dust_registration_network_id_round_trips hx rg rv pk_bytes \<longleftrightarrow>
     (let night_private_key = replicate 32 42 in
      list_all (\<lambda>expected.
        expect_tx hx rv (build_dust_registration_transaction_impl hx rg night_private_key (hx_enc hx pk_bytes)
          1800000000000 1737658700000 one_utxo_json expected []) (\<lambda>hex tx. rv_network rv tx = Some expected))
        [''undeployed'', ''preprod'', ''preview'', ''mainnet''])"

text \<open>
  The funded state: the night key and dust key as bytes, the reward's UTXO with its creation time,
  the time it has been forwarded to, and the node's check.
\<close>

definition test_dust_registration_passes_well_formed ::
    "hexlib \<Rightarrow> ('nsk, 'vk, 'tok, 'hash, 'addr, 'sig, 'dpk, 'fr, 'ped, 'par, 'tx, 'st) reg_lib \<Rightarrow>
     ('vk, 'tok, 'hash, 'addr, 'sig, 'dpk, 'fr, 'tx) reg_view \<Rightarrow> ('tx \<Rightarrow> bool) \<Rightarrow>
     bytes \<Rightarrow> bytes \<Rightarrow> bytes \<Rightarrow> u32 \<Rightarrow> u64 \<Rightarrow> u64 \<Rightarrow> bool" where
  "test_dust_registration_passes_well_formed hx rg rv well_formed night_key_arr pk_bytes intent_hash
       utxo_output_no utxo_ctime_secs state_time \<longleftrightarrow>
     (let utxos_json = night_json [\<lparr>jd_value = ''1000000'', jd_intent_hash = hx_enc hx intent_hash,
            jd_output_no = utxo_output_no, jd_ctime = utxo_ctime_secs\<rparr>];
          current_time_ms = state_time * 1000;
          ttl_ms = current_time_ms + 60000 in
      expect_tx hx rv (build_dust_registration_transaction_impl hx rg night_key_arr (hx_enc hx pk_bytes)
        ttl_ms current_time_ms utxos_json ''local-test'' []) (\<lambda>hex tx. well_formed tx))"

subsection \<open>They pass\<close>

text \<open>Hexadecimal text of even length decodes.\<close>

definition reads_hex :: "hexlib \<Rightarrow> bool" where
  "reads_hex hx \<longleftrightarrow> (\<forall>s. set s \<subseteq> set hex_digits \<and> even (length s) \<longrightarrow> hx_dec hx s \<noteq> None)"

text \<open>What the tests take for granted: their keys are keys, hashes are 32 bytes, a registration serialises.\<close>

definition reg_tests_ok ::
    "hexlib \<Rightarrow> ('nsk, 'vk, 'tok, 'hash, 'addr, 'sig, 'dpk, 'fr, 'ped, 'par, 'tx, 'st) reg_lib \<Rightarrow> ('vk, 'tok, 'hash, 'addr, 'sig, 'dpk, 'fr, 'tx) reg_view \<Rightarrow> bytes \<Rightarrow> bytes \<Rightarrow> bool" where
  "reg_tests_ok hx rg rv key pk_bytes \<longleftrightarrow> hex_ok hx \<and> reads_hex hx \<and> reg_view_ok rg rv \<and> reads_nights rg \<and>
     rg_key_from_bytes rg key \<noteq> None \<and> rg_dpk_deser rg pk_bytes \<noteq> None \<and>
     (\<forall>b. length b = 32 \<longrightarrow> rg_hash_deser rg b \<noteq> None) \<and>
     (\<forall>net i. \<exists>b. rg_ser_tuple rg (rg_new_tx rg net [(1, i)]) = Some b \<and> 100 < length b)"

lemma best_utxo_total:
  "list_all (\<lambda>u. \<exists>r. f u = Inr r) us \<Longrightarrow> us \<noteq> [] \<or> best \<noteq> None \<Longrightarrow> \<exists>r. best_utxo f us best = Inr (Some r)"
proof (induction us arbitrary: best)
  case (Cons u us)
  obtain s v g where f: "f u = Inr (s, v, g)" using Cons.prems(1) by auto
  define b where "b = (if (case best of None \<Rightarrow> True | Some (_, _, d) \<Rightarrow> g > d) then Some (s, v, g) else best)"
  have "b \<noteq> None" by (auto simp: b_def split: option.split)
  then have "\<exists>r. best_utxo f us b = Inr (Some r)" using Cons.IH [of b] Cons.prems(1) by simp
  then show ?case by (simp add: f b_def)
qed auto

lemma ascii_hex_enc: "hex_ok hx \<Longrightarrow> ascii_hex (hx_enc hx b)"
  using hex_enc_set [of hx b] by (fastforce simp: ascii_hex_def list_all_iff hex_digits_def)

lemma hash_decodes:
  assumes "reg_tests_ok hx rg rv key pk_bytes" and "set s \<subseteq> set hex_digits" and "length s = 64"
  shows "\<exists>b ih. hx_dec hx s = Some b \<and> rg_hash_deser rg b = Some ih"
proof -
  obtain b where b: "hx_dec hx s = Some b"
    using assms by (auto simp: reg_tests_ok_def reads_hex_def)
  then have "length b = 32" using assms(1,3) hex_dec_length [of hx s b] by (simp add: reg_tests_ok_def)
  then show ?thesis using b assms(1) by (auto simp: reg_tests_ok_def)
qed

lemma test_spend:
  assumes ok: "reg_tests_ok hx rg rv key pk_bytes" and v: "parse_u128 v = Some value"
    and h: "set h \<subseteq> set hex_digits" "length h = 2"
  shows "\<exists>s. night_spend hx rg vk now (test_night v h n ct) = Inr (s, value, generated_dust now ct value) \<and>
    us_value s = value \<and> us_owner s = vk \<and> us_type s = rg_night rg"
proof -
  have "set (h @ hash_tail) \<subseteq> set hex_digits" "length (h @ hash_tail) = 64"
    using h by (auto simp: hash_tail_def hex_digits_def)
  from hash_decodes [OF ok this] show ?thesis
    using v by (auto simp: night_spend_def test_night_def)
qed

lemma test_builds:
  assumes ok: "reg_tests_ok hx rg rv key pk_bytes" and p: "rg_parse_utxos rg uj = Some us" "us \<noteq> []"
    and sp: "\<And>vk. list_all (\<lambda>u. \<exists>r. night_spend hx rg vk (millis_to_secs ct) u = Inr r) us"
  shows "\<exists>sk dpk r. rg_key_from_bytes rg key = Some sk \<and> rg_dpk_deser rg pk_bytes = Some dpk \<and>
    best_utxo (night_spend hx rg (rg_verifying_key rg sk) (millis_to_secs ct)) us None = Inr (Some r)"
proof -
  obtain sk dpk where "rg_key_from_bytes rg key = Some sk" "rg_dpk_deser rg pk_bytes = Some dpk"
    using ok by (auto simp: reg_tests_ok_def)
  then show ?thesis using best_utxo_total [OF sp] p(2) by blast
qed

lemma test_result:
  assumes ok: "reg_tests_ok hx rg rv key pk_bytes" and p: "rg_parse_utxos rg uj = Some us" "us \<noteq> []"
    and k: "rg_key_from_bytes rg key = Some sk" "rg_dpk_deser rg pk_bytes = Some dpk"
    and b: "best_utxo (night_spend hx rg (rg_verifying_key rg sk) (millis_to_secs ct)) us None = Inr (Some (spend, night, allow))"
    and g: "maturity_gate hx rg ph (rg_new_tx rg net [(1, signed_registration rg sk dpk spend night allow
      (millis_to_secs ct) (ttl div 1000))]) allow = Inr ()"
  shows "\<exists>h. build_dust_registration_transaction_impl hx rg key (hx_enc hx pk_bytes) ttl ct uj net ph = Inr h \<and>
    ascii_hex h \<and> h \<noteq> [] \<and> 100 < length h div 2 \<and>
    decoded_tx hx rv h = Some (rg_new_tx rg net [(1, signed_registration rg sk dpk spend night allow
      (millis_to_secs ct) (ttl div 1000))])"
proof -
  let ?tx = "rg_new_tx rg net [(1, signed_registration rg sk dpk spend night allow (millis_to_secs ct) (ttl div 1000))]"
  have hx: "hex_ok hx" and rv: "reg_view_ok rg rv" using ok by (simp_all add: reg_tests_ok_def)
  obtain bs where bs: "rg_ser_tuple rg ?tx = Some bs" "100 < length bs"
    using ok unfolding reg_tests_ok_def by blast
  have l: "length (hx_enc hx bs) = 2 * length bs" by (rule hex_enc_length [OF hx])
  have "build_dust_registration_transaction_impl hx rg key (hx_enc hx pk_bytes) ttl ct uj net ph = Inr (hx_enc hx bs)"
    using p k b g bs(1) hex_dec_enc [OF hx]
    by (simp add: build_dust_registration_transaction_impl_def registration_tx_signed)
  moreover have "decoded_tx hx rv (hx_enc hx bs) = Some ?tx"
    using bs(1) rv hex_dec_enc [OF hx] by (simp add: decoded_tx_def reg_view_ok_def)
  ultimately show ?thesis
    using bs(2) l ascii_hex_enc [OF hx, of bs] by (intro exI [of _ "hx_enc hx bs"]) auto
qed

lemma test_dust:
  "millis_to_secs 1737658700000 = 1737658700"
  "generated_dust 1737658700 1736449100 1000000 = 5000000000000000"
  "generated_dust 1737658700 1736449100 3000000000 = 15000000000000000000"
  "generated_dust 1737658700 1737658700 v = 0"
  by (simp_all add: millis_to_secs_def generated_dust_def sat_mul_def sat_sub_def NIGHT_DUST_RATIO_def
      GENERATION_DECAY_RATE_def Let_def)

lemma test_values: "parse_u128 ''1000000'' = Some 1000000" "parse_u128 ''3000000000'' = Some 3000000000"
  by (simp_all add: parse_u128_def parse_uint_def is_dec_def dec_val_def)

lemma nights_read:
  assumes "reg_tests_ok hx rg rv key pk_bytes"
    and "list_all (\<lambda>u. ascii_hex (jd_value u) \<and> ascii_hex (jd_intent_hash u)) us"
  shows "rg_parse_utxos rg (night_json us) = Some us"
  using assms by (simp add: reg_tests_ok_def reads_nights_def)

lemma night_plain:
  "set h \<subseteq> set hex_digits \<Longrightarrow> ascii_hex v \<Longrightarrow>
     ascii_hex (jd_value (test_night v h n ct)) \<and> ascii_hex (jd_intent_hash (test_night v h n ct))"
  by (fastforce simp: test_night_def ascii_hex_def list_all_iff hash_tail_def hex_digits_def)

lemma one_coin:
  assumes ok: "reg_tests_ok hx rg rv key pk_bytes" and p: "rg_parse_utxos rg uj = Some [u]"
    and n: "\<And>vk. \<exists>s. night_spend hx rg vk (millis_to_secs ct) u = Inr (s, value, allow) \<and>
      us_value s = value \<and> us_owner s = vk \<and> us_type s = rg_night rg"
    and g: "\<And>tx. maturity_gate hx rg ph tx allow = Inr ()"
  shows "\<exists>hex sk dpk spend.
    build_dust_registration_transaction_impl hx rg key (hx_enc hx pk_bytes) ttl ct uj net ph = Inr hex \<and>
    ascii_hex hex \<and> hex \<noteq> [] \<and> 100 < length hex div 2 \<and> rg_key_from_bytes rg key = Some sk \<and>
    us_value spend = value \<and> us_owner spend = rg_verifying_key rg sk \<and> us_type spend = rg_night rg \<and>
    decoded_tx hx rv hex = Some (rg_new_tx rg net
      [(1, signed_registration rg sk dpk spend value allow (millis_to_secs ct) (ttl div 1000))])"
proof -
  obtain sk dpk where k: "rg_key_from_bytes rg key = Some sk" "rg_dpk_deser rg pk_bytes = Some dpk"
    using ok by (auto simp: reg_tests_ok_def)
  obtain s where s: "night_spend hx rg (rg_verifying_key rg sk) (millis_to_secs ct) u = Inr (s, value, allow)"
    "us_value s = value" "us_owner s = rg_verifying_key rg sk" "us_type s = rg_night rg" using n by blast
  have "best_utxo (night_spend hx rg (rg_verifying_key rg sk) (millis_to_secs ct)) [u] None = Inr (Some (s, value, allow))"
    using s(1) by simp
  from test_result [OF ok p _ k this g] show ?thesis using k(1) s(2-4) by blast
qed

lemma segment_new: "reg_view_ok rg rv \<Longrightarrow> segment_one rv (rg_new_tx rg net [(1, i)]) = Some i"
  by (simp add: segment_one_def reg_view_ok_def)

lemma no_gate: "maturity_gate hx rg [] tx allow = Inr ()"
  by (simp add: maturity_gate_def)

lemma signed_parts:
  "in_guaranteed_offer (signed_registration rg sk dpk spend night allow ctime ttl) \<noteq> None"
  "in_fallible_offer (signed_registration rg sk dpk spend night allow ctime ttl) = None"
  "in_ttl (signed_registration rg sk dpk spend night allow ctime ttl) = ttl"
  "in_dust_actions (signed_registration rg sk dpk spend night allow ctime ttl) = Some d \<Longrightarrow> da_ctime d = ctime"
  by (auto simp: signed_registration_def Let_def registration_parts)

lemma build_test_passes:
  assumes ok: "reg_tests_ok hx rg rv (replicate 32 42) pk_bytes"
  shows "test_build_dust_registration_transaction hx rg rv pk_bytes"
proof -
  have rv: "reg_view_ok rg rv" using ok by (simp add: reg_tests_ok_def)
  let ?u = "test_night ''1000000'' ''ab'' 0 1736449100"
  have p: "rg_parse_utxos rg (night_json [?u]) = Some [?u]"
    by (rule nights_read [OF ok]) (simp add: test_night_def hash_tail_def ascii_hex_def)
  have n: "\<exists>s. night_spend hx rg vk (millis_to_secs 1737658700000) ?u = Inr (s, 1000000, 5000000000000000) \<and>
      us_value s = 1000000 \<and> us_owner s = vk \<and> us_type s = rg_night rg" for vk
    using test_spend [OF ok test_values(1), of "''ab''" vk 1737658700 0 1736449100]
    by (simp add: test_dust hex_digits_def)
  obtain hex sk dpk spend where r:
    "build_dust_registration_transaction_impl hx rg (replicate 32 42) (hx_enc hx pk_bytes) 1737658800000 1737658700000
      (night_json [?u]) ''undeployed'' [] = Inr hex"
    "ascii_hex hex" "hex \<noteq> []" "100 < length hex div 2" "rg_key_from_bytes rg (replicate 32 42) = Some sk"
    "us_value spend = 1000000" "us_owner spend = rg_verifying_key rg sk" "us_type spend = rg_night rg"
    "decoded_tx hx rv hex = Some (rg_new_tx rg ''undeployed'' [(1, signed_registration rg sk dpk spend 1000000
      5000000000000000 (millis_to_secs 1737658700000) (1737658800000 div 1000))])"
    using one_coin [OF ok p n no_gate] by blast
  have c: "1737658700 - 2 * 604800 = (1736449100 :: u64)" by simp
  let ?i = "signed_registration rg sk dpk spend 1000000 5000000000000000 (millis_to_secs 1737658700000) (1737658800000 div 1000)"
  have "signatures_verify rg rv (rg_verifying_key rg sk) ?i" by (rule signed_registration_verifies [OF rv])
  then show ?thesis
    using r(2-9) segment_new [OF rv]
    unfolding test_build_dust_registration_transaction_def Let_def expect_tx_def test_dust(1) c r(5) option.case r(1)
    by (simp add: test_dust(1) expect_intent_def signed_registration_def Let_def registration_parts)
qed

lemma ttl_and_network_tests_pass:
  assumes ok: "reg_tests_ok hx rg rv (replicate 32 42) pk_bytes"
  shows "test_build_dust_registration_transaction_ttl_preserved hx rg rv pk_bytes"
    and "test_build_dust_registration_network_id_round_trips hx rg rv pk_bytes"
proof -
  have rv: "reg_view_ok rg rv" using ok by (simp add: reg_tests_ok_def)
  let ?u = "test_night ''1000000'' ''ab'' 0 1737054000"
  let ?g = "generated_dust (millis_to_secs 1737658700000) 1737054000 1000000"
  have p: "rg_parse_utxos rg one_utxo_json = Some [?u]"
    unfolding one_utxo_is_night
    by (rule nights_read [OF ok]) (simp add: test_night_def hash_tail_def ascii_hex_def)
  have n: "\<exists>s. night_spend hx rg vk (millis_to_secs 1737658700000) ?u = Inr (s, 1000000, ?g) \<and>
      us_value s = 1000000 \<and> us_owner s = vk \<and> us_type s = rg_night rg" for vk
    using test_spend [OF ok test_values(1)] by (simp add: hex_digits_def)
  have built: "\<exists>hex sk dpk spend.
      build_dust_registration_transaction_impl hx rg (replicate 32 42) (hx_enc hx pk_bytes) 1800000000000 1737658700000
        one_utxo_json net [] = Inr hex \<and>
      decoded_tx hx rv hex = Some (rg_new_tx rg net [(1, signed_registration rg sk dpk spend 1000000 ?g
        (millis_to_secs 1737658700000) (1800000000000 div 1000))])" for net
    using one_coin [OF ok p n no_gate, of 1800000000000 net] by blast
  show "test_build_dust_registration_transaction_ttl_preserved hx rg rv pk_bytes"
    using built [of "''undeployed''"] segment_new [OF rv]
    by (auto simp: test_build_dust_registration_transaction_ttl_preserved_def Let_def expect_tx_def expect_intent_def
        signed_registration_def registration_parts)
  have "expect_tx hx rv (build_dust_registration_transaction_impl hx rg (replicate 32 42) (hx_enc hx pk_bytes)
      1800000000000 1737658700000 one_utxo_json net []) (\<lambda>hex tx. rv_network rv tx = Some net)" for net
    using built [of net] rv by (auto simp: expect_tx_def reg_view_ok_def)
  then show "test_build_dust_registration_network_id_round_trips hx rg rv pk_bytes"
    by (simp add: test_build_dust_registration_network_id_round_trips_def Let_def)
qed

text \<open>The ledger lets a transaction of one intent with one unshielded input and no calls pass its budget.\<close>

definition one_input_affordable ::
    "('nsk, 'vk, 'tok, 'hash, 'addr, 'sig, 'dpk, 'fr, 'ped, 'par, 'tx, 'st) reg_lib \<Rightarrow>
     ('vk, 'tok, 'hash, 'addr, 'sig, 'dpk, 'fr, 'tx) reg_view \<Rightarrow> bool" where
  "one_input_affordable rg rv \<longleftrightarrow> (\<forall>net i off. in_guaranteed_offer i = Some off \<and> length (uf_inputs off) = 1 \<and>
     in_fallible_offer i = None \<and> in_actions i = [] \<longrightarrow> rv_cost_ok rv (rg_new_tx rg net [(1, i)]))"

definition budget_coin :: "json_dust_utxo \<Rightarrow> bool" where
  "budget_coin u \<longleftrightarrow> (\<exists>h n c. u = test_night ''3000000000'' h n c \<and> length h = 2 \<and> set h \<subseteq> set hex_digits)"

lemma budget_coinI: "length h = 2 \<Longrightarrow> set h \<subseteq> set hex_digits \<Longrightarrow> budget_coin (test_night ''3000000000'' h n c)"
  unfolding budget_coin_def by blast

lemma budget_coin_spend:
  assumes "reg_tests_ok hx rg rv key pk_bytes" and "budget_coin u"
  shows "\<exists>r. night_spend hx rg vk now u = Inr r" and "ascii_hex (jd_value u) \<and> ascii_hex (jd_intent_hash u)"
proof -
  have a: "ascii_hex ''3000000000''" by (simp add: ascii_hex_def)
  obtain h n c where u: "u = test_night ''3000000000'' h n c" "length h = 2" "set h \<subseteq> set hex_digits"
    using assms(2) by (auto simp: budget_coin_def)
  show "\<exists>r. night_spend hx rg vk now u = Inr r"
    using test_spend [OF assms(1) test_values(2) u(3,2), of vk now n c] u(1) by blast
  show "ascii_hex (jd_value u) \<and> ascii_hex (jd_intent_hash u)"
    unfolding u(1) by (rule night_plain [OF u(3) a])
qed

lemma many_coins:
  assumes ok: "reg_tests_ok hx rg rv key pk_bytes" and a: "one_input_affordable rg rv"
    and us: "us \<noteq> []" "list_all budget_coin us"
  shows "expect_tx hx rv (build_dust_registration_transaction_impl hx rg key (hx_enc hx pk_bytes) ttl ct (night_json us)
    net []) (single_input_under_budget rv)"
proof -
  have rv: "reg_view_ok rg rv" using ok by (simp add: reg_tests_ok_def)
  have "list_all (\<lambda>u. ascii_hex (jd_value u) \<and> ascii_hex (jd_intent_hash u)) us"
    using us(2) budget_coin_spend(2) [OF ok] by (simp add: list_all_iff)
  then have p: "rg_parse_utxos rg (night_json us) = Some us" by (rule nights_read [OF ok])
  have "list_all (\<lambda>u. \<exists>r. night_spend hx rg vk (millis_to_secs ct) u = Inr r) us" for vk
    using us(2) budget_coin_spend(1) [OF ok] by (simp add: list_all_iff)
  from test_builds [OF ok p us(1) this] obtain sk dpk spend night allow where k:
    "rg_key_from_bytes rg key = Some sk" "rg_dpk_deser rg pk_bytes = Some dpk"
    "best_utxo (night_spend hx rg (rg_verifying_key rg sk) (millis_to_secs ct)) us None = Inr (Some (spend, night, allow))"
    by auto
  let ?i = "signed_registration rg sk dpk spend night allow (millis_to_secs ct) (ttl div 1000)"
  have "rv_cost_ok rv (rg_new_tx rg net [(1, ?i)])"
    using a unfolding one_input_affordable_def
    by (simp add: signed_registration_def Let_def registration_parts)
  then show ?thesis
    using test_result [OF ok p us(1) k no_gate, of ttl net] segment_new [OF rv]
    by (auto simp: expect_tx_def single_input_under_budget_def expect_intent_def signed_registration_def Let_def
        registration_parts)
qed

lemma budget_test_passes:
  assumes "reg_tests_ok hx rg rv (replicate 32 42) pk_bytes" and "one_input_affordable rg rv"
  shows "dust_registration_is_single_input_under_budget hx rg rv pk_bytes"
proof -
  have two: "list_all budget_coin
      [test_night ''3000000000'' ''ab'' 0 c, test_night ''3000000000'' ''cd'' 1 c]" for c
    by (simp add: budget_coinI hex_digits_def)
  have loop: "list_all budget_coin
      (loop_nights c n)" if "n < 7" for c n
  proof -
    have "list_all (\<lambda>i. set [CHR ''a'', hex_digits ! i] \<subseteq> set hex_digits) [0..<n]"
      using that by (auto simp: list_all_iff hex_digits_def nth_Cons')
    then show ?thesis by (auto simp: loop_nights_def list_all_iff intro!: budget_coinI)
  qed
  have "loop_nights c n \<noteq> []" if "0 < n" for c n using that by (simp add: loop_nights_def)
  then show ?thesis
    unfolding dust_registration_is_single_input_under_budget_def Let_def
    by (intro conjI many_coins [OF assms _ two]) (auto simp: list_all_iff intro!: many_coins [OF assms] loop)
qed

text \<open>The initial parameters read back, and under them a registration costs something a full coin covers.\<close>

definition initial_fees ::
    "('nsk, 'vk, 'tok, 'hash, 'addr, 'sig, 'dpk, 'fr, 'ped, 'par, 'tx, 'st) reg_lib \<Rightarrow> bytes \<Rightarrow> bool" where
  "initial_fees rg params_bytes \<longleftrightarrow> params_bytes \<noteq> [] \<and> (\<exists>par. rg_params_tagged rg params_bytes = Some par \<and>
     (\<forall>net i. \<exists>fee. rg_fees rg (rg_new_tx rg net [(1, i)]) par DUST_REGISTRATION_FEE_BLOCKS_MARGIN = Some fee \<and>
        0 < fee \<and> fee \<le> 15000000000000000000))"

lemma initial_gate:
  assumes hx: "hex_ok hx" and f: "initial_fees rg params_bytes"
  shows "\<exists>e. maturity_gate hx rg (hx_enc hx params_bytes) (rg_new_tx rg net [(1, i)]) 0 = Inl (NotMatured e)"
    and "maturity_gate hx rg (hx_enc hx params_bytes) (rg_new_tx rg net [(1, i)]) 15000000000000000000 = Inr ()"
proof -
  have "hx_enc hx params_bytes \<noteq> []"
    using f hex_enc_length [OF hx, of params_bytes] by (auto simp: initial_fees_def)
  moreover obtain par where par: "rg_params_tagged rg params_bytes = Some par"
    "\<forall>net i. \<exists>fee. rg_fees rg (rg_new_tx rg net [(1, i)]) par DUST_REGISTRATION_FEE_BLOCKS_MARGIN = Some fee \<and>
        0 < fee \<and> fee \<le> 15000000000000000000"
    using f unfolding initial_fees_def by blast
  moreover obtain fee where "rg_fees rg (rg_new_tx rg net [(1, i)]) par DUST_REGISTRATION_FEE_BLOCKS_MARGIN = Some fee"
    "0 < fee" "fee \<le> 15000000000000000000"
    using par(2) by blast
  ultimately show "\<exists>e. maturity_gate hx rg (hx_enc hx params_bytes) (rg_new_tx rg net [(1, i)]) 0 = Inl (NotMatured e)"
    "maturity_gate hx rg (hx_enc hx params_bytes) (rg_new_tx rg net [(1, i)]) 15000000000000000000 = Inr ()"
    by (auto simp: maturity_gate_def hex_dec_enc [OF hx] reg_params_def)
qed

lemma gated_test_passes:
  assumes ok: "reg_tests_ok hx rg rv (replicate 32 42) pk_bytes" and f: "initial_fees rg params_bytes"
  shows "dust_registration_fresh_coin_gated_matured_coin_passes hx rg pk_bytes params_bytes"
proof -
  have hx: "hex_ok hx" using ok by (simp add: reg_tests_ok_def)
  let ?u = "test_night ''3000000000'' ''ab'' 0"
  let ?build = "\<lambda>c. build_dust_registration_transaction_impl hx rg (replicate 32 42) (hx_enc hx pk_bytes) 1737658800000
    1737658700000 (night_json [?u c]) ''undeployed'' (hx_enc hx params_bytes)"
  have p: "rg_parse_utxos rg (night_json [?u c]) = Some [?u c]" for c
    by (rule nights_read [OF ok]) (simp add: test_night_def hash_tail_def ascii_hex_def)
  obtain sk dpk where k: "rg_key_from_bytes rg (replicate 32 42) = Some sk" "rg_dpk_deser rg pk_bytes = Some dpk"
    using ok by (auto simp: reg_tests_ok_def)
  have n: "\<exists>s. best_utxo (night_spend hx rg (rg_verifying_key rg sk) (millis_to_secs 1737658700000)) [?u c] None =
      Inr (Some (s, 3000000000, generated_dust 1737658700 c 3000000000))" for c
    using test_spend [OF ok test_values(2), of "''ab''" "rg_verifying_key rg sk" 1737658700 0 c]
    by (auto simp: test_dust(1) hex_digits_def)
  obtain s where "best_utxo (night_spend hx rg (rg_verifying_key rg sk) (millis_to_secs 1737658700000))
      [?u 1737658700] None = Inr (Some (s, 3000000000, 0))" using n [of 1737658700] by (auto simp: test_dust)
  then have "\<exists>e. ?build 1737658700 = Inl (NotMatured e)"
    using p k initial_gate(1) [OF hx f] hex_dec_enc [OF hx]
    by (auto simp: build_dust_registration_transaction_impl_def registration_tx_signed resE test_dust(1) Let_def)
  moreover obtain s' where "best_utxo (night_spend hx rg (rg_verifying_key rg sk) (millis_to_secs 1737658700000))
      [?u 1736449100] None = Inr (Some (s', 3000000000, 15000000000000000000))"
    using n [of 1736449100] by (auto simp: test_dust)
  then have "\<exists>hex. ?build 1736449100 = Inr hex \<and> ascii_hex hex"
    using test_result [OF ok p _ k _ initial_gate(2) [OF hx f]] by blast
  ultimately show ?thesis
    by (auto simp: dust_registration_fresh_coin_gated_matured_coin_passes_def Let_def test_dust(1) reg_payload_def)
qed

text \<open>The node accepts a correctly signed registration of its one listed UTXO for what it has generated.\<close>

definition node_accepts ::
    "('nsk, 'vk, 'tok, 'hash, 'addr, 'sig, 'dpk, 'fr, 'ped, 'par, 'tx, 'st) reg_lib \<Rightarrow> ('vk, 'tok, 'hash, 'addr, 'sig, 'dpk, 'fr, 'tx) reg_view \<Rightarrow> ('tx \<Rightarrow> bool) \<Rightarrow> 'vk \<Rightarrow> 'hash \<Rightarrow> u32 \<Rightarrow> u64 \<Rightarrow> u64 \<Rightarrow> bool" where
  "node_accepts rg rv well_formed vk intent_hash output_no ctime now \<longleftrightarrow>
     (\<forall>tx i dpk s b. rv_network rv tx = Some ''local-test'' \<and> rv_intents rv tx = [(1, i)] \<and>
        signatures_verify rg rv vk i \<and>
        i = registration_intent rg vk dpk \<lparr>us_value = 1000000, us_owner = vk, us_type = rg_night rg,
              us_intent_hash = intent_hash, us_output_no = output_no\<rparr>
            1000000 (generated_dust now ctime 1000000) now (now + 60) (Some s) b \<longrightarrow> well_formed tx)"

lemma secs_of_millis:
  assumes "unat t * 1000 < 2 ^ 62"
  shows "millis_to_secs (t * 1000) = t" and "(t * 1000 + 60000) div 1000 = t + 60"
proof -
  have u: "uint t * 1000 < 2 ^ 62" using assms by (metis (mono_tags) of_nat_less_iff of_nat_mult of_nat_numeral of_nat_power uint_nat)
  then have m: "uint (t * 1000) = uint t * 1000" by (simp add: uint_mult_lem [THEN iffD1])
  have g: "0 \<le> uint t * 1000" by simp
  have "signed_take_bit 63 (uint t * 1000) = uint t * 1000"
    by (rule signed_take_bit_int_eq_self [OF order_trans [OF _ g] less_trans [OF u]]) simp_all
  then have "sint (t * 1000) = uint t * 1000" using m by (simp add: sint_uint)
  then show "millis_to_secs (t * 1000) = t"
    by (cases "0 < uint t")
      (auto simp: millis_to_secs_def signed_divide_int_def sgn_if unsigned_eq_0_iff not_less order.antisym)
  have "uint (t * 1000 + 60000) = uint t * 1000 + 60000"
    using m u by (simp add: uint_add_lem [THEN iffD1])
  moreover have "uint (t + 60) = uint t + 60" using u by (simp add: uint_add_lem [THEN iffD1])
  ultimately show "(t * 1000 + 60000) div 1000 = t + 60"
    by (simp add: word_uint_eq_iff uint_div)
qed

lemma well_formed_test_passes:
  assumes ok: "reg_tests_ok hx rg rv night_key_arr pk_bytes" and t: "unat state_time * 1000 < 2 ^ 62"
    and ih: "length intent_hash = 32" "rg_hash_deser rg intent_hash = Some ih"
    and node: "\<And>sk. rg_key_from_bytes rg night_key_arr = Some sk \<Longrightarrow>
      node_accepts rg rv well_formed (rg_verifying_key rg sk) ih utxo_output_no utxo_ctime_secs state_time"
  shows "test_dust_registration_passes_well_formed hx rg rv well_formed night_key_arr pk_bytes intent_hash
    utxo_output_no utxo_ctime_secs state_time"
proof -
  have hx: "hex_ok hx" and rv: "reg_view_ok rg rv" using ok by (simp_all add: reg_tests_ok_def)
  let ?u = "\<lparr>jd_value = ''1000000'', jd_intent_hash = hx_enc hx intent_hash, jd_output_no = utxo_output_no,
    jd_ctime = utxo_ctime_secs\<rparr>"
  let ?g = "generated_dust state_time utxo_ctime_secs 1000000"
  have p: "rg_parse_utxos rg (night_json [?u]) = Some [?u]"
    by (rule nights_read [OF ok]) (simp add: ascii_hex_enc [OF hx], simp add: ascii_hex_def)
  obtain sk dpk where k: "rg_key_from_bytes rg night_key_arr = Some sk" "rg_dpk_deser rg pk_bytes = Some dpk"
    using ok by (auto simp: reg_tests_ok_def)
  let ?s = "\<lparr>us_value = 1000000, us_owner = rg_verifying_key rg sk, us_type = rg_night rg, us_intent_hash = ih,
    us_output_no = utxo_output_no\<rparr>"
  have b: "best_utxo (night_spend hx rg (rg_verifying_key rg sk) (millis_to_secs (state_time * 1000))) [?u] None =
      Inr (Some (?s, 1000000, ?g))"
    by (simp add: night_spend_def hex_dec_enc [OF hx] ih(2) test_values secs_of_millis(1) [OF t])
  let ?i = "signed_registration rg sk dpk ?s 1000000 ?g state_time (state_time + 60)"
  obtain h where h: "build_dust_registration_transaction_impl hx rg night_key_arr (hx_enc hx pk_bytes)
      (state_time * 1000 + 60000) (state_time * 1000) (night_json [?u]) ''local-test'' [] = Inr h"
    "decoded_tx hx rv h = Some (rg_new_tx rg ''local-test'' [(1, ?i)])"
    using test_result [OF ok p _ k b no_gate, of "state_time * 1000 + 60000" "''local-test''"]
    by (auto simp: secs_of_millis [OF t])
  have "signatures_verify rg rv (rg_verifying_key rg sk) ?i" by (rule signed_registration_verifies [OF rv])
  moreover have "\<exists>s b. ?i = registration_intent rg (rg_verifying_key rg sk) dpk ?s 1000000 ?g state_time
      (state_time + 60) (Some s) b" by (auto simp: signed_registration_def Let_def)
  ultimately have "well_formed (rg_new_tx rg ''local-test'' [(1, ?i)])"
    using node [OF k(1)] rv unfolding node_accepts_def reg_view_ok_def by blast
  then show ?thesis
    using h by (simp add: test_dust_registration_passes_well_formed_def Let_def expect_tx_def)
qed

subsection \<open>Properties\<close>

text \<open>
  A ledger whose transactions are their network and intents, and that serialises one of them: the
  registration of the older of two UTXOs.
\<close>

type_synonym demo_intent = "(u8, unit, u8, u8, u8, u8, u8) reg_intent"

definition demo_signed :: demo_intent where
  "demo_signed =
     \<lparr>in_guaranteed_offer = Some \<lparr>uf_inputs = [\<lparr>us_value = 10, us_owner = 1, us_type = (), us_intent_hash = 2,
        us_output_no = 1\<rparr>], uf_outputs = [\<lparr>uo_value = 10, uo_owner = 1, uo_type = ()\<rparr>], uf_signatures = [1]\<rparr>,
      in_fallible_offer = None, in_actions = [],
      in_dust_actions = Some \<lparr>da_spends = [], da_registrations = [\<lparr>dr_night_key = 1, dr_dust_address = Some 0,
        dr_allow_fee_payment = 4133500, dr_signature = Some 1\<rparr>], da_ctime = 100\<rparr>,
      in_ttl = 0, in_binding = 6\<rparr>"

definition demo_ledger ::
    "(u8, u8, unit, u8, u8, u8, u8, u8, u8, unit, string \<times> (u16 \<times> demo_intent) list, bytes list) reg_lib" where
  "demo_ledger = \<lparr>rg_key_from_bytes = (\<lambda>b. Some (hd b)), rg_verifying_key = (\<lambda>k. k),
     rg_dpk_deser = (\<lambda>b. Some 0), rg_random_fr = 6, rg_pedersen = (\<lambda>r. r),
     rg_parse_utxos = (\<lambda>s. Some demo_night), rg_print_utxos = (\<lambda>us. None), rg_address_of = (\<lambda>k. k),
     rg_night = (), rg_hash_deser = (\<lambda>b. Some (hd b)), rg_data_to_sign = (\<lambda>s i. []), rg_sign = (\<lambda>k d. k),
     rg_new_tx = Pair, rg_params_tagged = (\<lambda>b. Some ()), rg_params_raw = (\<lambda>b. None),
     rg_fees = (\<lambda>t p m. Some 0),
     rg_ser_tuple = (\<lambda>tx. if tx = (''preprod'', [(1, demo_signed)]) then Some [5] else None),
     rg_backing_nights = (\<lambda>st. st), rg_initial_nonce = (\<lambda>s. [us_intent_hash s])\<rparr>"

definition demo_view :: "(u8, unit, u8, u8, u8, u8, u8, string \<times> (u16 \<times> demo_intent) list) reg_view" where
  "demo_view = \<lparr>rv_deser = (\<lambda>b. if b = [5] then Some (''preprod'', [(1, demo_signed)]) else None), rv_intents = snd,
     rv_network = (\<lambda>tx. Some (fst tx)), rv_verify = (\<lambda>v d s. s = v), rv_cost_ok = (\<lambda>tx. True)\<rparr>"

lemma demo_view_ok: "reg_view_ok demo_ledger demo_view"
  by (simp add: reg_view_ok_def demo_ledger_def demo_view_def)

lemma demo_registration:
  "build_dust_registration_transaction_impl ref_hex demo_ledger (replicate 32 1) ''00'' 0 100000 [] ''preprod'' [] =
     Inr (hx_enc ref_hex [5])"
proof -
  have b: "best_utxo (night_spend ref_hex demo_ledger 1 100) demo_night None = Inr (Some
      (\<lparr>us_value = 10, us_owner = 1, us_type = (), us_intent_hash = 2, us_output_no = 1\<rparr>, 10, 4133500))"
    by (simp add: demo_night_def night_spend_def demo_hex demo_generated demo_ledger_def)
  have i: "signed_registration demo_ledger 1 0 \<lparr>us_value = 10, us_owner = 1, us_type = (), us_intent_hash = 2,
      us_output_no = 1\<rparr> 10 4133500 100 0 = demo_signed"
    by (simp add: signed_registration_def registration_intent_def demo_ledger_def demo_signed_def)
  have n: "demo_night \<noteq> []" by (simp add: demo_night_def)
  have f: "rg_key_from_bytes demo_ledger (replicate 32 1) = Some 1" "rg_dpk_deser demo_ledger b = Some 0"
    "rg_parse_utxos demo_ledger s = Some demo_night" "rg_verifying_key demo_ledger 1 = 1"
    "rg_new_tx demo_ledger ''preprod'' [(1, demo_signed)] = (''preprod'', [(1, demo_signed)])"
    "rg_ser_tuple demo_ledger (''preprod'', [(1, demo_signed)]) = Some [5]" for b s
    by (simp_all add: demo_ledger_def)
  show ?thesis
    by (simp add: build_dust_registration_transaction_impl_def f demo_hex demo_secs n b registration_tx_signed i no_gate)
qed



end
