(* ===== verification/EntryTests.thy ===== *)
theory EntryTests
  imports ShieldedTests RegistrationTests ValueTests FundedTests
begin

text \<open>
  Unit tests over an entry point's whole path: key derivation against test vectors (\<open>lib.rs\<close>,
  \<open>dust_ffi.rs\<close>), the dust wallet's bytes and the accrual of dust after a replayed event, intents
  serialised from JSON (\<open>serialize.rs\<close>), commitments against the hash computed by hand and the ledger
  parameters' TTL (\<open>contract_ffi.rs\<close>). Returned strings are values here; what is allocated is freed.
\<close>

subsection \<open>Keys\<close>

definition zero_seed_hex :: string where
  "zero_seed_hex = ''0000000000000000000000000000000000000000000000000000000000000000''"

definition test_derive_dust_public_key ::
    "hexlib \<Rightarrow> ('st, 'sk, 'utxo, 'spend, 'nul) dust_lib \<Rightarrow> ('st, 'sk, 'utxo, 'spend) dust_state_lib \<Rightarrow> bool" where
  "test_derive_dust_public_key hx dl ds \<longleftrightarrow>
     (case hx_dec hx zero_seed_hex of
        None \<Rightarrow> False
      | Some seed \<Rightarrow>
          (case Option.bind (derive_dust_public_key hx dl ds (Some seed) (of_nat (length seed))) cstr_to_str of
             Some pk_str \<Rightarrow> length pk_str = 66
           | None \<Rightarrow> False))"

definition vector_seed_hex :: string where
  "vector_seed_hex = ''b7637860b12f892ee07c67ad441c7935e37ac2153cefa39ae79083284f6d9180''"

definition test_derive_shielded_keys_with_test_vector :: "hexlib \<Rightarrow> 'keys shielded_lib \<Rightarrow> 'o heap \<Rightarrow> bool" where
  "test_derive_shielded_keys_with_test_vector hx kl h \<longleftrightarrow>
     (case hx_dec hx vector_seed_hex of
        None \<Rightarrow> False
      | Some seed \<Rightarrow>
          (case derive_shielded_keys hx kl (Some seed) (of_nat (length seed)) h of
             (None, h1) \<Rightarrow> False
           | (Some keys, h1) \<Rightarrow>
               (case hp_cells h1 keys of
                  Some (ShieldedKeys (Some c) (Some e)) \<Rightarrow>
                    (case (hp_cells h1 c, hp_cells h1 e) of
                       (Some (CStr coin_c), Some (CStr enc_c)) \<Rightarrow>
                         cstr_to_str coin_c = Some RECIPIENT_COIN_PK \<and>
                         cstr_to_str enc_c = Some RECIPIENT_ENC_PK \<and>
                         (case free_shielded_keys (Some keys) h1 of Fine h2 \<Rightarrow> True | UB \<Rightarrow> False)
                     | _ \<Rightarrow> False)
                | _ \<Rightarrow> False)))"

lemma digits_decode:
  assumes "hex_ok hx" and "reads_hex hx" and "set s \<subseteq> set hex_digits" and "length s = 2 * n"
  obtains b where "hx_dec hx s = Some b" "length b = n"
proof -
  obtain b where b: "hx_dec hx s = Some b" using assms(2-4) by (auto simp: reads_hex_def)
  moreover from this have "length b = n" using hex_dec_length [OF assms(1) b] assms(4) by simp
  ultimately show thesis by (rule that)
qed

lemma dust_key_test_passes:
  assumes hx: "hex_ok hx" "reads_hex hx"
    and pk: "\<And>sk. \<exists>b. ds_public_key_ser ds sk = Some b \<and> length b = 33"
  shows "test_derive_dust_public_key hx dl ds"
proof -
  obtain seed where s: "hx_dec hx zero_seed_hex = Some seed" "length seed = 32"
    by (rule digits_decode [OF hx, of zero_seed_hex 32]) (simp_all add: zero_seed_hex_def hex_digits_def)
  obtain b where b: "ds_public_key_ser ds (dl_derive dl (slice_from seed 32)) = Some b" "length b = 33"
    using pk by blast
  have "length (hx_enc hx b) = 66" using hex_enc_length [OF hx(1)] b(2) by simp
  then show ?thesis
    using s b(1) by (simp add: test_derive_dust_public_key_def derive_dust_public_key_def hex_enc_cstring [OF hx(1)]
        cstr_to_str_ascii hex_enc_plain [OF hx(1)])
qed

text \<open>The vector holds when the ledger derives these two keys from this seed.\<close>

definition shielded_vector :: "hexlib \<Rightarrow> 'keys shielded_lib \<Rightarrow> bool" where
  "shielded_vector hx kl \<longleftrightarrow> (\<exists>seed cb eb. hx_dec hx vector_seed_hex = Some seed \<and>
     sk_coin_pk_ser kl (sk_from_seed kl seed) = Some cb \<and> hx_enc hx cb = RECIPIENT_COIN_PK \<and>
     sk_enc_pk_ser kl (sk_from_seed kl seed) = Some eb \<and> hx_enc hx eb = RECIPIENT_ENC_PK)"

lemma shielded_vector_test_passes:
  assumes hx: "hex_ok hx" and v: "shielded_vector hx kl" and h: "heap_ok h"
  shows "test_derive_shielded_keys_with_test_vector hx kl h"
proof -
  obtain seed cb eb where s: "hx_dec hx vector_seed_hex = Some seed"
    "sk_coin_pk_ser kl (sk_from_seed kl seed) = Some cb" "hx_enc hx cb = RECIPIENT_COIN_PK"
    "sk_enc_pk_ser kl (sk_from_seed kl seed) = Some eb" "hx_enc hx eb = RECIPIENT_ENC_PK"
    using v by (auto simp: shielded_vector_def)
  have l: "length seed = 32" using hex_dec_length [OF hx s(1)] by (simp add: vector_seed_hex_def)
  have c: "cstring_new RECIPIENT_COIN_PK = Some RECIPIENT_COIN_PK" "cstring_new RECIPIENT_ENC_PK = Some RECIPIENT_ENC_PK"
    "cstr_to_str RECIPIENT_COIN_PK = Some RECIPIENT_COIN_PK" "cstr_to_str RECIPIENT_ENC_PK = Some RECIPIENT_ENC_PK"
    using hex_enc_cstring [OF hx] hex_enc_plain(5) [OF hx] cstr_to_str_ascii s(3,5) by metis+
  obtain k h1 where d: "derive_shielded_keys hx kl (Some seed) 32 h = (Some k, h1)"
    using s l c by (auto simp: derive_shielded_keys_def slice_from_def heap_alloc_def Let_def)
  have "\<exists>h2. free_shielded_keys (Some k) h1 = Fine h2 \<and> hp_cells h2 = hp_cells h"
    by (rule shielded_keys_roundtrip [OF h d])
  then show ?thesis
    using s l c d by (auto simp: test_derive_shielded_keys_with_test_vector_def derive_shielded_keys_def
        slice_from_def heap_alloc_def Let_def)
qed

subsection \<open>The dust wallet\<close>

definition test_serialize_dust_state :: "('st, 'sk, 'utxo, 'spend) dust_state_lib \<Rightarrow> 'st heap \<Rightarrow> bool" where
  "test_serialize_dust_state ds h \<longleftrightarrow>
     on_fresh (create_dust_local_state ds h) free_dust_local_state (\<lambda>state_ptr.
       case serialize_dust_state ds state_ptr h of
         (bytes_ptr, h1) \<Rightarrow>
           (case vec_at bytes_ptr h1 of
              None \<Rightarrow> False
            | Some bs \<Rightarrow>
                u64_from_le_bytes (take 8 bs) > 0 \<and>
                (case free_byte_array bytes_ptr h1 of Fine h2 \<Rightarrow> True | UB \<Rightarrow> False)))"

definition test_deserialize_dust_state_invalid_data :: "('st, 'sk, 'utxo, 'spend) dust_state_lib \<Rightarrow> bool" where
  "test_deserialize_dust_state_invalid_data ds \<longleftrightarrow>
     (let invalid_data = [0xFF, 0xFF, 0xFF, 0xFF] in
      deserialize_dust_state ds (Some invalid_data) (of_nat (length invalid_data)) = None)"

text \<open>\<open>event_bytes\<close> is the serialised mock event: one \<open>DustInitialUtxo\<close> for a million stars of NIGHT.\<close>

definition test_dust_accumulation_with_mock_event ::
    "hexlib \<Rightarrow> ('st, 'sk, 'ev) replay_lib \<Rightarrow> ('st, 'sk, 'utxo, 'spend, 'nul) dust_lib \<Rightarrow>
     ('st, 'sk, 'utxo, 'spend) dust_state_lib \<Rightarrow> bytes \<Rightarrow> 'st heap \<Rightarrow> bool" where
  "test_dust_accumulation_with_mock_event hx rl dl ds event_bytes h \<longleftrightarrow>
     on_fresh (create_dust_local_state ds h) free_dust_local_state (\<lambda>state_ptr.
       let seed = replicate 32 0;
           night_value_stars = 1000000;
           generation_rate_per_star = 8267;
           total_rate = night_value_stars * generation_rate_per_star;
           events_hex = ''6d69646e696768743a6576656e745b76395d3a'' @ hx_enc hx event_bytes;
           new_state_ptr = dust_replay_events hx rl state_ptr (Some seed) 32 (Some events_hex) in
       new_state_ptr \<noteq> None \<and>
       (case Option.bind (dust_wallet_balance ds new_state_ptr 1000) cstr_to_str of
          Some balance_str \<Rightarrow> parse_u128 balance_str = Some 0
        | None \<Rightarrow> False) \<and>
       (case Option.bind (Option.bind (dust_wallet_balance ds new_state_ptr 2000) cstr_to_str) parse_u128 of
          Some balance \<Rightarrow>
            (let expected = total_rate; tolerance = expected div 100 in
             balance \<ge> expected - tolerance \<and> balance \<le> expected + tolerance)
        | None \<Rightarrow> False) \<and>
       dust_utxo_count dl new_state_ptr = 1)"

lemma dust_bytes_test_passes:
  assumes "ds_ser ds (ds_new ds) = Some b" and "b \<noteq> []" and "length b < 2 ^ 63"
    and "ds_with_capacity ds (8 + length b) = 8 + length b"
  shows "test_serialize_dust_state ds h"
proof -
  have n: "unat (of_nat (length b) :: u64) = length b"
    using assms(3) by (simp add: unat_of_nat take_bit_nat_eq_self)
  then have "(of_nat (length b) :: u64) \<noteq> 0" using assms(2) by (metis length_0_conv unat_0)
  then have "(0 :: u64) < of_nat (length b)" by (simp add: word_gt_0)
  then show ?thesis
    using assms by (simp add: test_serialize_dust_state_def on_fresh_dust serialize_dust_state_def heap_alloc_def Let_def
        vec_at_def free_byte_array_def drop_vec_def unat_8_len)
qed

lemma invalid_bytes_test_passes:
  "ds_deser ds [0xFF, 0xFF, 0xFF, 0xFF] = None \<Longrightarrow> test_deserialize_dust_state_invalid_data ds"
  by (simp add: test_deserialize_dust_state_invalid_data_def deserialize_dust_state_def slice_from_def)

text \<open>One event after the tag is replayed alone when the tag does not occur again in its hex.\<close>

lemma one_event_replayed:
  assumes "is_ascii rest" and "rest \<noteq> []" and "clean_piece TAG_PREFIX_HEX rest"
    and "Option.bind (hx_dec hx (TAG_PREFIX_HEX @ rest)) (rl_tagged rl) = Some ev"
  shows "dust_replay_events hx rl (Some st) (Some seed) 32 (Some (TAG_PREFIX_HEX @ rest)) =
    rl_replay rl st (rl_derive rl (slice_from seed 32)) [ev]"
proof -
  have t: "TAG_PREFIX_HEX \<noteq> []" by (simp add: TAG_PREFIX_HEX_def)
  have "str_split TAG_PREFIX_HEX (concat (map (\<lambda>b. TAG_PREFIX_HEX @ b) [rest])) = [] # [rest]"
    using assms(2,3) t by (intro split_glue) auto
  then have "str_split TAG_PREFIX_HEX (TAG_PREFIX_HEX @ rest) = [[], rest]" by simp
  moreover have "is_ascii (TAG_PREFIX_HEX @ rest)"
    using assms(1) by (auto simp: is_ascii_def TAG_PREFIX_HEX_def)
  ultimately show ?thesis
    using assms(2,4) by (simp add: dust_replay_events_def cstr_to_str_ascii dust_decode_event_def)
qed

text \<open>The mock event decodes, and replaying it gives a wallet of one UTXO that accrues its rate.\<close>

definition mock_event_accrues ::
    "hexlib \<Rightarrow> ('st, 'sk, 'ev) replay_lib \<Rightarrow> ('st, 'sk, 'utxo, 'spend, 'nul) dust_lib \<Rightarrow>
     ('st, 'sk, 'utxo, 'spend) dust_state_lib \<Rightarrow> bytes \<Rightarrow> bool" where
  "mock_event_accrues hx rl dl ds event_bytes \<longleftrightarrow>
     clean_piece TAG_PREFIX_HEX (''395d3a'' @ hx_enc hx event_bytes) \<and>
     (\<exists>ev st. Option.bind (hx_dec hx (TAG_PREFIX_HEX @ ''395d3a'' @ hx_enc hx event_bytes)) (rl_tagged rl) = Some ev \<and>
        rl_replay rl (ds_new ds) (rl_derive rl (replicate 32 0)) [ev] = Some st \<and>
        ds_wallet_balance ds st 1 = 0 \<and> ds_wallet_balance ds st 2 = 1000000 * 8267 \<and> length (dl_utxos dl st) = 1)"

lemma accumulation_test_passes:
  assumes hx: "hex_ok hx" and m: "mock_event_accrues hx rl dl ds event_bytes"
  shows "test_dust_accumulation_with_mock_event hx rl dl ds event_bytes h"
proof -
  obtain ev st where e: "clean_piece TAG_PREFIX_HEX (''395d3a'' @ hx_enc hx event_bytes)"
    "Option.bind (hx_dec hx (TAG_PREFIX_HEX @ ''395d3a'' @ hx_enc hx event_bytes)) (rl_tagged rl) = Some ev"
    "rl_replay rl (ds_new ds) (rl_derive rl (replicate 32 0)) [ev] = Some st"
    "ds_wallet_balance ds st 1 = 0" "ds_wallet_balance ds st 2 = 1000000 * 8267" "length (dl_utxos dl st) = 1"
    using m unfolding mock_event_accrues_def by blast
  have a: "is_ascii (''395d3a'' @ hx_enc hx event_bytes)"
    using hex_enc_plain(5) [OF hx] by (auto simp: is_ascii_def)
  have tag: "''6d69646e696768743a6576656e745b76395d3a'' @ s = TAG_PREFIX_HEX @ ''395d3a'' @ s" for s
    by (simp add: TAG_PREFIX_HEX_def)
  have r: "dust_replay_events hx rl (Some (ds_new ds)) (Some (replicate 32 0)) 32
      (Some (''6d69646e696768743a6576656e745b76395d3a'' @ hx_enc hx event_bytes)) = Some st"
    unfolding tag using one_event_replayed [OF a _ e(1,2)] e(3) by (simp add: slice_from_def)
  have t: "millis_to_secs 1000 = 1" "millis_to_secs 2000 = 2" by code_simp+
  have b: "dust_wallet_balance ds (Some st) 1000 = Some (show_word (0::u128))"
    "dust_wallet_balance ds (Some st) 2000 = Some (show_word (1000000 * 8267 :: u128))"
    using e(4,5) by (simp_all add: dust_wallet_balance_def t)
  have w: "cstr_to_str (show_word (w::u128)) = Some (show_word w)" for w
    by (rule cstr_to_str_ascii) (rule shown_plain)
  show ?thesis
    unfolding test_dust_accumulation_with_mock_event_def on_fresh_dust Let_def r b
    using e(6) by (simp add: w dust_utxo_count_def)
qed

subsection \<open>Unshielded intents\<close>

definition binding_hex :: string where
  "binding_hex = ''0500000000000000000000000000000000000000000000000000000000000000''"

definition test_empty_intent_serialization ::
    "hexlib \<Rightarrow> ('vk, 'tok, 'hash, 'addr, 'sig, 'fr, 'ped, 'spend, 'tx, 'ptx, 'stx, 'st, 'sk) unshielded_lib \<Rightarrow> bool" where
  "test_empty_intent_serialization hx ul \<longleftrightarrow>
     (case serialize_unshielded_transaction hx ul (Some ''[]'') (Some ''[]'') (Some ''[]'') (Some [])
             1704067200000 (Some binding_hex) (Some ''undeployed'') of
        None \<Rightarrow> False
      | Some hex_ptr \<Rightarrow>
          (case cstr_to_str hex_ptr of
             Some hex_str \<Rightarrow> length hex_str > 0 \<and> ascii_hex hex_str
           | None \<Rightarrow> False))"

text \<open>The JSON of \<open>test_serialize_with_android_data\<close>, line by line.\<close>

definition json_lines :: "string list \<Rightarrow> string" where
  "json_lines ls = str_join [CHR 0x0A] ls"

definition android_inputs :: string where
  \<open>android_inputs = json_lines
     [''[{'',
      ''            "value": "10000000",'',
      ''            "owner": "5a6202f7b2491e09d62e3cdf3c5ec67fd98bb3743a65e67f397f8b12a6460d46",'',
      ''            "type": "0000000000000000000000000000000000000000000000000000000000000000",'',
      ''            "intent_hash": "ab6642ef7dd8420c4673a56c57da96adeeedfc5a98140c8a42500b8369464fed",'',
      ''            "output_no": 0'',
      ''        }]'']\<close>

definition android_outputs :: string where
  \<open>android_outputs = json_lines
     [''[{'',
      ''            "value": "1000000",'',
      ''            "owner": "246751a9a263a0233fea1f079a0882c8ea462f98bdb23d4acb79ff2c957aaad4",'',
      ''            "type": "0000000000000000000000000000000000000000000000000000000000000000"'',
      ''        }, {'',
      ''            "value": "9000000",'',
      ''            "owner": "5125024980cfab62f99febb1ec72d72079298cb28f51fe47fbc2a3313d641a19",'',
      ''            "type": "0000000000000000000000000000000000000000000000000000000000000000"'',
      ''        }]'']\<close>

definition android_signature :: string where
  "android_signature = ''7fcd704b204a598d87375b046ff9b4c1bd26e039f471c1cbbb107d4f962507151f17d58df17a7b2772649faa67a7bd25821c229470bcc9d85e8d21f9fb80757e''"

definition test_serialize_with_android_data ::
    "hexlib \<Rightarrow> ('vk, 'tok, 'hash, 'addr, 'sig, 'fr, 'ped, 'spend, 'tx, 'ptx, 'stx, 'st, 'sk) unshielded_lib \<Rightarrow> bool" where
  "test_serialize_with_android_data hx ul \<longleftrightarrow>
     (let signatures_json = ''['' @ [CHR 0x22] @ android_signature @ [CHR 0x22] @ '']'';
          ttl_ms = 1737658800000;
          dust_actions_json = [] in
      case build_and_serialize_intent hx ul android_inputs android_outputs signatures_json dust_actions_json
             ttl_ms binding_hex ''undeployed'' of
        Inr hex \<Rightarrow> True
      | Inl e \<Rightarrow> False)"

text \<open>
  Serde reads the texts as what they say; 32 bytes are a key, a hash, an address and these ones a
  scalar, 64 bytes a signature; transactions serialise, not to nothing.
\<close>

definition intent_tests_ok ::
    "hexlib \<Rightarrow> ('vk, 'tok, 'hash, 'addr, 'sig, 'fr, 'ped, 'spend, 'tx, 'ptx, 'stx, 'st, 'sk) unshielded_lib \<Rightarrow> bool" where
  "intent_tests_ok hx ul \<longleftrightarrow> hex_ok hx \<and> reads_hex hx \<and>
     ul_parse_inputs ul ''[]'' = Some [] \<and> ul_parse_outputs ul ''[]'' = Some [] \<and> ul_parse_strings ul ''[]'' = Some [] \<and>
     ul_parse_inputs ul android_inputs = Some
       [\<lparr>ju_value = ''10000000'', ju_owner = ''5a6202f7b2491e09d62e3cdf3c5ec67fd98bb3743a65e67f397f8b12a6460d46'',
         ju_type = zero_seed_hex,
         ju_intent_hash = ''ab6642ef7dd8420c4673a56c57da96adeeedfc5a98140c8a42500b8369464fed'', ju_output_no = 0\<rparr>] \<and>
     ul_parse_outputs ul android_outputs = Some
       [\<lparr>jo_value = ''1000000'', jo_owner = ''246751a9a263a0233fea1f079a0882c8ea462f98bdb23d4acb79ff2c957aaad4'',
         jo_type = zero_seed_hex\<rparr>,
        \<lparr>jo_value = ''9000000'', jo_owner = ''5125024980cfab62f99febb1ec72d72079298cb28f51fe47fbc2a3313d641a19'',
         jo_type = zero_seed_hex\<rparr>] \<and>
     ul_parse_strings ul (''['' @ [CHR 0x22] @ android_signature @ [CHR 0x22] @ '']'') = Some [android_signature] \<and>
     (\<forall>b. length b = 32 \<longrightarrow> ul_vk_deser ul b \<noteq> None \<and> ul_hash_deser ul b \<noteq> None \<and> ul_addr_deser ul b \<noteq> None) \<and>
     (\<forall>b. length b = 64 \<longrightarrow> ul_sig_deser ul b \<noteq> None) \<and>
     Option.bind (hx_dec hx binding_hex) (ul_fr_from_le ul) \<noteq> None \<and>
     (\<forall>tx. \<exists>b. ul_ser_tuple ul tx = Some b \<and> b \<noteq> [])"

lemma intent_serialises:
  assumes ok: "intent_tests_ok hx ul"
    and "build_intent hx ul ij oj sj ttl_ms binding_hex = Inr intent"
  shows "\<exists>b. b \<noteq> [] \<and> build_and_serialize_intent hx ul ij oj sj dj ttl_ms binding_hex net = Inr (hx_enc hx b)"
proof -
  obtain b where "ul_ser_tuple ul (ul_standard_tx ul net [(1, intent)] (in_binding intent)) = Some b" "b \<noteq> []"
    using ok unfolding intent_tests_ok_def by blast
  then show ?thesis using assms(2) by (auto simp: build_and_serialize_intent_def)
qed

lemma binding_parsed:
  assumes "intent_tests_ok hx ul"
  obtains fr where "parse_randomness hx ul binding_hex = Inr fr"
proof -
  have "Option.bind (hx_dec hx binding_hex) (ul_fr_from_le ul) \<noteq> None"
    using assms by (simp add: intent_tests_ok_def)
  then obtain rb fr where "hx_dec hx binding_hex = Some rb" "ul_fr_from_le ul rb = Some fr"
    by (auto simp: bind_eq_Some_conv)
  then show thesis by (intro that) (simp add: parse_randomness_def)
qed

lemma empty_intent_test_passes:
  assumes ok: "intent_tests_ok hx ul"
  shows "test_empty_intent_serialization hx ul"
proof -
  have hx: "hex_ok hx" using ok by (simp add: intent_tests_ok_def)
  obtain fr where "parse_randomness hx ul binding_hex = Inr fr" by (rule binding_parsed [OF ok])
  then have "build_intent hx ul ''[]'' ''[]'' ''[]'' 1704067200000 binding_hex =
      Inr (transfer_intent ul [] [] [] 1704067200000 fr)"
    using ok by (simp add: build_intent_def intent_tests_ok_def)
  then obtain b where b: "b \<noteq> []" "build_and_serialize_intent hx ul ''[]'' ''[]'' ''[]'' [] 1704067200000
      binding_hex ''undeployed'' = Inr (hx_enc hx b)"
    using intent_serialises [OF ok] by blast
  have "cstr_to_str ''[]'' = Some ''[]''" "cstr_to_str [] = Some []" "cstr_to_str ''undeployed'' = Some ''undeployed''"
    "cstr_to_str binding_hex = Some binding_hex"
    by (rule cstr_to_str_ascii, simp add: is_ascii_def binding_hex_def)+
  moreover have "hx_enc hx b \<noteq> []" using hex_enc_length [OF hx, of b] b(1) by auto
  ultimately show ?thesis
    using b(2) by (simp add: test_empty_intent_serialization_def serialize_unshielded_transaction_def
        hex_enc_cstring [OF hx] cstr_to_str_ascii hex_enc_plain(5) [OF hx] ascii_hex_enc [OF hx])
qed

lemma test_decimals:
  "parse_u128 ''10000000'' = Some 10000000" "parse_u128 ''9000000'' = Some 9000000"
  by (simp_all add: parse_u128_def parse_uint_def is_dec_def dec_val_def)

lemma android_test_passes:
  assumes ok: "intent_tests_ok hx ul"
  shows "test_serialize_with_android_data hx ul"
proof -
  have hx: "hex_ok hx" "reads_hex hx" using ok by (simp_all add: intent_tests_ok_def)
  have d: "\<exists>b. hx_dec hx s = Some b \<and> length b = 32" if "set s \<subseteq> set hex_digits" "length s = 64" for s
    using digits_decode [OF hx that(1), of 32] that(2) by auto
  have k: "ul_vk_deser ul b \<noteq> None" "ul_hash_deser ul b \<noteq> None" "ul_addr_deser ul b \<noteq> None" if "length b = 32" for b
    using ok that by (auto simp: intent_tests_ok_def)
  let ?in = "\<lparr>ju_value = ''10000000'', ju_owner = ''5a6202f7b2491e09d62e3cdf3c5ec67fd98bb3743a65e67f397f8b12a6460d46'',
    ju_type = zero_seed_hex,
    ju_intent_hash = ''ab6642ef7dd8420c4673a56c57da96adeeedfc5a98140c8a42500b8369464fed'', ju_output_no = 0\<rparr>"
  have i: "\<exists>x. convert_input hx ul ?in = Inr x"
  proof -
    obtain o1 t1 h1 where "hx_dec hx (ju_owner ?in) = Some o1" "length o1 = 32" "hx_dec hx (ju_type ?in) = Some t1"
      "length t1 = 32" "hx_dec hx (ju_intent_hash ?in) = Some h1" "length h1 = 32"
      using d [of "ju_owner ?in"] d [of "ju_type ?in"] d [of "ju_intent_hash ?in"]
      by (auto simp: hex_digits_def zero_seed_hex_def)
    then show ?thesis using k [of o1] k [of h1] by (auto simp: convert_input_def test_decimals key_32_def token_32_def)
  qed
  have o: "\<exists>x. convert_output hx ul \<lparr>jo_value = v, jo_owner = w, jo_type = zero_seed_hex\<rparr> = Inr x"
    if w: "parse_u128 v = Some n" "set w \<subseteq> set hex_digits" "length w = 64" for v w n
  proof -
    obtain o1 t1 where "hx_dec hx w = Some o1" "length o1 = 32" "hx_dec hx zero_seed_hex = Some t1" "length t1 = 32"
      using d [OF w(2,3)] d [of zero_seed_hex] by (auto simp: hex_digits_def zero_seed_hex_def)
    then show ?thesis using w(1) k [of o1] by (auto simp: convert_output_def token_32_def)
  qed
  have s: "\<exists>x. convert_signature hx ul android_signature = Inr x"
  proof -
    obtain b where "hx_dec hx android_signature = Some b" "length b = 64"
      by (rule digits_decode [OF hx, of android_signature 64]) (simp_all add: android_signature_def hex_digits_def)
    then show ?thesis using ok by (auto simp: convert_signature_def intent_tests_ok_def)
  qed
  obtain fr where f: "parse_randomness hx ul binding_hex = Inr fr" by (rule binding_parsed [OF ok])
  obtain x1 where x1: "convert_input hx ul ?in = Inr x1" using i by blast
  obtain y1 where y1: "convert_output hx ul \<lparr>jo_value = ''1000000'',
      jo_owner = ''246751a9a263a0233fea1f079a0882c8ea462f98bdb23d4acb79ff2c957aaad4'', jo_type = zero_seed_hex\<rparr> = Inr y1"
    using o [OF test_values(1)] by (force simp: hex_digits_def)
  obtain y2 where y2: "convert_output hx ul \<lparr>jo_value = ''9000000'',
      jo_owner = ''5125024980cfab62f99febb1ec72d72079298cb28f51fe47fbc2a3313d641a19'', jo_type = zero_seed_hex\<rparr> = Inr y2"
    using o [OF test_decimals(2)] by (force simp: hex_digits_def)
  obtain sg where sg: "convert_signature hx ul android_signature = Inr sg" using s by blast
  have "build_intent hx ul android_inputs android_outputs (''['' @ [CHR 0x22] @ android_signature @ [CHR 0x22] @ '']'')
      1737658800000 binding_hex = Inr (transfer_intent ul [x1] [y1, y2] [sg] 1737658800000 fr)"
    using ok f x1 y1 y2 sg unfolding intent_tests_ok_def build_intent_def by (elim conjE) (simp del: append.simps)
  from intent_serialises [OF ok this, of "[]" "''undeployed''"] show ?thesis
    by (auto simp: test_serialize_with_android_data_def Let_def)
qed

subsection \<open>Commitments and parameters of contracts\<close>

text \<open>The hash computed by hand: what \<open>binary_repr\<close> of the opening and of the value feed the hasher.\<close>

definition ffi_matches_direct_rust_persistent_commit ::
    "json_lib \<Rightarrow> ('hash, 'fr) value_lib \<Rightarrow> (json \<Rightarrow> string) \<Rightarrow> bool" where
  "ffi_matches_direct_rust_persistent_commit jl vl print \<longleftrightarrow>
     (let opening_bytes = map (\<lambda>i. of_nat (i * 5 + 3)) [0..<32];
          value_bytes = [10, 20, 30];
          aligned = \<lparr>av_value = [value_bytes], av_alignment = [SegAtom (ABytes 3)]\<rparr>;
          direct_hash = vl_finalize vl (vl_hash_repr vl opening_bytes @ vl_value_repr vl aligned);
          direct_value = vl_value_of_hash vl direct_hash;
          ffi_input = commit_input value_bytes (bytes_alignment 3) opening_bytes in
      case (vl_value_print vl direct_value, contract_persistent_commit_aligned jl vl (Some (print ffi_input))) of
        (Some direct_json, TextReply ffi_result) \<Rightarrow> direct_json = ffi_result
      | _ \<Rightarrow> False)"

definition ffi_matches_for_batch_preimage ::
    "json_lib \<Rightarrow> ('hash, 'fr) value_lib \<Rightarrow> (json \<Rightarrow> string) \<Rightarrow> bool" where
  "ffi_matches_for_batch_preimage jl vl print \<longleftrightarrow>
     (let choices = [[0], [1], [2], [0], [1]];
          nonce = map of_nat [100..<132];
          alignments = replicate 5 (bytes_alignment 1);
          ffi_input = JObject [(''value'', JObject [(''value'', JArray (map json_bytes choices)),
            (''alignment'', JArray alignments)]), (''opening'', json_bytes nonce)] in
      case (contract_persistent_commit_aligned jl vl (Some (print ffi_input)),
            contract_persistent_commit_aligned jl vl (Some (print ffi_input))) of
        (TextReply ffi_result, TextReply ffi_result2) \<Rightarrow>
          (case Option.bind (cstr_to_str ffi_result) (jl_parse jl) of Some (JArray xs) \<Rightarrow> True | _ \<Rightarrow> False) \<and>
          ffi_result = ffi_result2
      | _ \<Rightarrow> False)"

definition test_global_ttl_secs_reads_default_params ::
    "hexlib \<Rightarrow> (bytes \<Rightarrow> 'params option) \<Rightarrow> ('params \<Rightarrow> int) \<Rightarrow> bytes \<Rightarrow> bool" where
  "test_global_ttl_secs_reads_default_params hx params_deser global_ttl bytes \<longleftrightarrow>
     ledger_params_global_ttl_secs hx params_deser global_ttl (Some (hx_enc hx bytes)) = 3600"

definition test_global_ttl_secs_reads_tight_localnet_value ::
    "hexlib \<Rightarrow> (bytes \<Rightarrow> 'params option) \<Rightarrow> ('params \<Rightarrow> int) \<Rightarrow> bytes \<Rightarrow> bool" where
  "test_global_ttl_secs_reads_tight_localnet_value hx params_deser global_ttl bytes \<longleftrightarrow>
     ledger_params_global_ttl_secs hx params_deser global_ttl (Some (hx_enc hx bytes)) = 100"

lemma bytes_read: "parse_atom (json_bytes bs) = bs"
proof -
  have "unat (ucast b :: u64) < 256" for b :: u8 using unat_bound [of b] by (simp add: unsigned_ucast_eq take_bit_nat_eq_self)
  then show ?thesis by (induction bs) (simp_all add: parse_atom_def json_bytes_def ucast_up_ucast_id is_up)
qed

lemma direct_commit_test_passes:
  assumes "prints_back jl print" "values_print jl vl"
  shows "ffi_matches_direct_rust_persistent_commit jl vl print"
proof -
  have b3: "parse_alignment_segment (bytes_alignment 3) = Inr (SegAtom (ABytes 3))" by (simp add: bytes_segment)
  let ?o = "map (\<lambda>i. of_nat (i * 5 + 3)) [0..<32] :: bytes"
  let ?v = "vl_value_of_hash vl (vl_finalize vl (vl_hash_repr vl ?o @
    vl_value_repr vl \<lparr>av_value = [[10, 20, 30]], av_alignment = [SegAtom (ABytes 3)]\<rparr>))"
  have "truncate_atom (parse_atom (json_bytes [10, 20, 30])) (SegAtom (ABytes 3)) = [10, 20, 30]"
    by (simp add: bytes_read truncate_atom_def)
  moreover have "length ?o = 32" by simp
  ultimately have "contract_persistent_commit_aligned jl vl (Some (print (commit_input [10, 20, 30] (bytes_alignment 3) ?o))) =
      value_reply vl ?v" using commit_reply [OF assms(1) b3, of ?o vl "[10, 20, 30]"] by simp
  moreover obtain s where "value_reply vl ?v = TextReply s" by (rule printed_value [OF assms(2)])
  moreover from this have "vl_value_print vl ?v = Some s"
    by (auto simp: value_reply_def to_c_string_def cstring_new_def split: option.splits if_splits)
  ultimately show ?thesis
    by (simp only: ffi_matches_direct_rust_persistent_commit_def Let_def prod.case option.case reply.case)
qed

lemma commit_parts_object:
  assumes "parse_aligned_value v = Inr av" and "length op = 32"
  shows "commit_parts (JObject [(''value'', v), (''opening'', json_bytes op)]) = Inr (op, av)"
proof -
  have "json_bytes op = JArray (map (\<lambda>b. json_u64 (ucast b)) op)" by (simp add: json_bytes_def)
  then show ?thesis using assms by (simp add: commit_parts_def opening_read)
qed

lemma commit_of_parts:
  "prints_back jl print \<Longrightarrow> commit_parts v = Inr (op, av) \<Longrightarrow>
   contract_persistent_commit_aligned jl vl (Some (print v)) =
     value_reply vl (vl_value_of_hash vl (vl_finalize vl (vl_hash_repr vl op @ vl_value_repr vl av)))"
  by (simp add: contract_persistent_commit_aligned_def prints_back_def plain_c_str)

lemma batch_commit_test_passes:
  assumes "prints_back jl print" "values_print jl vl"
  shows "ffi_matches_for_batch_preimage jl vl print"
proof -
  let ?n = "map of_nat [100..<132] :: bytes"
  let ?in = "JObject [(''value'', JObject [(''value'', JArray (map json_bytes [[0], [1], [2], [0], [1]])),
    (''alignment'', JArray (replicate 5 (bytes_alignment 1)))]), (''opening'', json_bytes ?n)]"
  let ?av = "\<lparr>av_value = [[0], [1], [2], [0], [1]], av_alignment = replicate 5 (SegAtom (ABytes 1))\<rparr>"
  have b1: "parse_alignment_segment (bytes_alignment 1) = Inr (SegAtom (ABytes 1))" by (simp add: bytes_segment)
  have "parse_aligned_value (JObject [(''value'', JArray (map json_bytes [[0], [1], [2], [0], [1]])),
      (''alignment'', JArray (replicate 5 (bytes_alignment 1)))]) = Inr ?av"
    by (simp add: parse_aligned_value_def jidx_def b1 bytes_read truncate_atom_def numeral_eq_Suc)
  then have "commit_parts ?in = Inr (?n, ?av)" by (rule commit_parts_object) simp
  note r = commit_of_parts [OF assms(1) this]
  obtain s xs where "value_reply vl (vl_value_of_hash vl (vl_finalize vl (vl_hash_repr vl ?n @ vl_value_repr vl ?av))) = TextReply s"
    "jl_parse jl s = Some (JArray xs)" "cstr_to_str s = Some s" by (rule printed_value [OF assms(2)])
  then show ?thesis
    by (simp only: ffi_matches_for_batch_preimage_def Let_def r prod.case reply.case) simp
qed

lemma global_ttl_tests_pass:
  assumes hx: "hex_ok hx" and p: "params_deser bytes = Some params"
  shows "global_ttl params = 3600 \<Longrightarrow> test_global_ttl_secs_reads_default_params hx params_deser global_ttl bytes"
    and "global_ttl params = 100 \<Longrightarrow> test_global_ttl_secs_reads_tight_localnet_value hx params_deser global_ttl bytes"
  using p by (simp_all add: test_global_ttl_secs_reads_default_params_def test_global_ttl_secs_reads_tight_localnet_value_def
      ledger_params_global_ttl_secs_def plain_c_str hex_enc_plain [OF hx] hex_dec_enc [OF hx])

end
