(* ===== verification/QueryRuns.thy ===== *)
theory QueryRuns
  imports StatePool
begin

text \<open>
  Runs of \<open>contract_query\<close>. A circuit makes one query per ledger operation and the pool carries the
  state from one to the next, also between several handles. Here such a run is a fold over the pool;
  what is shown is that every handle evolves as if it were alone, and that the queries of one handle
  thread its data the way the tests in \<open>readmismatch_repro\<close> do by hand.
\<close>

subsection \<open>Runs\<close>

text \<open>A call: the clock it reads, the handle, the opcodes.\<close>

type_synonym query_call = "u64 \<times> u64 \<times> cptr"

fun run_queries ::
    "('data, 'op, 'rest, 'gop, 'ev, 'gas) pool_lib \<Rightarrow> query_call list \<Rightarrow> ('data, 'op, 'rest) contract_state pool \<Rightarrow>
     pool_error reply list \<times> ('data, 'op, 'rest) contract_state pool" where
  "run_queries pl [] p = ([], p)"
| "run_queries pl ((now_secs, handle, opcodes_json) # calls) p =
     (let (r, p1) = contract_query pl now_secs handle opcodes_json p;
          (rs, p2) = run_queries pl calls p1
      in (r # rs, p2))"

text \<open>What one query does to the data of its handle: nothing when it is refused or fails.\<close>

definition query_data ::
    "('data, 'op, 'rest, 'gop, 'ev, 'gas) pool_lib \<Rightarrow> 'data \<Rightarrow> u64 \<Rightarrow> cptr \<Rightarrow> 'data" where
  "query_data pl data now_secs opcodes_json =
     (case do { opcodes_str \<leftarrow> c_str_to_str opcodes_json; ops \<leftarrow> pl_ops_parse pl opcodes_str;
                pl_query pl data now_secs ops } of
        Some (data', events, gas) \<Rightarrow> data'
      | None \<Rightarrow> data)"

fun own_data :: "('data, 'op, 'rest, 'gop, 'ev, 'gas) pool_lib \<Rightarrow> u64 \<Rightarrow> query_call list \<Rightarrow> 'data \<Rightarrow> 'data" where
  "own_data pl h [] data = data"
| "own_data pl h ((now_secs, handle, opcodes_json) # calls) data =
     own_data pl h calls (if handle = h then query_data pl data now_secs opcodes_json else data)"

lemma query_state:
  "pool_get (snd (contract_query pl now h c p)) k =
     (if k = h then map_option (\<lambda>s. s\<lparr>cs_data := query_data pl (cs_data s) now c\<rparr>) (pool_get p h) else pool_get p k)"
proof (cases "do { t \<leftarrow> c_str_to_str c; s \<leftarrow> pool_get p h; ops \<leftarrow> pl_ops_parse pl t; Some (s, ops) }")
  case None
  then have "snd (contract_query pl now h c p) = p"
    by (cases "c_str_to_str c"; cases "pool_get p h")
      (auto simp: contract_query_def query_begin_def bindE_def ok_or_def split: option.splits)
  moreover have "pool_get p h = Some s \<Longrightarrow> query_data pl (cs_data s) now c = cs_data s" for s
    using None by (cases "c_str_to_str c"; cases "pl_ops_parse pl (the (c_str_to_str c))")
      (auto simp: query_data_def split: option.split)
  ultimately show ?thesis by (cases "pool_get p h") auto
next
  case (Some so)
  then obtain t s ops where "c_str_to_str c = Some t" "pool_get p h = Some s" "pl_ops_parse pl t = Some ops"
    by (auto simp: bind_eq_Some_conv)
  then show ?thesis
    by (cases "pl_query pl (cs_data s) now ops")
      (auto simp: contract_query_def query_begin_def query_commit_def query_data_def sp.get_ins)
qed

lemma query_keys:
  "map fst (sp_entries (snd (contract_query pl now h c p))) = map fst (sp_entries p)"
proof -
  have "map fst (sp_entries (pool_insert h s' p)) = map fst (sp_entries p)" if "pool_get p h = Some s" for s s'
  proof -
    have "h \<in> set (map fst (sp_entries p))" using that pool_get_None [of p h] by auto
    then show ?thesis by (simp add: pool_insert_def update_keys)
  qed
  then show ?thesis
    by (auto simp: contract_query_def query_begin_def query_commit_def bindE_def ok_or_def split: option.splits sum.splits)
qed

lemma query_next: "sp_next (snd (contract_query pl now h c p)) = sp_next p"
  by (auto simp: contract_query_def query_commit_def split: option.split sum.split)

lemma run_state:
  "pool_get (snd (run_queries pl calls p)) h =
     map_option (\<lambda>s. s\<lparr>cs_data := own_data pl h calls (cs_data s)\<rparr>) (pool_get p h)"
proof (induction calls arbitrary: p)
  case Nil
  then show ?case by (cases "pool_get p h") auto
next
  case (Cons q calls)
  obtain now k c where q: "q = (now, k, c)" by (cases q)
  have "snd (run_queries pl (q # calls) p) = snd (run_queries pl calls (snd (contract_query pl now k c p)))"
    by (simp add: q split: prod.split)
  then show ?case
    by (cases "pool_get p h") (auto simp: q Cons.IH query_state)
qed

lemma run_frame:
  "map fst (sp_entries (snd (run_queries pl calls p))) = map fst (sp_entries p) \<and>
   sp_next (snd (run_queries pl calls p)) = sp_next p \<and> length (fst (run_queries pl calls p)) = length calls"
proof (induction calls arbitrary: p)
  case (Cons q calls)
  obtain now k c where q: "q = (now, k, c)" by (cases q)
  show ?case
    using Cons.IH [of "snd (contract_query pl now k c p)"]
    by (auto simp: q query_keys query_next split_beta)
qed simp

lemma own_data_others: "\<forall>q \<in> set calls. fst (snd q) \<noteq> h \<Longrightarrow> own_data pl h calls d = d"
  by (induction calls arbitrary: d) auto

subsection \<open>One handle: the threaded runs of the tests\<close>

text \<open>\<open>split_query_path_preserves_counter\<close> threads \<open>res.context.state\<close> through \<open>qc.query\<close> per chunk.\<close>

fun thread_chunks ::
    "('data, 'op, 'rest, 'gop, 'ev, 'gas) pool_lib \<Rightarrow> u64 \<Rightarrow> 'gop list list \<Rightarrow> 'data \<Rightarrow> ('ev list \<times> 'data) option" where
  "thread_chunks pl tblock [] data = Some ([], data)"
| "thread_chunks pl tblock (chunk # chunks) data = do {
     (data', events, gas) \<leftarrow> pl_query pl data tblock chunk;
     (rest, final) \<leftarrow> thread_chunks pl tblock chunks data';
     Some (events # rest, final)
   }"

text \<open>The opcodes of each chunk, as text the library reads back.\<close>

definition printed_chunks ::
    "('data, 'op, 'rest, 'gop, 'ev, 'gas) pool_lib \<Rightarrow> string list \<Rightarrow> 'gop list list \<Rightarrow> bool" where
  "printed_chunks pl texts chunks \<longleftrightarrow>
     list_all2 (\<lambda>t c. c_str_to_str (Some t) = Some t \<and> pl_ops_parse pl t = Some c) texts chunks"

lemma thread_own_data:
  assumes "printed_chunks pl texts chunks" and "thread_chunks pl tblock chunks d = Some (evs, d')"
  shows "own_data pl h (map (\<lambda>t. (tblock, h, Some t)) texts) d = d'"
  using assms
proof (induction texts arbitrary: chunks d evs)
  case (Cons t texts)
  then obtain c cs where c: "chunks = c # cs" "c_str_to_str (Some t) = Some t" "pl_ops_parse pl t = Some c"
    "printed_chunks pl texts cs" by (auto simp: printed_chunks_def list_all2_Cons1)
  then obtain d1 ev g rest where "pl_query pl d tblock c = Some (d1, ev, g)" "thread_chunks pl tblock cs d1 = Some (rest, d')"
    using Cons.prems(2) by (auto simp: bind_eq_Some_conv)
  then show ?case using Cons.IH [OF c(4)] c(2,3) by (simp add: query_data_def)
qed (simp add: printed_chunks_def)

text \<open>So the pool ends a device's split path where the test's loop ends it.\<close>

lemma split_path_is_threaded:
  assumes "printed_chunks pl texts chunks" and "pool_get p h = Some s"
    and "thread_chunks pl tblock chunks (cs_data s) = Some (evs, d')"
  shows "pool_get (snd (run_queries pl (map (\<lambda>t. (tblock, h, Some t)) texts) p)) h = Some (s\<lparr>cs_data := d'\<rparr>)"
  using assms by (simp add: run_state thread_own_data)

subsection \<open>Property\<close>

text \<open>
  C22. Contract states do not interfere. After any run of queries on any handles, live or not, whatever
  fails among them, each handle holds the state that its own queries alone, in their order, make of
  its initial data, its operations and the rest of its state unchanged; the live handles and the
  handle counter are those of before.
\<close>

theorem queries_noninterfering:
  "(\<forall>h. pool_get (snd (run_queries pl calls p)) h =
      map_option (\<lambda>s. s\<lparr>cs_data := own_data pl h (filter (\<lambda>(now, k, c). k = h) calls) (cs_data s)\<rparr>) (pool_get p h)) \<and>
   contract_state_pool_len (snd (run_queries pl calls p)) = contract_state_pool_len p \<and>
   sp_next (snd (run_queries pl calls p)) = sp_next p"
proof -
  have "own_data pl h (filter (\<lambda>(now, k, c). k = h) calls) d = own_data pl h calls d" for h d
    by (induction calls arbitrary: d) auto
  moreover have "length (sp_entries (snd (run_queries pl calls p))) = length (sp_entries p)"
    using run_frame [of pl calls p] by (metis length_map)
  ultimately show ?thesis using run_frame [of pl calls p] by (simp add: run_state contract_state_pool_len_def)
qed

end
