(* ===== verification/TranscriptTests.thy ===== *)
theory TranscriptTests
  imports QueryRuns ContractTx
begin

text \<open>
  The tests of \<open>contract_ffi.rs\<close> that pass a document through \<open>to_tag_first_json\<close> before serde reads
  it, with the text serde is given written out, and \<open>counter_of\<close>, which reads a field of a threaded
  state through a temporary handle. What serde makes of a text is an argument.
\<close>

subsection \<open>Texts\<close>

definition in_quotes :: "string \<Rightarrow> string" where
  "in_quotes s = [CHR 0x22] @ s @ [CHR 0x22]"

text \<open>How \<open>serde_json\<close> prints a name without escapes, a boolean and a byte.\<close>

definition prints_json :: "json_lib \<Rightarrow> bool" where
  "prints_json jl \<longleftrightarrow>
     (\<forall>s. list_all (\<lambda>c. CHR ''A'' \<le> c \<and> c \<le> CHR ''z'' \<and> c \<noteq> CHR 0x5C) s \<longrightarrow> jl_print jl (JString s) = in_quotes s) \<and>
     jl_print jl (JBool False) = ''false'' \<and> jl_print jl (JNumber (PosInt 0)) = ''0''"

lemma prints_plain:
  assumes "prints_json jl"
  shows "jl_print jl (JBool False) = ''false''" "jl_print jl (JNumber (PosInt 0)) = ''0''"
    "jl_print jl (JString ''tag'') = quoted_tag"
    "list_all (\<lambda>c. CHR ''A'' \<le> c \<and> c \<le> CHR ''z'' \<and> c \<noteq> CHR 0x5C) s \<Longrightarrow> jl_print jl (JString s) = in_quotes s"
proof -
  have "list_all (\<lambda>c. CHR ''A'' \<le> c \<and> c \<le> CHR ''z'' \<and> c \<noteq> CHR 0x5C) ''tag''" by code_simp
  then show "jl_print jl (JString ''tag'') = quoted_tag"
    using assms by (simp add: prints_json_def in_quotes_def quoted_tag_def)
qed (use assms in \<open>simp_all add: prints_json_def\<close>)

subsection \<open>The documents of the tests\<close>

definition stack_transcript :: json where
  "stack_transcript = JArray [JObject [(''idx'', JObject
     [(''cached'', JBool False), (''pushPath'', JBool False),
      (''path'', JArray [JObject [(''tag'', JString ''stack'')]])])]]"

definition field_segment :: json where
  "field_segment = JObject [(''tag'', JString ''atom''), (''value'', JObject [(''tag'', JString ''field'')])]"

definition popeq_transcript :: "json list \<Rightarrow> json" where
  "popeq_transcript atom = JArray [JObject [(''popeq'', JObject
     [(''cached'', JBool False),
      (''result'', JObject [(''value'', JArray [JArray atom]), (''alignment'', JArray [field_segment])])])]]"

definition empty_map_text :: string where
  \<open>empty_map_text = ''{"tag":"map","content":{}}''\<close>

definition stack_text :: string where
  \<open>stack_text = ''[{"idx":{"cached":false,"path":[{"tag":"stack"}],"pushPath":false}}]''\<close>

definition popeq_text :: "string \<Rightarrow> string" where
  \<open>popeq_text atom = ''[{"popeq":{"cached":false,"result":{"alignment":[{"tag":"atom","value":{"tag":"field"}}],"value":[[''
     @ atom @ '']]}}}]''\<close>

subsection \<open>The tests\<close>

definition stack_key_idx_transcript_deserializes ::
    "json_lib \<Rightarrow> (string \<Rightarrow> ('n, 'val, 'path, 'r, 'x) vm_op list option) \<Rightarrow> bool" where
  "stack_key_idx_transcript_deserializes jl ops_parse \<longleftrightarrow>
     (case ops_parse (to_tag_first_json jl stack_transcript) of
        None \<Rightarrow> False
      | Some ops \<Rightarrow> length ops = 1 \<and> (case ops ! 0 of OpIdx cached push_path path \<Rightarrow> True | _ \<Rightarrow> False))"

definition popeq_empty_atom_ok_but_trailing_zero_rejected ::
    "json_lib \<Rightarrow> (string \<Rightarrow> ('n, 'val, 'path, 'r, 'x) vm_op list option) \<Rightarrow> bool" where
  "popeq_empty_atom_ok_but_trailing_zero_rejected jl ops_parse \<longleftrightarrow>
     (let empty = popeq_transcript [];
          r = ops_parse (to_tag_first_json jl empty);
          zeros = replicate 32 (JNumber (PosInt 0));
          padded = popeq_transcript zeros;
          r2 = ops_parse (to_tag_first_json jl padded)
      in r \<noteq> None \<and> r2 = None)"

text \<open>\<open>map_size\<close> is the size of a state value that is a map.\<close>

definition empty_map_state_value_round_trips_through_tag_first ::
    "json_lib \<Rightarrow> (string \<Rightarrow> 'sv option) \<Rightarrow> ('sv \<Rightarrow> json option) \<Rightarrow> ('sv \<Rightarrow> nat option) \<Rightarrow> bool" where
  "empty_map_state_value_round_trips_through_tag_first jl from_str to_value map_size \<longleftrightarrow>
     (case do { sv \<leftarrow> from_str empty_map_text; reserialized \<leftarrow> to_value sv;
                from_str (to_tag_first_json jl reserialized) } of
        None \<Rightarrow> False
      | Some back \<Rightarrow> map_size back = Some 0)"

subsection \<open>They pass\<close>

lemma names_print:
  assumes "prints_json jl" and "s \<in> {''idx'', ''cached'', ''pushPath'', ''path'', ''stack'', ''popeq'', ''result'', ''value'',
    ''alignment'', ''atom'', ''field'', ''map'', ''content''}"
  shows "jl_print jl (JString s) = in_quotes s"
proof -
  have "list_all (list_all (\<lambda>c. CHR ''A'' \<le> c \<and> c \<le> CHR ''z'' \<and> c \<noteq> CHR 0x5C))
    [''idx'', ''cached'', ''pushPath'', ''path'', ''stack'', ''popeq'', ''result'', ''value'', ''alignment'', ''atom'',
     ''field'', ''map'', ''content'']" by code_simp
  then have "list_all (\<lambda>c. CHR ''A'' \<le> c \<and> c \<le> CHR ''z'' \<and> c \<noteq> CHR 0x5C) s"
    using assms(2) by (auto simp: list_all_iff)
  then show ?thesis by (rule prints_plain(4) [OF assms(1)])
qed

lemmas text_steps = json_text.simps [of _ "JObject _"] json_text.simps [of _ "JArray _"] prints_plain(1-3)
  names_print in_quotes_def quoted_tag_def

lemma stack_transcript_text:
  assumes "prints_json jl"
  shows "to_tag_first_json jl stack_transcript = stack_text"
proof -
  have "tag_first stack_transcript = JArray [JObject [(''idx'', JObject [(''cached'', JBool False),
      (''path'', JArray [JObject [(''tag'', JString ''stack'')]]), (''pushPath'', JBool False)])]]"
    unfolding stack_transcript_def by code_simp
  then show ?thesis
    using assms by (simp add: to_tag_first_text prints_plain(3) text_steps stack_text_def)
qed

lemma popeq_transcript_text:
  assumes "prints_json jl" and "list_all (\<lambda>v. v = JNumber (PosInt 0)) atom"
  shows "to_tag_first_json jl (popeq_transcript atom) = popeq_text (str_join '','' (replicate (length atom) ''0''))"
proof -
  have m: "map tag_first atom = atom" "map (json_text jl) atom = replicate (length atom) ''0''"
    using assms(2) prints_plain(2) [OF assms(1)] by (induction atom) auto
  have b: "btree_entries [(''cached'', a), (''result'', c)] = [(''cached'', a), (''result'', c)]"
    "btree_entries [(''value'', a), (''alignment'', c)] = [(''alignment'', c), (''value'', a)]"
    "btree_entries [(''popeq'', a)] = [(''popeq'', a)]" for a c
    by code_simp+
  have f: "tag_first field_segment = field_segment" unfolding field_segment_def by code_simp
  have "tag_first (popeq_transcript atom) = JArray [JObject [(''popeq'', JObject [(''cached'', JBool False),
      (''result'', JObject [(''alignment'', JArray [field_segment]), (''value'', JArray [JArray atom])])])]]"
    by (simp add: popeq_transcript_def tag_first.simps [of "JObject _"] tag_first.simps [of "JArray _"] b f m(1))
  then show ?thesis
    using assms(1) m(2)
    by (simp add: to_tag_first_text prints_plain(3) text_steps popeq_text_def field_segment_def)
qed

text \<open>serde prints a value with its members in key order, so the tag comes after the content.\<close>

lemma empty_map_text_first:
  assumes "prints_json jl"
  shows "to_tag_first_json jl (JObject [(''content'', JObject []), (''tag'', JString ''map'')]) = empty_map_text"
proof -
  have "tag_first (JObject [(''content'', JObject []), (''tag'', JString ''map'')]) =
      JObject [(''tag'', JString ''map''), (''content'', JObject [])]" by code_simp
  then show ?thesis
    using assms by (simp add: to_tag_first_text prints_plain(3) text_steps empty_map_text_def)
qed

lemma transcript_tests_pass:
  assumes "prints_json jl"
  shows "ops_parse stack_text = Some [OpIdx False False [stack_key]] \<Longrightarrow>
      stack_key_idx_transcript_deserializes jl ops_parse"
    and "ops_parse (popeq_text []) = Some [OpPopeq False r] \<Longrightarrow>
      ops_parse (popeq_text (str_join '','' (replicate 32 ''0''))) = None \<Longrightarrow>
      popeq_empty_atom_ok_but_trailing_zero_rejected jl ops_parse"
    and "from_str empty_map_text = Some m \<Longrightarrow> map_size m = Some 0 \<Longrightarrow>
      to_value m = Some (JObject [(''content'', JObject []), (''tag'', JString ''map'')]) \<Longrightarrow>
      empty_map_state_value_round_trips_through_tag_first jl from_str to_value map_size"
proof -
  show "ops_parse stack_text = Some [OpIdx False False [stack_key]] \<Longrightarrow>
      stack_key_idx_transcript_deserializes jl ops_parse"
    by (simp add: stack_key_idx_transcript_deserializes_def stack_transcript_text [OF assms])
  have "to_tag_first_json jl (popeq_transcript []) = popeq_text []"
    using popeq_transcript_text [OF assms, of "[]"] by (simp add: str_join.simps)
  moreover have "to_tag_first_json jl (popeq_transcript (replicate 32 (JNumber (PosInt 0)))) =
      popeq_text (str_join '','' (replicate 32 ''0''))"
    using popeq_transcript_text [OF assms, of "replicate 32 (JNumber (PosInt 0))"]
    by (simp add: list_all_iff)
  ultimately show "ops_parse (popeq_text []) = Some [OpPopeq False r] \<Longrightarrow>
      ops_parse (popeq_text (str_join '','' (replicate 32 ''0''))) = None \<Longrightarrow>
      popeq_empty_atom_ok_but_trailing_zero_rejected jl ops_parse"
    by (simp add: popeq_empty_atom_ok_but_trailing_zero_rejected_def)
  show "from_str empty_map_text = Some m \<Longrightarrow> map_size m = Some 0 \<Longrightarrow>
      to_value m = Some (JObject [(''content'', JObject []), (''tag'', JString ''map'')]) \<Longrightarrow>
      empty_map_state_value_round_trips_through_tag_first jl from_str to_value map_size"
    by (simp add: empty_map_state_value_round_trips_through_tag_first_def empty_map_text_first [OF assms])
qed

subsection \<open>A field through a temporary handle\<close>

text \<open>
  \<open>cs.data = data\<close> on a default state, a handle drawn and filled, its fields read, the handle removed;
  then the third member. Reading through a null pointer is \<open>None\<close>; a text that is no JSON, and the
  error object, have no third member.
\<close>

definition counter_of ::
    "hexlib \<Rightarrow> json_lib \<Rightarrow> ('data, 'op, 'rest, 'gop, 'ev, 'gas) pool_lib \<Rightarrow> ('data, 'op, 'rest) contract_state \<Rightarrow> 'data \<Rightarrow>
     ('data, 'op, 'rest) contract_state pool \<Rightarrow> json option \<times> ('data, 'op, 'rest) contract_state pool" where
  "counter_of hx jl pl default_state data p =
     (let cs = default_state\<lparr>cs_data := data\<rparr>;
          (handle, p1) = alloc cs p;
          ptr = contract_state_read_fields hx jl pl handle p1;
          p2 = pool_remove handle p1;
          third = (\<lambda>v. case as_array v of
             Some arr \<Rightarrow> if 2 < length arr then arr ! 2 else JNull | None \<Rightarrow> JNull)
      in (case ptr of
            NullReply \<Rightarrow> None
          | ErrorReply e \<Rightarrow> Some JNull
          | TextReply json \<Rightarrow> Some (third (case jl_parse jl json of Some v \<Rightarrow> v | None \<Rightarrow> JNull)), p2))"

text \<open>It reads the third field of the data and leaves the pool as it was, but for the drawn handle.\<close>

lemma counter_of_reads:
  assumes ok: "pool_ok p" and "pl_get_ref pl data = SVArray items" and "2 < length items"
    and pr: "jl_parse jl (jl_print jl v) = Some v" "CHR 0x00 \<notin> set (jl_print jl v)"
    and v: "v = JArray (map (state_value_to_json hx) items)"
  shows "counter_of hx jl pl default_state data p =
    (Some (state_value_to_json hx (items ! 2)), p\<lparr>sp_next := sp_next p + 1\<rparr>)"
proof -
  let ?p = "p\<lparr>sp_next := sp_next p + 1\<rparr>" and ?s = "default_state\<lparr>cs_data := data\<rparr>"
  have fresh: "pool_get ?p (sp_next p) = None"
    using pool_ok_fresh [OF ok] by (simp add: pool_get_def)
  then have "pool_remove (sp_next p) (pool_insert (sp_next p) ?s ?p) = ?p"
    by (simp add: pool_remove_insert pool_remove_fresh)
  then show ?thesis
    using assms(2,3) pr v
    by (simp add: counter_of_def alloc_def take_handle_def contract_state_read_fields_def sp.get_ins to_c_string_def
        cstring_new_def as_array_def)
qed

end
