(* ===== verification/Logging.thy ===== *)
theory Logging
  imports Proving Replay
begin

text \<open>
  The log macros and what they can do to their callers. On Android the macros of \<open>dust_ffi.rs\<close>,
  \<open>zswap_ffi.rs\<close> and \<open>prove_ffi.rs\<close> unwrap \<open>CString::new\<close> of the formatted message, so a NUL in it
  panics; elsewhere they write to stderr. Those of \<open>serialize.rs\<close>, \<open>fee_ffi.rs\<close> and
  \<open>balance_ffi.rs\<close> go through the \<open>log\<close> crate and cannot fail. The resolver of proving keys and the
  thread pool are given again with their log lines: the lines change no result, and a key name with a
  NUL is the one thing that stops them.
\<close>

subsection \<open>The macros\<close>

datatype log_target = Android | Desktop

datatype log_level = Info | Error

text \<open>What was written: to logcat with a priority and a tag, to the \<open>log\<close> crate, or to stderr.\<close>

datatype log_line = Logcat nat string string | LogCrate log_level string | Stderr string

definition ANDROID_LOG_ERROR :: nat where "ANDROID_LOG_ERROR = 6"
definition ANDROID_LOG_INFO :: nat where "ANDROID_LOG_INFO = 4"

definition unwrapO :: "'a option \<Rightarrow> ('a \<Rightarrow> 'b outcome) \<Rightarrow> 'b outcome" where
  "unwrapO x f = (case x of Some y \<Rightarrow> f y | None \<Rightarrow> Panics)"

definition dust_android_log :: "log_target \<Rightarrow> nat \<Rightarrow> string \<Rightarrow> string \<Rightarrow> log_line outcome" where
  "dust_android_log target level tag msg =
     (case target of
        Android \<Rightarrow>
          unwrapO (cstring_new tag) (\<lambda>c_tag.
          unwrapO (cstring_new msg) (\<lambda>c_msg. Ret (Logcat level c_tag c_msg)))
      | Desktop \<Rightarrow> Ret (Stderr (''['' @ tag @ ''] '' @ msg)))"

definition TAG :: string where "TAG = ''KuiraZswapFFI''"

definition zswap_android_log :: "log_target \<Rightarrow> nat \<Rightarrow> string \<Rightarrow> string \<Rightarrow> log_line outcome" where
  "zswap_android_log target level tag msg =
     (case target of
        Android \<Rightarrow>
          unwrapO (cstring_new tag) (\<lambda>c_tag.
          unwrapO (cstring_new msg) (\<lambda>c_msg. Ret (Logcat level c_tag c_msg)))
      | Desktop \<Rightarrow> Ret (Stderr (''['' @ tag @ ''] '' @ msg)))"

definition LOG_INFO :: nat where "LOG_INFO = 4"
definition LOG_ERROR :: nat where "LOG_ERROR = 6"

definition prove_log :: "log_target \<Rightarrow> nat \<Rightarrow> string \<Rightarrow> log_line outcome" where
  "prove_log target level msg =
     (case target of
        Android \<Rightarrow>
          unwrapO (cstring_new ''KuiraLocalProver'') (\<lambda>c_tag.
          unwrapO (cstring_new msg) (\<lambda>c_msg. Ret (Logcat level c_tag c_msg)))
      | Desktop \<Rightarrow> Ret (Stderr (''[KuiraLocalProver] '' @ msg)))"

definition balance_log :: "log_target \<Rightarrow> nat \<Rightarrow> string \<Rightarrow> log_line outcome" where
  "balance_log target level msg =
     (case target of
        Android \<Rightarrow> Ret (LogCrate (if level \<ge> 6 then Error else Info) msg)
      | Desktop \<Rightarrow> Ret (Stderr (''[KuiraBalance] '' @ msg)))"

definition log_info :: "log_target \<Rightarrow> string \<Rightarrow> log_line outcome" where
  "log_info target msg =
     (case target of Android \<Rightarrow> Ret (LogCrate Info msg) | Desktop \<Rightarrow> Ret (Stderr msg))"

definition log_error :: "log_target \<Rightarrow> string \<Rightarrow> log_line outcome" where
  "log_error target msg =
     (case target of Android \<Rightarrow> Ret (LogCrate Error msg) | Desktop \<Rightarrow> Ret (Stderr (''[ERROR] '' @ msg)))"

definition fee_log_info :: "log_target \<Rightarrow> string \<Rightarrow> log_line outcome" where
  "fee_log_info target msg =
     (case target of Android \<Rightarrow> Ret (LogCrate Info msg) | Desktop \<Rightarrow> Ret (Stderr msg))"

definition fee_log_error :: "log_target \<Rightarrow> string \<Rightarrow> log_line outcome" where
  "fee_log_error target msg =
     (case target of Android \<Rightarrow> Ret (LogCrate Error msg) | Desktop \<Rightarrow> Ret (Stderr (''[ERROR] '' @ msg)))"

text \<open>The logger of the library: \<open>init_once\<close> keeps the first configuration it is given.\<close>

record logger_config =
  lc_max_level :: log_level
  lc_tag :: string

definition init_logging :: "log_target \<Rightarrow> logger_config option \<Rightarrow> logger_config option" where
  "init_logging target logger =
     (case target of
        Android \<Rightarrow>
          (case logger of Some c \<Rightarrow> Some c
           | None \<Rightarrow> Some \<lparr>lc_max_level = Info, lc_tag = ''KuiraCrypto''\<rparr>)
      | Desktop \<Rightarrow> logger)"

lemma init_logging_once: "init_logging t (init_logging t l) = init_logging t l"
  by (auto simp: init_logging_def split: log_target.split option.split)

subsection \<open>When a log line panics\<close>

text \<open>The contract the three logcat macros share.\<close>

locale logcat_macro =
  fixes put :: "log_target \<Rightarrow> nat \<Rightarrow> string \<Rightarrow> log_line outcome"
  assumes on_android: "put Android level msg = Panics \<longleftrightarrow> CHR 0x00 \<in> set msg"
    and on_desktop: "put Desktop level msg \<noteq> Panics"
begin

lemma panics_iff: "put t level msg = Panics \<longleftrightarrow> t = Android \<and> CHR 0x00 \<in> set msg"
  using on_android on_desktop by (cases t) auto

lemma writes: "CHR 0x00 \<notin> set msg \<Longrightarrow> \<exists>l. put t level msg = Ret l"
  using panics_iff [of t level msg] by (cases "put t level msg") auto

lemma c_strings_safe: "list_all (\<lambda>p. CHR 0x00 \<notin> set p) ps \<Longrightarrow> \<exists>l. put t level (concat ps) = Ret l"
  by (rule writes) (simp add: list_all_iff)

end

lemma unwrapO_panics: "unwrapO (cstring_new s) f = Panics \<longleftrightarrow> CHR 0x00 \<in> set s \<or> f s = Panics"
  by (simp add: unwrapO_def cstring_new_def)

interpretation dust_log: logcat_macro "\<lambda>t level. dust_android_log t level ''KuiraDustFFI''"
  by unfold_locales (simp_all add: dust_android_log_def unwrapO_panics)

interpretation zswap_log: logcat_macro "\<lambda>t level. zswap_android_log t level TAG"
  by unfold_locales (simp_all add: zswap_android_log_def unwrapO_panics TAG_def)

interpretation prover_log: logcat_macro prove_log
  by unfold_locales (simp_all add: prove_log_def unwrapO_panics)

lemma crate_logs_write:
  "\<exists>l. balance_log t level msg = Ret l" "\<exists>l. log_info t msg = Ret l" "\<exists>l. log_error t msg = Ret l"
  "\<exists>l. fee_log_info t msg = Ret l" "\<exists>l. fee_log_error t msg = Ret l"
  by (auto simp: balance_log_def log_info_def log_error_def fee_log_info_def fee_log_error_def split: log_target.split)

text \<open>The copies in \<open>serialize.rs\<close> and \<open>fee_ffi.rs\<close>, and in the two wallets, agree.\<close>

lemma log_copies: "fee_log_info = log_info" "fee_log_error = log_error" "zswap_android_log = dust_android_log"
  by (simp_all add: fun_eq_iff fee_log_info_def log_info_def fee_log_error_def log_error_def
      zswap_android_log_def dust_android_log_def)

subsection \<open>The preview of an events file\<close>

text \<open>The message of the first line; slicing the preview panics by itself off a character boundary.\<close>

definition preview_message :: "string \<Rightarrow> string" where
  "preview_message line =
     ''First event hex ('' @ show_nat (length line) @ ''chars): '' @ take (min (length line) 100) line @ ''...''"

definition log_preview :: "log_target \<Rightarrow> string \<Rightarrow> log_line outcome" where
  "log_preview target line =
     (if is_char_boundary line (min (length line) 100)
      then dust_android_log target ANDROID_LOG_INFO ''KuiraDustFFI'' (preview_message line) else Panics)"

lemma show_nat_plain: "CHR 0x00 \<notin> set (show_nat n)"
  by (rule digits_plain) (rule show_nat_digits)

lemma preview_panics_logged:
  "preview_panics rl line \<longleftrightarrow> log_preview (if rl_android rl then Android else Desktop) line = Panics"
proof -
  have "CHR 0x00 \<in> set (preview_message line) \<longleftrightarrow> CHR 0x00 \<in> set (take 100 line)"
    by (cases "length line \<le> 100") (auto simp: preview_message_def show_nat_plain min_def)
  then show ?thesis
    by (auto simp: preview_panics_def log_preview_def dust_log.panics_iff)
qed

subsection \<open>The resolver and the pool with their log lines\<close>

text \<open>The lines written so far are threaded through; a panic loses what follows.\<close>

type_synonym 'a logged = "log_line list \<Rightarrow> ('a \<times> log_line list) outcome"

definition log_then :: "log_line outcome \<Rightarrow> 'a logged \<Rightarrow> 'a logged" where
  "log_then w k out = (case w of Ret l \<Rightarrow> k (out @ [l]) | Panics \<Rightarrow> Panics)"

definition quoted :: "string \<Rightarrow> string" where
  "quoted s = [CHR 0x27] @ s @ [CHR 0x27]"

definition show_bool :: "bool \<Rightarrow> string" where
  "show_bool b = (if b then ''true'' else ''false'')"

text \<open>\<open>dbg\<close> is the \<open>Debug\<close> form of a path, which escapes control characters.\<close>

definition resolve_key_logged ::
    "log_target \<Rightarrow> (string \<Rightarrow> string) \<Rightarrow> (string \<Rightarrow> disk_entry) \<Rightarrow> resolver \<Rightarrow> string \<Rightarrow>
     (io_error + key_material option) logged" where
  "resolve_key_logged target dbg fs rs key_name =
     (case map_of (rs_tx_keys rs) key_name of
        Some km \<Rightarrow>
          log_then (prove_log target LOG_INFO (''Resolved key '' @ quoted key_name @ '' from transaction HashMap''))
            (\<lambda>out. Ret (Inr (Some km), out))
      | None \<Rightarrow>
          (let rel_path = strip_prefix ''midnight/'' key_name;
               base = path_join (rs_keys_dir rs) rel_path;
               prover_path = with_extension base ''prover'';
               verifier_path = with_extension base ''verifier'';
               ir_path = with_extension base ''bzkir'' in
           if \<not> path_exists fs prover_path \<or> \<not> path_exists fs verifier_path \<or> \<not> path_exists fs ir_path
           then
             log_then (prove_log target LOG_ERROR (''Key files missing for '' @ quoted key_name @
                 '': prover='' @ show_bool (path_exists fs prover_path) @ '', verifier='' @
                 show_bool (path_exists fs verifier_path) @ '', ir='' @ show_bool (path_exists fs ir_path)))
               (\<lambda>out. Ret (Inr None, out))
           else
             log_then (prove_log target LOG_INFO (''Loading key '' @ quoted key_name @ '' from '' @ dbg base)) (\<lambda>out.
             case bindE (read_file fs prover_path) (\<lambda>prover_key.
                  bindE (read_file fs verifier_path) (\<lambda>verifier_key.
                  bindE (read_file fs ir_path) (\<lambda>ir_source. Inr (prover_key, verifier_key, ir_source)))) of
               Inl e \<Rightarrow> Ret (Inl e, out)
             | Inr (prover_key, verifier_key, ir_source) \<Rightarrow>
                 log_then (prove_log target LOG_INFO (''Loaded key '' @ quoted key_name @ '': prover='' @
                     show_nat (length prover_key) @ ''B, verifier='' @ show_nat (length verifier_key) @ ''B, ir='' @
                     show_nat (length ir_source) @ ''B''))
                   (\<lambda>out. Ret (Inr (Some \<lparr>km_prover = prover_key, km_verifier = verifier_key,
                      km_ir = ir_source\<rparr>), out)) out)))"

definition get_params_logged ::
    "log_target \<Rightarrow> (string \<Rightarrow> string) \<Rightarrow> (bytes \<Rightarrow> 'params option) \<Rightarrow> (string \<Rightarrow> disk_entry) \<Rightarrow> resolver \<Rightarrow> u8 \<Rightarrow>
     (io_error + 'params) logged" where
  "get_params_logged target dbg params_read fs rs k =
     (let path = path_join (rs_keys_dir rs) (''bls_midnight_2p'' @ show_word k) in
      if \<not> path_exists fs path then (\<lambda>out. Ret (Inl (ParamsMissing path), out))
      else
        log_then (prove_log target LOG_INFO (''Loading BLS params k='' @ show_word k @ '' from '' @ dbg path)) (\<lambda>out.
        case read_file fs path of
          Inl e \<Rightarrow> Ret (Inl e, out)
        | Inr bs \<Rightarrow>
            log_then (prove_log target LOG_INFO (''Loaded BLS params k='' @ show_word k @ '': '' @
                show_nat (length bs) @ ''B''))
              (\<lambda>out. Ret (ok_or ParamsInvalid (params_read bs), out)) out))"

text \<open>\<open>err\<close> is rayon's message when its pool exists already.\<close>

definition init_proving_thread_pool_logged ::
    "log_target \<Rightarrow> string \<Rightarrow> usize option \<Rightarrow> rayon \<Rightarrow> rayon logged" where
  "init_proving_thread_pool_logged target err available ry =
     (if ry_once ry then (\<lambda>out. Ret (ry, out))
      else
        (let cores = (case available of Some n \<Rightarrow> n | None \<Rightarrow> 1);
             threads = pool_threads cores in
         case ry_threads ry of
           None \<Rightarrow>
             log_then (prove_log target LOG_INFO (''rayon pool capped to '' @ show_word threads @ ''/'' @
                 show_word cores @ '' threads (UI headroom)''))
               (\<lambda>out. Ret (ry\<lparr>ry_once := True, ry_threads := Some threads\<rparr>, out))
         | Some t \<Rightarrow>
             log_then (prove_log target LOG_ERROR (''rayon pool already initialized ('' @ err @
                 ''); proving may use all cores''))
               (\<lambda>out. Ret (ry\<lparr>ry_once := True, ry_threads := Some t\<rparr>, out))))"

definition kuira_crypto_init_logged ::
    "log_target \<Rightarrow> string \<Rightarrow> usize option \<Rightarrow> logger_config option \<times> rayon \<Rightarrow>
     (logger_config option \<times> rayon) logged" where
  "kuira_crypto_init_logged target err available st out =
     (let logger = init_logging target (fst st) in
      case init_proving_thread_pool_logged target err available (snd st) out of
        Ret (ry, out') \<Rightarrow> Ret ((logger, ry), out')
      | Panics \<Rightarrow> Panics)"

text \<open>A logged run returns \<open>x\<close> after writing something more.\<close>

definition logs_to :: "'a logged \<Rightarrow> 'a \<Rightarrow> bool" where
  "logs_to f x \<longleftrightarrow> (\<forall>out. \<exists>ls. f out = Ret (x, out @ ls))"

lemma logs_to_ret: "logs_to (\<lambda>out. Ret (x, out)) x"
  by (simp add: logs_to_def)

lemma logs_to_then:
  assumes "t = Android \<longrightarrow> CHR 0x00 \<notin> set msg" and "logs_to k x"
  shows "logs_to (log_then (prove_log t level msg) k) x"
proof -
  obtain l where "prove_log t level msg = Ret l"
    using prover_log.panics_iff [of t level msg] assms(1) by (cases "prove_log t level msg") auto
  then show ?thesis using assms(2) by (simp add: logs_to_def log_then_def) (metis append_assoc)
qed

lemma log_then_panics: "CHR 0x00 \<in> set msg \<Longrightarrow> log_then (prove_log Android level msg) k out = Panics"
  using prover_log.panics_iff [of Android level msg] by (simp add: log_then_def)

lemma shown_bool_plain: "CHR 0x00 \<notin> set (show_bool b)"
  by (simp add: show_bool_def)

lemmas log_plain = show_nat_plain shown_bool_plain show_word_def quoted_def

lemma resolve_logs:
  assumes "\<And>p. CHR 0x00 \<notin> set (dbg p)" and "t = Android \<longrightarrow> CHR 0x00 \<notin> set key_name"
  shows "logs_to (resolve_key_logged t dbg fs rs key_name) (resolve_key fs rs key_name)"
proof (cases "map_of (rs_tx_keys rs) key_name")
  case (Some km)
  then show ?thesis
    using assms by (auto simp: resolve_key_logged_def resolve_key_def log_plain intro!: logs_to_then logs_to_ret)
next
  case None
  define base where "base = path_join (rs_keys_dir rs) (strip_prefix ''midnight/'' key_name)"
  show ?thesis
    unfolding resolve_key_logged_def resolve_key_def None option.case Let_def base_def [symmetric]
    using assms
    by (auto simp: log_plain bindE_def intro!: logs_to_then logs_to_ret split: sum.split)
qed

lemma resolve_stops: "CHR 0x00 \<in> set key_name \<Longrightarrow> resolve_key_logged Android dbg fs rs key_name out = Panics"
  by (auto simp: resolve_key_logged_def Let_def log_then_panics quoted_def split: option.split)

lemma params_logs:
  "(\<And>p. CHR 0x00 \<notin> set (dbg p)) \<Longrightarrow> logs_to (get_params_logged t dbg pread fs rs k) (get_params pread fs rs k)"
  by (auto simp: get_params_logged_def get_params_def Let_def log_plain bindE_def intro!: logs_to_then logs_to_ret
      split: sum.split)

lemma pool_logs:
  "CHR 0x00 \<notin> set err \<Longrightarrow>
     logs_to (init_proving_thread_pool_logged t err available ry) (init_proving_thread_pool available ry)"
  by (auto simp: init_proving_thread_pool_logged_def init_proving_thread_pool_def Let_def log_plain
      intro!: logs_to_then logs_to_ret split: option.split)

lemma init_logs:
  assumes "CHR 0x00 \<notin> set err"
  shows "logs_to (kuira_crypto_init_logged t err available (logger, ry))
    (init_logging t logger, kuira_crypto_init available ry)"
proof -
  have "\<exists>ls. init_proving_thread_pool_logged t err available ry out = Ret (init_proving_thread_pool available ry, out @ ls)" for out
    using pool_logs [OF assms] by (simp add: logs_to_def)
  then show ?thesis
    unfolding logs_to_def kuira_crypto_init_logged_def kuira_crypto_init_def Let_def fst_conv snd_conv
    by (metis (no_types, lifting) outcome.case(1) prod.case)
qed

subsection \<open>Property\<close>

text \<open>
  C36. Logging changes no answer of the key resolver: with its log lines it returns what it returns
  without them, on every platform, except that on Android a key name with a NUL in it, which a
  transaction can carry, panics in every branch.
\<close>

theorem resolver_logging_transparent:
  assumes "\<And>p. CHR 0x00 \<notin> set (dbg p)"
  shows "if t = Android \<and> CHR 0x00 \<in> set key_name
    then resolve_key_logged t dbg fs rs key_name out = Panics
    else (\<exists>ls. resolve_key_logged t dbg fs rs key_name out = Ret (resolve_key fs rs key_name, out @ ls))"
  using resolve_logs [where dbg = dbg and t = t and key_name = key_name and fs = fs and rs = rs] assms resolve_stops by (auto simp: logs_to_def)

theorem resolver_logging_transparent_witness:
  "(\<exists>ls. resolve_key_logged Android (\<lambda>p. ''/keys'') demo_fs \<lparr>rs_keys_dir = ''/keys'', rs_tx_keys = []\<rparr>
      ''midnight/zswap/spend'' [] = Ret (resolve_key demo_fs \<lparr>rs_keys_dir = ''/keys'', rs_tx_keys = []\<rparr>
      ''midnight/zswap/spend'', ls)) \<and>
   resolve_key_logged Android (\<lambda>p. ''/keys'') demo_fs \<lparr>rs_keys_dir = ''/keys'', rs_tx_keys = []\<rparr>
      (''a'' @ [CHR 0x00]) [] = Panics"
  using resolver_logging_transparent [of "\<lambda>p. ''/keys''" Android "''a'' @ [CHR 0x00]" demo_fs
      "\<lparr>rs_keys_dir = ''/keys'', rs_tx_keys = []\<rparr>" "[]"]
    resolver_logging_transparent [of "\<lambda>p. ''/keys''" Android "''midnight/zswap/spend''" demo_fs
      "\<lparr>rs_keys_dir = ''/keys'', rs_tx_keys = []\<rparr>" "[]"]
  by simp

end
