(* ===== verification/Spec2Isabelle.thy ===== *)
theory Spec2Isabelle
  imports LocalBalancing PoolRuns StateView FfiSession CallProtocol ErrorText DustRegistration FeeCalc Replay TransferProtocol TransferPipeline ReplayParity
    SigningTests SchemeTests KeyTests ContractTests ValueTests WalletTests ShieldedTests FundedTests RegistrationTests EntryTests
    TranscriptTests Logging QueryRuns
begin

text \<open>
  \<^bold>\<open>The Kuira crypto FFI\<close>, the Rust crate that gives a mobile wallet the Midnight ledger's
  cryptography behind C functions: it parses what the wallet passes (pointers, hex, JSON), calls the
  ledger, and hands back strings, byte vectors and opaque pointers. The crate's own logic is what
  happens around the ledger's calls, and that is what this development models: choosing coins and
  dust, sizing fees, building intents and offers in the right order with the right signatures,
  keeping wallet and contract state consistent when calls fail or interleave, and the ownership of
  what crosses the boundary.

  \<^bold>\<open>Parts, their theories, and the code they model\<close> (paths under \<open>src/src/\<close>)

  \<^item> \<open>Prelude\<close>, \<open>RustStd\<close>, \<open>Json\<close>, \<open>LedgerTypes\<close>: the vocabulary. Machine integers at their width
    with Rust's wrapping, saturating and checked operations (the release profile wraps), \<open>Result\<close> as
    a sum with the error on the left, nullable pointers as options; what the source uses of
    \<open>std\<close> (UTF-8 validation, \<open>CString::new\<close>, \<open>split\<close>, \<open>trim\<close>, \<open>parse::<u128>\<close>, little-endian
    bytes); \<open>serde_json::Value\<close>; the structures of the ledger that the source builds field by field.
  \<^item> \<open>TagPrefix\<close>, \<open>FeeCalc\<close>: the three copies of \<open>strip_tag_prefix\<close> and
    \<open>calculate_transaction_fee\<close> (\<open>fee_ffi.rs\<close>).
  \<^item> \<open>DustSelect\<close>, \<open>Balance\<close>, \<open>LocalBalancing\<close>: \<open>balance_ffi.rs\<close>. The first-fit loops over dust UTXOs
    (also the one of \<open>serialize.rs\<close>), sizing the fee with a draft intent, sealing and merging, the
    entry point with its write-back of \<open>*dust_state_ptr\<close>, and the whole with the local prover.
  \<^item> \<open>Proving\<close>: \<open>prove_ffi.rs\<close> and \<open>kuira_crypto_init\<close> of \<open>lib.rs\<close>. The rayon pool, the resolver of
    proving keys and parameters over Unix paths, the proving entry point.
  \<^item> \<open>DustState\<close>, \<open>Replay\<close>, \<open>ReplayParity\<close>: \<open>dust_ffi.rs\<close> and the replay functions of \<open>zswap_ffi.rs\<close>. Dust
    state and its persistence, event replay from memory and, in chunks, from files, the panic the
    log preview can cause, and the agreement of all ways to replay shielded events.
  \<^item> \<open>ZswapWallet\<close>, \<open>ShieldedPayment\<close>, \<open>ZswapTx\<close>, \<open>TransferPipeline\<close>: \<open>zswap_ffi.rs\<close>. Balances, coin
    selection, spending a coin, sessions of payments with the client's part, outputs, offers,
    shielded transactions with and without dust, and a whole shielded transfer, in which the client
    carries hex and JSON texts from one call to the next.
  \<^item> \<open>UnshieldedTx\<close>, \<open>TransferProtocol\<close>, \<open>DustRegistration\<close>: \<open>serialize.rs\<close>. Unshielded intents, the
    message to sign, the transaction with and without dust, sealing and hashing; a whole transfer
    with the signing of \<open>transaction_ffi.rs\<close> and the client's part; dust registration with its
    maturity gate and its sentinel.
  \<^item> \<open>ContractValue\<close>, \<open>StatePool\<close>, \<open>StateView\<close>, \<open>PoolRuns\<close>, \<open>QueryRuns\<close>, \<open>ContractTx\<close>, \<open>CallProtocol\<close>,
    \<open>ErrorText\<close>: \<open>contract_ffi.rs\<close>. Aligned values, state trees and JSON; the pool of contract states
    behind a mutex, as entry points, as interleaved atomic steps and under runs of queries; funding and withdrawal
    offers, assembling calls and deployments, signing offers after proving, and a deposit through
    all of them; the error object as text, with the signal the wallet funds from.
  \<^item> \<open>FfiHeap\<close>, \<open>Signing\<close>, \<open>FfiSession\<close>: \<open>transaction_ffi.rs\<close>, \<open>derive_shielded_keys\<close> of \<open>lib.rs\<close> and every
    \<open>free_*\<close> function, on a heap of owned blocks where a wrong or second free is undefined
    behaviour; and a caller's session over them.
  \<^item> \<open>Logging\<close>: the log macros of every file on Android and elsewhere, \<open>init_logging\<close>, and the code whose log
    lines carry text from outside (the resolver, the preview), with its lines written out.
  \<^item> \<open>SigningTests\<close>, \<open>SchemeTests\<close> (\<open>transaction_ffi.rs\<close>), \<open>KeyTests\<close> (\<open>test_key_validity.rs\<close>),
    \<open>ContractTests\<close>, \<open>TranscriptTests\<close>, \<open>ValueTests\<close> (\<open>contract_ffi.rs\<close>, \<open>balance_ffi.rs\<close>), \<open>RegistrationTests\<close>
    (\<open>serialize.rs\<close>), \<open>WalletTests\<close>, \<open>ShieldedTests\<close>, \<open>FundedTests\<close>, \<open>EntryTests\<close> (the other files, and
    dust selection of \<open>balance_ffi.rs\<close>): the crate's unit tests, each a definition with the name of the
    test (prefixed by its file where two files share a name) and a lemma that it passes. Those of
    signing are programs on the heap, whose passing also says that they make no undefined access; the
    rest are boolean functions of the libraries. A wallet or an event that the ledger's test
    utilities make is an argument.

  A definition has the name of the function or type it models where the name is free; the parts of
  a long function (its loops, its phases) are definitions of their own, composed as the function
  composes them. Every early return is a branch: \<open>None\<close> for a null reply, an error constructor for
  an \<open>Err\<close>, and a reply of \<open>contract_ffi.rs\<close> is null, an error object or a text.

  \<^bold>\<open>How the parts interact.\<close> The wallet keeps dust and shielded states as boxed pointers and
  contract states as pool handles. A transfer asks for the message of an intent
  (\<open>get_signing_message_for_input\<close>), signs it (\<open>sign_data\<close>), and submits the same intent
  (\<open>serialize_unshielded_transaction\<close>, with dust or without); a contract call or deployment is
  assembled from a pool state, proved (\<open>zkir_prove_transaction_local\<close>), its offer signed
  (\<open>contract_sign_proven_offer\<close>), then balanced, which proves its own dust intent with the same
  resolver. Between balances the wallet passes back the nullifiers it has spent
  (\<open>dust_current_nullifiers\<close>, the exclusions of \<open>balance_proven_transaction\<close>).

  \<^bold>\<open>What the groups of lemmas show.\<close> Balancing never spends one nullifier
  twice in a session, and shielded payments never a coin; balancing keeps the caller's state on
  failure, and pays exactly the fee of the merged transaction. The state pool never hands out a
  live or null handle under any interleaving, its calls are runs of those steps and never wait for
  each other, and under any run of queries each state evolves as if it were alone (though two
  queries of one handle can lose an update, as one theorem says). A registration reads back as what
  was asked, well signed. Logging changes no result of the key resolver, except that a NUL panics.
  Offers balance and are attached to calls as declared, up to the signed deposit; what is signed
  is what is submitted, and a transfer run as documented is correctly signed. Chunked and streamed
  replays equal the one-shot replay, with the stated number of calls. Selection is sound, complete
  and minimal. Encodings round-trip, and the funding signal is read back from the error object;
  free functions are defined on what their makers hand out. A shielded transfer carried through the
  FFI as texts is the ledger's own transfer. The unit tests pass in the model, for every library that
  reads the texts they contain and does what the test asks of it (verify what it signs, build what it
  is given): a check of the definitions against what the authors expect. Six contracts are locales whose laws
  are discharged on the model: \<open>tag_stripper\<close> (the copies of the tag stripper), \<open>first_fit\<close> (both
  dust loops), \<open>chunked_replay\<close> (both replays), \<open>handle_map\<close> (the pool), \<open>block_owner\<close> (the
  free functions) and \<open>logcat_macro\<close> (the three macros that write to logcat).

  \<^bold>\<open>Parameters.\<close> Code that is not in the repository (the midnight-ledger submodule, the \<open>hex\<close> and
  \<open>serde_json\<close> crates, \<open>rand\<close>, the file system, the clock) is a record of functions that the
  definitions take as an argument, one record per component (\<open>dust_lib\<close>, \<open>balance_lib\<close>,
  \<open>pool_lib\<close> and so on). Theorems that need documented behaviour of it say so as a hypothesis
  (\<open>hex_ok\<close>, \<open>sig_ok\<close>, \<open>fees_small\<close>, a replay that composes) and are applied to a concrete instance. Decoding JSON into
  a struct with serde's derive is such a parameter; reading a \<open>Value\<close> member by member is modelled.
  Draws of \<open>OsRng\<close> are fields of these records, numbered where one call makes several.

  \<^bold>\<open>Bounds and fuel.\<close> There is no fuel. The crate's loops run over lists, chunks or a counted range and
  are structural or carry a measure. Words have their width; where a result holds only without
  wrap-around the bound is a hypothesis (2^64 handles drawn, fees below 2^120, states below 2^63 bytes).

  \<^bold>\<open>Not modelled.\<close> The C file of the JNI bridge (another language, glue); log lines that carry the
  crate's own text and numbers, which are left out of the functions that write them; the text of
  error messages beyond their kind; zeroing of key copies (not observable by the caller); the poisoning of the
  pool's mutex, which \<open>lock_state_pool\<close> always recovers; the diagnostic program outside the crate,
  which prints key bytes; the unit tests that call the ledger or serde only, that replay a recorded
  transcript against the ledger, or that only print (and of the modelled ones the printing); the build files; everything inside the ledger. Addresses of freed blocks are not reused, so use after free is always seen.
\<close>

end
